(* ===== verification/Prelude.thy ===== *)
theory Prelude
  imports Main
begin

text \<open>
  Shared vocabulary of the development. The Python scripts under \<open>src/\<close> thread three
  kinds of effect through their calls: output (HTTP requests issued, log lines written),
  exceptions that escape a function (and the interpreter's \<open>exit\<close>), and loops that may
  not stop. A run of a piece of code is modelled as a value of type
  \<open>('x, 'e, 'a) run = (('x + 'a) \<times> 'e list) option\<close>:
  \<^item> \<open>None\<close>: the code did not return within the fuel it was given (see Fetcher);
  \<^item> \<open>Some (Inl x, evs)\<close>: it stopped abnormally with \<open>x\<close> after emitting \<open>evs\<close>;
  \<^item> \<open>Some (Inr a, evs)\<close>: it returned \<open>a\<close> after emitting \<open>evs\<close>.
  The events are kept in the order the code emits them, so ordering properties are
  statements about one list. This theory also holds the list helpers the Python
  model needs (first-occurrence de-duplication, a map that stops at the first error).
\<close>

named_theorems run_simps "equations of the run combinators"
named_theorems py_simps "equations of the Python value helpers"

type_synonym ('x, 'e, 'a) run = "(('x + 'a) \<times> 'e list) option"

subsection \<open>The run combinators\<close>

definition ret :: "'a \<Rightarrow> ('x, 'e, 'a) run" where
  "ret a = Some (Inr a, [])"

definition emit :: "'e list \<Rightarrow> ('x, 'e, unit) run" where
  "emit evs = Some (Inr (), evs)"

definition raise :: "'x \<Rightarrow> ('x, 'e, 'a) run" where
  "raise x = Some (Inl x, [])"

text \<open>Sequential composition: stop at non-return or an escaping exception, else run
  the continuation and append its events.\<close>

definition bind_run :: "('x, 'e, 'a) run \<Rightarrow> ('a \<Rightarrow> ('x, 'e, 'b) run) \<Rightarrow> ('x, 'e, 'b) run" where
  "bind_run m f =
     (case m of
        None \<Rightarrow> None
      | Some (Inl x, evs) \<Rightarrow> Some (Inl x, evs)
      | Some (Inr a, evs) \<Rightarrow> map_option (\<lambda>(r, evs'). (r, evs @ evs')) (f a))"

text \<open>A computation that always returns and cannot raise, lifted into a run.\<close>

definition lift_run :: "'a \<times> 'e list \<Rightarrow> ('x, 'e, 'a) run" where
  "lift_run p = Some (Inr (fst p), snd p)"

lemma bind_run_None [simp, run_simps]: "bind_run None f = None"
  by (simp add: bind_run_def)

lemma bind_run_Inl [simp, run_simps]: "bind_run (Some (Inl x, evs)) f = Some (Inl x, evs)"
  by (simp add: bind_run_def)

lemma bind_run_Inr [simp, run_simps]:
  "bind_run (Some (Inr a, evs)) f = map_option (\<lambda>(r, evs'). (r, evs @ evs')) (f a)"
  by (simp add: bind_run_def)

lemma bind_run_ret [simp, run_simps]: "bind_run (ret a) f = f a"
  by (cases "f a") (auto simp: ret_def)

lemma bind_run_raise [simp, run_simps]: "bind_run (raise x) f = raise x"
  by (simp add: raise_def)

lemma bind_run_emit [simp, run_simps]:
  "bind_run (emit evs) f = map_option (\<lambda>(r, evs'). (r, evs @ evs')) (f ())"
  by (simp add: emit_def)

lemma bind_run_lift [simp, run_simps]:
  "bind_run (lift_run p) f = map_option (\<lambda>(r, evs'). (r, snd p @ evs')) (f (fst p))"
  by (simp add: lift_run_def)

lemma bind_run_ret_right [simp]: "bind_run m ret = m"
  by (auto simp: bind_run_def ret_def option.map_comp split: option.splits sum.splits)

lemma bind_run_assoc:
  "bind_run (bind_run m f) g = bind_run m (\<lambda>a. bind_run (f a) g)"
proof (cases m)
  case (Some p)
  then show ?thesis
    by (cases p) (auto simp: bind_run_def map_option_case
                        split: option.splits sum.splits prod.splits)
qed simp

lemma bind_run_Some_Inr:
  "bind_run m f = Some (Inr b, evs) \<longleftrightarrow>
     (\<exists>a evs1 evs2. m = Some (Inr a, evs1) \<and> f a = Some (Inr b, evs2) \<and> evs = evs1 @ evs2)"
  by (auto simp: bind_run_def split: option.splits sum.splits)

lemma bind_run_is_None:
  "bind_run m f = None \<longleftrightarrow> m = None \<or> (\<exists>a evs. m = Some (Inr a, evs) \<and> f a = None)"
  by (auto simp: bind_run_def split: option.splits sum.splits)

subsection \<open>First-occurrence de-duplication\<close>

text \<open>Keeps the first occurrence of every element, in order: the order in which a Python
  \<open>dict\<close> built from a sequence iterates its keys.\<close>

definition dedup :: "'a list \<Rightarrow> 'a list" where
  "dedup xs = rev (remdups (rev xs))"

lemma set_dedup [simp]: "set (dedup xs) = set xs"
  by (simp add: dedup_def)

lemma distinct_dedup [simp, intro]: "distinct (dedup xs)"
  by (simp add: dedup_def)

lemma dedup_distinct [simp]: "distinct xs \<Longrightarrow> dedup xs = xs"
  by (simp add: dedup_def distinct_remdups_id)

lemma dedup_Nil [simp]: "dedup [] = []"
  by (simp add: dedup_def)

lemma dedup_eq_Nil_iff [simp]: "dedup xs = [] \<longleftrightarrow> xs = []"
  by (simp add: dedup_def)

lemma remdups_snoc: "remdups (ys @ [x]) = remdups (filter (\<lambda>y. y \<noteq> x) ys) @ [x]"
  by (induction ys) auto

lemma dedup_Cons: "dedup (x # xs) = x # dedup (filter (\<lambda>y. y \<noteq> x) xs)"
  by (simp add: dedup_def remdups_snoc rev_filter)

subsection \<open>A map that stops at the first error\<close>

text \<open>A Python list comprehension \<open>[g(x) for x in xs]\<close> whose body can raise: the
  first exception aborts the whole comprehension.\<close>

fun map_sum :: "('a \<Rightarrow> 'x + 'b) \<Rightarrow> 'a list \<Rightarrow> 'x + 'b list" where
  "map_sum g [] = Inr []"
| "map_sum g (x # xs) =
     (case g x of
        Inl e \<Rightarrow> Inl e
      | Inr y \<Rightarrow> (case map_sum g xs of Inl e \<Rightarrow> Inl e | Inr ys \<Rightarrow> Inr (y # ys)))"

lemma map_sum_Inr_iff:
  "map_sum g xs = Inr ys \<longleftrightarrow> list_all2 (\<lambda>x y. g x = Inr y) xs ys"
proof (induction xs arbitrary: ys)
  case Nil
  then show ?case by auto
next
  case (Cons x xs)
  show ?case
    by (cases ys) (auto simp: Cons.IH [symmetric] split: sum.splits)
qed

lemma map_sum_all_Inr:
  "(\<And>x. x \<in> set xs \<Longrightarrow> g x = Inr (h x)) \<Longrightarrow> map_sum g xs = Inr (map h xs)"
  by (induction xs) auto

lemma map_sum_Inl_ex:
  "map_sum g xs = Inl e \<Longrightarrow> \<exists>x \<in> set xs. g x = Inl e"
  by (induction xs) (auto split: sum.splits)

subsection \<open>The cost of a page walk\<close>

text \<open>A cursor-paginated walk that serves the pages \<open>ps\<close> and then ends, by a page without
  cursor (\<open>ok\<close>) or by a failing request (\<open>\<not> ok\<close>), costs one request per page and one
  for the failing request. Both pagination loops of the repository (Fetcher, Reporter)
  are measured with it.\<close>

definition walk_steps :: "'a list list \<Rightarrow> bool \<Rightarrow> nat" where
  "walk_steps ps ok = length ps + (if ok then 0 else 1)"

subsection \<open>Lists compared pointwise\<close>

lemma map_pair_eq:
  "map f xs = map f' ys \<Longrightarrow> map g xs = map g' ys \<Longrightarrow>
   map (\<lambda>x. (f x, g x)) xs = map (\<lambda>y. (f' y, g' y)) ys"
  by (simp add: list_eq_iff_nth_eq)

end
