(* ===== verification/Py_Json.thy ===== *)
theory Py_Json
  imports Prelude
begin

text \<open>
  The Python and JSON semantics the scripts rely on. \<open>response.json()\<close> yields a JSON
  value, modelled by \<open>json\<close> (numbers as integers; floats do not occur in the fields the
  scripts read). The scripts then use four Python operations on such values, each of which
  may raise, so each returns \<open>py_exc + _\<close>:
  \<^item> \<open>data.get(k, d)\<close> (\<open>py_get\<close>): a \<open>dict\<close> lookup with default; any other value has no
    \<open>get\<close> method (\<open>AttributeError\<close>);
  \<^item> \<open>for item in v\<close> (\<open>py_iter\<close>): lists yield their elements, strings their characters,
    dicts their keys; \<open>None\<close>, numbers and booleans are not iterable (\<open>TypeError\<close>);
  \<^item> \<open>item["did"]\<close> (\<open>py_subscript\<close>): a \<open>dict\<close> lookup that raises \<open>KeyError\<close> on a
    missing key; a string key on any other value raises \<open>TypeError\<close>;
  \<^item> \<open>set(xs)\<close> (\<open>py_set\<close>): raises \<open>TypeError\<close> on an unhashable element (a list or a
    dict), else the de-duplicated elements.
  Python's \<open>json\<close> module keeps the last value of a repeated key, and iterates the keys of
  a dict in first-occurrence order: \<open>dict_get\<close> and \<open>py_iter\<close> follow that. A Python
  \<open>set\<close> is represented by a list without repetitions; its iteration order is not
  specified by the language, so every property of the development that concerns a set is
  stated on the list's \<open>set\<close> (the abstraction), never on its order. The model
  distinguishes the JSON values \<open>true\<close> and \<open>1\<close>, which Python's \<open>==\<close> identifies.
\<close>

datatype json =
    JNull
  | JBool bool
  | JNum int
  | JStr string
  | JList "json list"
  | JObj "(string \<times> json) list"

datatype py_exc = TransportError | JSONDecodeError | AttributeError | TypeError | KeyError | DatabaseError

subsection \<open>Truthiness\<close>

text \<open>\<open>if cursor:\<close> and \<open>if not cursor:\<close>: \<open>None\<close>, \<open>False\<close>, \<open>0\<close> and empty
  containers are false.\<close>

fun truthy :: "json \<Rightarrow> bool" where
  "truthy JNull = False"
| "truthy (JBool b) = b"
| "truthy (JNum i) = (i \<noteq> 0)"
| "truthy (JStr s) = (s \<noteq> [])"
| "truthy (JList xs) = (xs \<noteq> [])"
| "truthy (JObj kv) = (kv \<noteq> [])"

subsection \<open>Dict access\<close>

definition dict_lookup :: "(string \<times> json) list \<Rightarrow> string \<Rightarrow> json option" where
  "dict_lookup kv k = map_of (rev kv) k"

definition dict_get :: "(string \<times> json) list \<Rightarrow> string \<Rightarrow> json \<Rightarrow> json" where
  "dict_get kv k d = (case dict_lookup kv k of None \<Rightarrow> d | Some v \<Rightarrow> v)"

fun py_get :: "json \<Rightarrow> string \<Rightarrow> json \<Rightarrow> py_exc + json" where
  "py_get (JObj kv) k d = Inr (dict_get kv k d)"
| "py_get _ k d = Inl AttributeError"

fun py_iter :: "json \<Rightarrow> py_exc + json list" where
  "py_iter (JList xs) = Inr xs"
| "py_iter (JStr s) = Inr (map (\<lambda>c. JStr [c]) s)"
| "py_iter (JObj kv) = Inr (map JStr (dedup (map fst kv)))"
| "py_iter _ = Inl TypeError"

fun py_subscript :: "json \<Rightarrow> string \<Rightarrow> py_exc + json" where
  "py_subscript (JObj kv) k = (case dict_lookup kv k of None \<Rightarrow> Inl KeyError | Some v \<Rightarrow> Inr v)"
| "py_subscript _ k = Inl TypeError"

subsection \<open>Sets\<close>

fun hashable :: "json \<Rightarrow> bool" where
  "hashable (JList _) = False"
| "hashable (JObj _) = False"
| "hashable _ = True"

definition py_set :: "json list \<Rightarrow> py_exc + json list" where
  "py_set xs = (if list_all hashable xs then Inr (dedup xs) else Inl TypeError)"

text \<open>\<open>a & b\<close> on two sets: the elements of \<open>a\<close> that are in \<open>b\<close>.\<close>

definition py_inter :: "json list \<Rightarrow> json list \<Rightarrow> json list" where
  "py_inter a b = filter (\<lambda>x. x \<in> set b) a"

subsection \<open>Lemmas\<close>

lemma dict_lookup_Cons_last [py_simps]:
  "dict_lookup (kv @ [(k, v)]) k = Some v"
  by (simp add: dict_lookup_def)

lemma dict_get_absent [py_simps]: "dict_lookup kv k = None \<Longrightarrow> dict_get kv k d = d"
  by (simp add: dict_get_def)

lemma py_get_Inr_iff:
  "py_get data k d = Inr v \<longleftrightarrow> (\<exists>kv. data = JObj kv \<and> v = dict_get kv k d)"
  by (cases data) auto

lemma py_set_Inr_iff:
  "py_set xs = Inr ys \<longleftrightarrow> list_all hashable xs \<and> ys = dedup xs"
  by (auto simp: py_set_def)

lemma py_set_Inl_iff:
  "py_set xs = Inl e \<longleftrightarrow> \<not> list_all hashable xs \<and> e = TypeError"
  by (auto simp: py_set_def)

lemma py_set_abs [py_simps]:
  "py_set xs = Inr ys \<Longrightarrow> set ys = set xs \<and> distinct ys"
  by (auto simp: py_set_def split: if_splits)

lemma set_py_inter [simp, py_simps]: "set (py_inter a b) = set a \<inter> set b"
  by (auto simp: py_inter_def)

lemma distinct_py_inter [simp, py_simps]: "distinct a \<Longrightarrow> distinct (py_inter a b)"
  by (simp add: py_inter_def)

end
