(* ===== verification/Http_Api.thy ===== *)
theory Http_Api
  imports Py_Json
begin

text \<open>
  The interface between the scripts and the outside world. Every \<open>requests.get\<close> and
  \<open>requests.post\<close> of \<open>src/mutualsnoop.py\<close> and \<open>src/dualmutualsnoop.py\<close> becomes a
  \<open>request\<close> value; the service answers through a \<open>server\<close>, a function from requests to
  responses (so two equal requests get equal answers: the graph does not change during a
  run, see the header of Spec2Isabelle). A response is either a transport failure
  (\<open>requests\<close> raised) or a status code with a body that \<open>response.json()\<close> decodes
  (\<open>None\<close>: it raises \<open>JSONDecodeError\<close>). \<open>response.text\<close> is only ever logged and is
  not modelled. What the scripts emit is a list of \<open>event\<close>s: the requests they issue
  and the log records they write, in program order. Log records are kept as structured
  values with the data their format strings interpolate, except the exception text and
  the response text.
\<close>

definition API_URL :: string where
  "API_URL = ''https://bsky.social/xrpc''"

datatype http_method = GET | POST

text \<open>\<open>req_auth\<close> is the \<open>Authorization\<close> header, \<open>Some tok\<close> for
  \<open>f"Bearer {access_token}"\<close>; \<open>req_params\<close> are the query parameters of a GET or the
  JSON body of a POST, in insertion order.\<close>

record request =
  req_method :: http_method
  req_url :: string
  req_auth :: "json option"
  req_params :: "(string \<times> json) list"

datatype response = Transport_Exc | Response nat "json option"

type_synonym server = "request \<Rightarrow> response"

datatype direction = FOLLOWS | FOLLOWERS

fun endpoint :: "direction \<Rightarrow> string" where
  "endpoint FOLLOWS = ''/app.bsky.graph.getFollows''"
| "endpoint FOLLOWERS = ''/app.bsky.graph.getFollowers''"

text \<open>The key under which a page lists its entries: \<open>data.get("follows", [])\<close>.\<close>

fun list_key :: "direction \<Rightarrow> string" where
  "list_key FOLLOWS = ''follows''"
| "list_key FOLLOWERS = ''followers''"

text \<open>The dict built by \<open>fetch_account_details\<close>, and the dict of one result of
  \<open>find_mutual_connections\<close>, which adds the account's identifier.\<close>

record profile =
  handle :: json
  followersCount :: json
  followsCount :: json
  createdAt :: json

record mutual_result = profile +
  did :: json

datatype log_entry =
    Logging_In
  | Login_Successful
  | Login_Failed nat
  | Login_Error py_exc
  | Fetching_Data string json
  | Fetch_Failed direction json nat
  | Fetch_Error direction json py_exc
  | Found_Count string nat
  | Profile_Failed json nat
  | Profile_Error json py_exc
  | Results_Header string
  | Result_Line "mutual_result"

fun is_error :: "log_entry \<Rightarrow> bool" where
  "is_error (Login_Failed _) = True"
| "is_error (Login_Error _) = True"
| "is_error (Fetch_Failed _ _ _) = True"
| "is_error (Fetch_Error _ _ _) = True"
| "is_error (Profile_Failed _ _) = True"
| "is_error (Profile_Error _ _) = True"
| "is_error _ = False"

datatype event = Call request | Log log_entry

text \<open>How a script stops early: \<open>exit(n)\<close>, or an exception no handler catches.\<close>

datatype abort = Exit_Status nat | Uncaught py_exc

type_synonym 'a script = "(abort, event, 'a) run"

definition calls :: "event list \<Rightarrow> request list" where
  "calls evs = [r. Call r \<leftarrow> evs]"

definition error_logged :: "event list \<Rightarrow> bool" where
  "error_logged evs = list_ex (\<lambda>ev. case ev of Log e \<Rightarrow> is_error e | Call _ \<Rightarrow> False) evs"

lemma calls_simps [simp]:
  "calls [] = []"
  "calls (Call r # evs) = r # calls evs"
  "calls (Log e # evs) = calls evs"
  "calls (evs @ evs') = calls evs @ calls evs'"
  by (simp_all add: calls_def)

lemma error_logged_simps [simp]:
  "\<not> error_logged []"
  "error_logged (Call r # evs) = error_logged evs"
  "error_logged (Log e # evs) = (is_error e \<or> error_logged evs)"
  "error_logged (evs @ evs') = (error_logged evs \<or> error_logged evs')"
  by (simp_all add: error_logged_def)

end
