(* ===== verification/Session.thy ===== *)
theory Session
  imports Http_Api
begin

text \<open>
  Session acquisition: \<open>get_access_token\<close> of \<open>src/mutualsnoop.py\<close> (an identical copy
  is in \<open>src/dualmutualsnoop.py\<close>). The Python function stores the token in the module
  global \<open>access_token\<close>, which every later request reads; the model returns it and the
  orchestrator passes it on, which is the same data flow made explicit. A non-200 answer, a
  transport failure and a body that does not decode end the script with \<open>exit(1)\<close>
  (\<open>SystemExit\<close> is not an \<open>Exception\<close>, so the surrounding \<open>except\<close> does not catch
  the \<open>exit\<close> of the \<open>else\<close> branch). A 200 answer whose body lacks \<open>accessJwt\<close> stores
  \<open>None\<close> and the script goes on: the token is then \<open>JNull\<close>.
\<close>

definition USERNAME :: string where
  "USERNAME = ''your_bluesky_username''"

definition PASSWORD :: string where
  "PASSWORD = ''your_bluesky_app_password''"

definition login_request :: request where
  "login_request =
     \<lparr>req_method = POST, req_url = API_URL @ ''/com.atproto.server.createSession'',
      req_auth = None, req_params = [(''identifier'', JStr USERNAME), (''password'', JStr PASSWORD)]\<rparr>"

definition get_access_token :: "server \<Rightarrow> json script" where
  "get_access_token srv =
     (let pre = [Log Logging_In, Call login_request] in
      case srv login_request of
        Transport_Exc \<Rightarrow> Some (Inl (Exit_Status 1), pre @ [Log (Login_Error TransportError)])
      | Response st body \<Rightarrow>
          (if st = 200 then
             (case body of
                None \<Rightarrow> Some (Inl (Exit_Status 1), pre @ [Log (Login_Error JSONDecodeError)])
              | Some data \<Rightarrow>
                  (case py_get data ''accessJwt'' JNull of
                     Inl e \<Rightarrow> Some (Inl (Exit_Status 1), pre @ [Log (Login_Error e)])
                   | Inr tok \<Rightarrow> Some (Inr tok, pre @ [Log Login_Successful])))
           else Some (Inl (Exit_Status 1), pre @ [Log (Login_Failed st)])))"

text \<open>The login either ends the script with status 1 after exactly one request, or returns
  a token; it always returns.\<close>

lemma get_access_token_cases:
  "(\<exists>evs. get_access_token srv = Some (Inl (Exit_Status 1), evs) \<and> calls evs = [login_request]
          \<and> error_logged evs) \<or>
   (\<exists>tok evs. get_access_token srv = Some (Inr tok, evs) \<and> calls evs = [login_request]
          \<and> \<not> error_logged evs)"
  by (auto simp: get_access_token_def Let_def split: response.splits option.splits sum.splits)

lemma get_access_token_fails:
  "(\<forall>kv. srv login_request \<noteq> Response 200 (Some (JObj kv))) \<Longrightarrow>
   \<exists>evs. get_access_token srv = Some (Inl (Exit_Status 1), evs) \<and> calls evs = [login_request]"
  by (cases "srv login_request")
     (auto simp: get_access_token_def Let_def py_get_Inr_iff split: option.splits sum.splits)

lemma get_access_token_ok:
  "srv login_request = Response 200 (Some (JObj kv)) \<Longrightarrow>
   get_access_token srv =
     Some (Inr (dict_get kv ''accessJwt'' JNull), [Log Logging_In, Call login_request, Log Login_Successful])"
  by (simp add: get_access_token_def)

end
