(* ===== verification/Fetcher.thy ===== *)
theory Fetcher
  imports Http_Api
begin

text \<open>
  RelationshipFetcher: \<open>fetch_follows\<close> and \<open>fetch_followers\<close> of
  \<open>src/mutualsnoop.py\<close> (identical copies in \<open>src/dualmutualsnoop.py\<close>). The two Python
  functions differ only in the endpoint and in the key of the page's list, so both are
  \<open>fetch_relationship\<close> at a \<open>direction\<close>. One page request is \<open>get_page\<close>; the
  \<open>while True\<close> loop is \<open>fetch_loop\<close>, with a fuel argument bounding the number of
  requests, since nothing in the code bounds it: the loop ends only when a page has no
  truthy cursor or a request fails. The inductive \<open>walk\<close> is the abstract page stream
  of the specification (the lazy, restartable sequence of pages one traversal is served);
  the lemmas relate the loop to it both ways, so the loop returns exactly when a walk
  exists, after one request per page, with the union of the pages' identifiers.
\<close>

subsection \<open>One page\<close>

text \<open>\<open>params = {"actor": did}; if cursor: params["cursor"] = cursor\<close>.\<close>

definition page_request :: "json \<Rightarrow> direction \<Rightarrow> json \<Rightarrow> json \<Rightarrow> request" where
  "page_request tok d actor cursor =
     \<lparr>req_method = GET, req_url = API_URL @ endpoint d, req_auth = Some tok,
      req_params = [(''actor'', actor)] @ (if truthy cursor then [(''cursor'', cursor)] else [])\<rparr>"

text \<open>The body of the \<open>status_code == 200\<close> branch up to the cursor test:
  \<open>data = response.json()\<close>,
  \<open>follows.extend([item["did"] for item in data.get("follows", [])])\<close>,
  \<open>cursor = data.get("cursor")\<close>. Each step may raise.\<close>

definition read_page :: "direction \<Rightarrow> json option \<Rightarrow> py_exc + (json list \<times> json)" where
  "read_page d body =
     (case body of
        None \<Rightarrow> Inl JSONDecodeError
      | Some data \<Rightarrow>
          (case py_get data (list_key d) (JList []) of
             Inl e \<Rightarrow> Inl e
           | Inr lst \<Rightarrow>
               (case py_iter lst of
                  Inl e \<Rightarrow> Inl e
                | Inr items \<Rightarrow>
                    (case map_sum (\<lambda>item. py_subscript item ''did'') items of
                       Inl e \<Rightarrow> Inl e
                     | Inr ids \<Rightarrow>
                         (case py_get data ''cursor'' JNull of
                            Inl e \<Rightarrow> Inl e
                          | Inr c \<Rightarrow> Inr (ids, c))))))"

datatype page_result = Page_Error log_entry | Page_Ok "json list" json

text \<open>One iteration of the loop up to the cursor test: the page's identifiers and its
  cursor, or the error record the code logs before it leaves the loop (the \<open>else\<close>
  branch on a non-200 status, or the \<open>except\<close> clause).\<close>

definition get_page :: "server \<Rightarrow> json \<Rightarrow> direction \<Rightarrow> json \<Rightarrow> json \<Rightarrow> page_result" where
  "get_page srv tok d actor cursor =
     (case srv (page_request tok d actor cursor) of
        Transport_Exc \<Rightarrow> Page_Error (Fetch_Error d actor TransportError)
      | Response st body \<Rightarrow>
          (if st = 200 then
             (case read_page d body of
                Inl e \<Rightarrow> Page_Error (Fetch_Error d actor e)
              | Inr (ids, c) \<Rightarrow> Page_Ok ids c)
           else Page_Error (Fetch_Failed d actor st)))"

subsection \<open>The loop\<close>

text \<open>\<open>fetch_loop n srv tok d actor acc cursor\<close>: the loop entered with \<open>follows = acc\<close>
  and the given cursor, allowed \<open>n\<close> more requests. It returns the final \<open>follows\<close>
  and the events, or \<open>None\<close> when the fuel runs out before the loop ends.\<close>

fun fetch_loop ::
  "nat \<Rightarrow> server \<Rightarrow> json \<Rightarrow> direction \<Rightarrow> json \<Rightarrow> json list \<Rightarrow> json \<Rightarrow>
   (json list \<times> event list) option" where
  "fetch_loop 0 srv tok d actor acc cursor = None"
| "fetch_loop (Suc n) srv tok d actor acc cursor =
     (let req = Call (page_request tok d actor cursor) in
      case get_page srv tok d actor cursor of
        Page_Error err \<Rightarrow> Some (acc, [req, Log err])
      | Page_Ok ids c \<Rightarrow>
          (if truthy c
           then map_option (\<lambda>(acc', evs). (acc', req # evs))
                  (fetch_loop n srv tok d actor (acc @ ids) c)
           else Some (acc @ ids, [req])))"

text \<open>\<open>return set(follows)\<close> stands after the \<open>try\<close> block: an unhashable identifier
  raises out of the function.\<close>

definition fetch_relationship :: "nat \<Rightarrow> server \<Rightarrow> json \<Rightarrow> direction \<Rightarrow> json \<Rightarrow> json list script" where
  "fetch_relationship n srv tok d actor =
     (case fetch_loop n srv tok d actor [] JNull of
        None \<Rightarrow> None
      | Some (acc, evs) \<Rightarrow>
          (case py_set acc of
             Inl e \<Rightarrow> Some (Inl (Uncaught e), evs)
           | Inr s \<Rightarrow> Some (Inr s, evs)))"

definition fetch_follows :: "nat \<Rightarrow> server \<Rightarrow> json \<Rightarrow> json \<Rightarrow> json list script" where
  "fetch_follows n srv tok actor = fetch_relationship n srv tok FOLLOWS actor"

definition fetch_followers :: "nat \<Rightarrow> server \<Rightarrow> json \<Rightarrow> json \<Rightarrow> json list script" where
  "fetch_followers n srv tok actor = fetch_relationship n srv tok FOLLOWERS actor"

subsection \<open>The page stream\<close>

text \<open>\<open>walk srv tok d actor c ps ok\<close>: starting at cursor \<open>c\<close>, the service serves the
  pages \<open>ps\<close> (each a list of identifiers) and then either a page without a truthy cursor
  (\<open>ok\<close>, the last of \<open>ps\<close>) or a failing request (\<open>\<not> ok\<close>).\<close>

inductive walk :: "server \<Rightarrow> json \<Rightarrow> direction \<Rightarrow> json \<Rightarrow> json \<Rightarrow> json list list \<Rightarrow> bool \<Rightarrow> bool"
  for srv tok d actor where
  walk_last: "get_page srv tok d actor c = Page_Ok ids c' \<Longrightarrow> \<not> truthy c' \<Longrightarrow>
    walk srv tok d actor c [ids] True"
| walk_next: "get_page srv tok d actor c = Page_Ok ids c' \<Longrightarrow> truthy c' \<Longrightarrow>
    walk srv tok d actor c' ps ok \<Longrightarrow> walk srv tok d actor c (ids # ps) ok"
| walk_fail: "get_page srv tok d actor c = Page_Error err \<Longrightarrow>
    walk srv tok d actor c [] False"

inductive_cases walk_elim: "walk srv tok d actor c ps ok"

subsection \<open>Basic facts\<close>

lemma get_page_error_is_error:
  "get_page srv tok d actor c = Page_Error err \<Longrightarrow> is_error err"
  by (auto simp: get_page_def split: response.splits if_splits sum.splits prod.splits)

lemma fetch_loop_Suc_error [simp]:
  "get_page srv tok d actor c = Page_Error err \<Longrightarrow>
   fetch_loop (Suc n) srv tok d actor acc c =
     Some (acc, [Call (page_request tok d actor c), Log err])"
  by simp

lemma fetch_loop_Suc_last [simp]:
  "get_page srv tok d actor c = Page_Ok ids c' \<Longrightarrow> \<not> truthy c' \<Longrightarrow>
   fetch_loop (Suc n) srv tok d actor acc c =
     Some (acc @ ids, [Call (page_request tok d actor c)])"
  by simp

lemma fetch_loop_Suc_next [simp]:
  "get_page srv tok d actor c = Page_Ok ids c' \<Longrightarrow> truthy c' \<Longrightarrow>
   fetch_loop (Suc n) srv tok d actor acc c =
     map_option (\<lambda>(acc', evs). (acc', Call (page_request tok d actor c) # evs))
       (fetch_loop n srv tok d actor (acc @ ids) c')"
  by simp

lemma walk_steps_pos: "walk srv tok d actor c ps ok \<Longrightarrow> 0 < walk_steps ps ok"
  by (induction rule: walk.induct) (auto simp: walk_steps_def)

subsection \<open>The loop against the page stream\<close>

text \<open>A walk of \<open>k\<close> requests is run to its end by any fuel of at least \<open>k\<close>: the
  loop returns the accumulated identifiers followed by every page's identifiers, after one
  request per page, and logs an error exactly when the walk ends in a failing request.\<close>

lemma fetch_loop_walk:
  assumes "walk srv tok d actor c ps ok" and "walk_steps ps ok \<le> n"
  shows "\<exists>evs. fetch_loop n srv tok d actor acc c = Some (acc @ concat ps, evs)
           \<and> length (calls evs) = walk_steps ps ok \<and> error_logged evs = (\<not> ok)"
  using assms
proof (induction arbitrary: n acc rule: walk.induct)
  case (walk_last c ids c')
  then obtain m where "n = Suc m"
    by (cases n) (auto simp: walk_steps_def)
  with walk_last show ?case
    by (simp add: walk_steps_def)
next
  case (walk_next c ids c' ps ok)
  then obtain m where n: "n = Suc m" and m: "walk_steps ps ok \<le> m"
    by (cases n) (auto simp: walk_steps_def)
  from walk_next.IH [OF m, of "acc @ ids"] obtain evs where
    "fetch_loop m srv tok d actor (acc @ ids) c' = Some (acc @ ids @ concat ps, evs)"
    "length (calls evs) = walk_steps ps ok" "error_logged evs = (\<not> ok)"
    by auto
  with n walk_next.hyps(1,2) show ?case
    by (simp add: walk_steps_def)
next
  case (walk_fail c err)
  then obtain m where "n = Suc m"
    by (cases n) (auto simp: walk_steps_def)
  with walk_fail show ?case
    by (simp add: walk_steps_def get_page_error_is_error)
qed

text \<open>Conversely, whenever the loop returns, the service served a walk, and the loop's
  result is made of that walk's pages.\<close>

lemma fetch_loop_complete:
  "fetch_loop n srv tok d actor acc c = Some (r, evs) \<Longrightarrow>
   \<exists>ps ok. walk srv tok d actor c ps ok \<and> r = acc @ concat ps \<and> walk_steps ps ok \<le> n"
proof (induction n arbitrary: acc c r evs)
  case 0
  then show ?case by simp
next
  case (Suc n)
  show ?case
  proof (cases "get_page srv tok d actor c")
    case (Page_Error err)
    with Suc.prems have "r = acc" by simp
    from Page_Error have "walk srv tok d actor c [] False"
      by (rule walk_fail)
    with \<open>r = acc\<close> show ?thesis
      by (intro exI [of _ "[]"] exI [of _ False]) (simp add: walk_steps_def)
  next
    case (Page_Ok ids c')
    show ?thesis
    proof (cases "truthy c'")
      case True
      with Suc.prems Page_Ok obtain evs' where
        "fetch_loop n srv tok d actor (acc @ ids) c' = Some (r, evs')"
        by auto
      from Suc.IH [OF this] obtain ps ok where
        w: "walk srv tok d actor c' ps ok" and "r = (acc @ ids) @ concat ps" "walk_steps ps ok \<le> n"
        by blast
      moreover from Page_Ok True w have "walk srv tok d actor c (ids # ps) ok"
        by (rule walk_next)
      ultimately show ?thesis
        by (intro exI [of _ "ids # ps"] exI [of _ ok]) (simp add: walk_steps_def)
    next
      case False
      with Suc.prems Page_Ok have "r = acc @ ids" by simp
      moreover from Page_Ok False have "walk srv tok d actor c [ids] True"
        by (rule walk_last)
      ultimately show ?thesis
        by (intro exI [of _ "[ids]"] exI [of _ True]) (simp add: walk_steps_def)
    qed
  qed
qed

lemma walk_determ:
  "walk srv tok d actor c ps ok \<Longrightarrow> walk srv tok d actor c ps' ok' \<Longrightarrow> ps' = ps \<and> ok' = ok"
proof (induction arbitrary: ps' ok' rule: walk.induct)
  case (walk_last c ids c')
  from walk_last.prems show ?case
  proof cases
    case (walk_next ids2 c2 ps2)
    with walk_last.hyps show ?thesis by simp
  qed (use walk_last.hyps in simp_all)
next
  case (walk_next c ids c' ps ok)
  from walk_next.prems show ?case
  proof cases
    case (walk_next ids2 c2 ps2)
    with walk_next.hyps(1) have "ids2 = ids" "c2 = c'" by simp_all
    with walk_next.IH \<open>walk srv tok d actor c2 ps2 ok'\<close> \<open>ps' = ids2 # ps2\<close> show ?thesis
      by blast
  qed (use walk_next.hyps in simp_all)
next
  case (walk_fail c err)
  from walk_fail.prems show ?case
    by cases (use walk_fail.hyps in simp_all)
qed

lemma fetch_loop_mono:
  "fetch_loop n srv tok d actor acc c = Some r \<Longrightarrow> n \<le> m \<Longrightarrow>
   fetch_loop m srv tok d actor acc c = Some r"
proof (induction n arbitrary: m acc c r)
  case 0
  then show ?case by simp
next
  case (Suc n)
  then obtain m' where m: "m = Suc m'" and "n \<le> m'"
    by (cases m) auto
  show ?case
  proof (cases "get_page srv tok d actor c")
    case (Page_Error err)
    with Suc.prems m show ?thesis by simp
  next
    case (Page_Ok ids c')
    show ?thesis
    proof (cases "truthy c'")
      case True
      with Suc.prems(1) Page_Ok obtain r' where
        r': "fetch_loop n srv tok d actor (acc @ ids) c' = Some r'"
        and r: "r = (\<lambda>(acc', evs). (acc', Call (page_request tok d actor c) # evs)) r'"
        by auto
      from Suc.IH [OF r' \<open>n \<le> m'\<close>] r m Page_Ok True show ?thesis
        by simp
    next
      case False
      with Suc.prems m Page_Ok show ?thesis by simp
    qed
  qed
qed

subsection \<open>Fetches against the page stream\<close>

text \<open>The value \<open>fetch_relationship\<close> returns for the final \<open>follows\<close> list.\<close>

definition set_result :: "json list \<Rightarrow> abort + json list" where
  "set_result acc = (case py_set acc of Inl e \<Rightarrow> Inl (Uncaught e) | Inr s \<Rightarrow> Inr s)"

lemma fetch_relationship_eq:
  "fetch_relationship n srv tok d actor =
     map_option (\<lambda>(acc, evs). (set_result acc, evs)) (fetch_loop n srv tok d actor [] JNull)"
  by (auto simp: fetch_relationship_def set_result_def split: option.splits sum.splits)

lemma fetch_relationship_walk:
  assumes "walk srv tok d actor JNull ps ok" and "walk_steps ps ok \<le> n"
  shows "\<exists>evs. fetch_relationship n srv tok d actor = Some (set_result (concat ps), evs)
           \<and> length (calls evs) = walk_steps ps ok \<and> error_logged evs = (\<not> ok)"
proof -
  from fetch_loop_walk [OF assms, of "[]"] obtain evs where
    "fetch_loop n srv tok d actor [] JNull = Some (concat ps, evs)"
    "length (calls evs) = walk_steps ps ok" "error_logged evs = (\<not> ok)"
    by auto
  then show ?thesis by (simp add: fetch_relationship_eq)
qed

lemma fetch_relationship_complete:
  "fetch_relationship n srv tok d actor = Some (r, evs) \<Longrightarrow>
   \<exists>ps ok. walk srv tok d actor JNull ps ok \<and> walk_steps ps ok \<le> n \<and> r = set_result (concat ps)"
  using fetch_loop_complete [of n srv tok d actor "[]" JNull]
  by (fastforce simp: fetch_relationship_eq)

lemma set_result_Inr_iff:
  "set_result acc = Inr ys \<longleftrightarrow> list_all hashable acc \<and> ys = dedup acc"
  by (auto simp: set_result_def py_set_def)

lemma set_result_hashable [simp]: "list_all hashable acc \<Longrightarrow> set_result acc = Inr (dedup acc)"
  by (simp add: set_result_Inr_iff)

text \<open>C2 (termination and refinement of the page loop). When the service serves the pages
  \<open>ps\<close> and the last of them has no cursor, a fetch with at least \<open>length ps\<close> fuel
  returns: the set of identifiers is the union of the pages, without repetition, the
  service was called exactly once per page, and no error was logged.\<close>

theorem fetch_relationship_exhausted:
  assumes "walk srv tok d actor JNull ps True" and "length ps \<le> n"
    and "list_all hashable (concat ps)"
  shows "\<exists>ys evs. fetch_relationship n srv tok d actor = Some (Inr ys, evs)
           \<and> set ys = (\<Union>p \<in> set ps. set p) \<and> distinct ys
           \<and> length (calls evs) = length ps \<and> \<not> error_logged evs"
proof -
  from fetch_relationship_walk [OF assms(1), of n] assms(2) obtain evs where
    "fetch_relationship n srv tok d actor = Some (set_result (concat ps), evs)"
    "length (calls evs) = length ps" "\<not> error_logged evs"
    by (auto simp: walk_steps_def)
  with assms(3) show ?thesis by auto
qed

text \<open>C3 (degraded pagination). When the request after the pages \<open>ps\<close> fails, the fetch
  returns the union of the identifiers of the pages before the failing one, raises
  nothing, and an error is logged.\<close>

theorem fetch_relationship_degraded:
  assumes "walk srv tok d actor JNull ps False" and "length ps < n"
    and "list_all hashable (concat ps)"
  shows "\<exists>ys evs. fetch_relationship n srv tok d actor = Some (Inr ys, evs)
           \<and> set ys = (\<Union>p \<in> set ps. set p) \<and> error_logged evs"
proof -
  from fetch_relationship_walk [OF assms(1), of n] assms(2) obtain evs where
    "fetch_relationship n srv tok d actor = Some (set_result (concat ps), evs)"
    "error_logged evs"
    by (auto simp: walk_steps_def)
  with assms(3) show ?thesis by auto
qed

text \<open>C4 (the loop ends exactly on finite page streams). A fetch with fuel \<open>n\<close> returns
  if and only if the service serves, from the first request, a walk that ends (by exhaustion
  or by a failure) within \<open>n\<close> requests.\<close>

theorem fetch_relationship_returns_iff:
  "(\<exists>r. fetch_relationship n srv tok d actor = Some r) \<longleftrightarrow>
   (\<exists>ps ok. walk srv tok d actor JNull ps ok \<and> walk_steps ps ok \<le> n)"
  using fetch_relationship_complete fetch_relationship_walk by fastforce

text \<open>The fuel bound is not observable. A fetch that returns with some fuel returns
  the same result and the same events with any larger fuel.\<close>

theorem fetch_relationship_fuel_mono:
  "fetch_relationship n srv tok d actor = Some r \<Longrightarrow> n \<le> m \<Longrightarrow>
   fetch_relationship m srv tok d actor = Some r"
  by (auto simp: fetch_relationship_eq dest: fetch_loop_mono)

lemma no_walk_if_never_exhausted:
  assumes "\<forall>c. \<exists>ids c'. get_page srv tok d actor c = Page_Ok ids c' \<and> truthy c'"
  shows "\<not> walk srv tok d actor c ps ok"
proof
  assume "walk srv tok d actor c ps ok"
  then show False
  proof (induction rule: walk.induct)
    case (walk_last c ids c')
    from assms obtain ids2 c2 where "get_page srv tok d actor c = Page_Ok ids2 c2" "truthy c2"
      by blast
    with walk_last show False by simp
  next
    case (walk_next c ids c' ps ok)
    then show False by simp
  next
    case (walk_fail c err)
    from assms obtain ids2 c2 where "get_page srv tok d actor c = Page_Ok ids2 c2"
      by blast
    with walk_fail show False by simp
  qed
qed

text \<open>C10 (no guard against cursor cycles). If the service answers every request with a
  page carrying a truthy cursor, the fetch never returns, whatever the fuel.\<close>

theorem fetch_relationship_diverges:
  assumes "\<forall>c. \<exists>ids c'. get_page srv tok d actor c = Page_Ok ids c' \<and> truthy c'"
  shows "fetch_relationship n srv tok d actor = None"
  using fetch_relationship_complete no_walk_if_never_exhausted [OF assms]
  by (metis not_None_eq surj_pair)

text \<open>C11 (\<open>set(follows)\<close> is outside the \<open>try\<close>). If a page served lists an
  identifier that is a JSON list or object, the fetch raises \<open>TypeError\<close> to its caller.\<close>

theorem fetch_relationship_unhashable:
  assumes "walk srv tok d actor JNull ps ok" and "walk_steps ps ok \<le> n"
    and "\<not> list_all hashable (concat ps)"
  shows "\<exists>evs. fetch_relationship n srv tok d actor = Some (Inl (Uncaught TypeError), evs)"
  using fetch_relationship_walk [OF assms(1,2)] assms(3)
  by (auto simp: set_result_def py_set_def)

subsection \<open>The page format\<close>

text \<open>A page as the API contract describes it: the entries under the direction's key, each
  an object with a \<open>did\<close>, and the cursor.\<close>

definition page_body :: "direction \<Rightarrow> json list \<Rightarrow> json \<Rightarrow> json" where
  "page_body d ids c = JObj [(list_key d, JList (map (\<lambda>x. JObj [(''did'', x)]) ids)), (''cursor'', c)]"

lemma list_key_not_cursor [simp]: "list_key d \<noteq> ''cursor''"
  by (cases d) simp_all

text \<open>Decoding a well-formed page gives back exactly its identifiers, in order, and its
  cursor.\<close>

lemma read_page_page_body: "read_page d (Some (page_body d ids c)) = Inr (ids, c)"
proof -
  have "map_sum (\<lambda>item. py_subscript item ''did'') (map (\<lambda>x. JObj [(''did'', x)]) ids) = Inr ids"
    by (induction ids) (simp_all add: dict_lookup_def)
  then show ?thesis
    by (simp add: read_page_def page_body_def dict_get_def dict_lookup_def)
qed

text \<open>C13 (page round trip). When the service answers a page request with a well-formed
  page, one iteration of the loop yields exactly that page's identifiers, in order, and
  its cursor.\<close>

theorem get_page_page_body:
  "srv (page_request tok d actor c0) = Response 200 (Some (page_body d ids c)) \<Longrightarrow>
   get_page srv tok d actor c0 = Page_Ok ids c"
  by (simp add: get_page_def read_page_page_body)

end
