(* ===== verification/Enricher.thy ===== *)
theory Enricher
  imports Http_Api "HOL-Library.Multiset"
begin

text \<open>
  ProfileEnricher: \<open>fetch_account_details\<close> of \<open>src/mutualsnoop.py\<close> (an identical copy
  is in \<open>src/dualmutualsnoop.py\<close>) and the loop of \<open>find_mutual_connections\<close> and
  \<open>find_common_accounts\<close> that calls it once per surviving identifier and keeps the
  successes (\<open>enrich_all\<close>). A failed lookup is logged and yields \<open>None\<close>; nothing
  escapes the function. The lemmas show that each identifier is looked up exactly once, in
  iteration order; that the output holds exactly the successful identifiers, each with its
  own profile; that a failure drops only the identifier concerned; and that the output, as a
  multiset, does not depend on the order in which the identifiers are visited.
\<close>

subsection \<open>One profile\<close>

definition profile_request :: "json \<Rightarrow> json \<Rightarrow> request" where
  "profile_request tok actor =
     \<lparr>req_method = GET, req_url = API_URL @ ''/app.bsky.actor.getProfile'',
      req_auth = Some tok, req_params = [(''actor'', actor)]\<rparr>"

text \<open>\<open>data = response.json()\<close> and the four \<open>data.get(...)\<close> of the returned dict; the
  first \<open>get\<close> raises \<open>AttributeError\<close> when the body is not an object.\<close>

definition read_profile :: "json option \<Rightarrow> py_exc + profile" where
  "read_profile body =
     (case body of
        None \<Rightarrow> Inl JSONDecodeError
      | Some data \<Rightarrow>
          (case py_get data ''handle'' JNull of
             Inl e \<Rightarrow> Inl e
           | Inr h \<Rightarrow>
               (case py_get data ''followersCount'' JNull of
                  Inl e \<Rightarrow> Inl e
                | Inr fr \<Rightarrow>
                    (case py_get data ''followsCount'' JNull of
                       Inl e \<Rightarrow> Inl e
                     | Inr fo \<Rightarrow>
                         (case py_get data ''createdAt'' JNull of
                            Inl e \<Rightarrow> Inl e
                          | Inr ca \<Rightarrow>
                              Inr \<lparr>handle = h, followersCount = fr, followsCount = fo,
                                   createdAt = ca\<rparr>)))))"

definition fetch_account_details :: "server \<Rightarrow> json \<Rightarrow> json \<Rightarrow> profile option \<times> event list" where
  "fetch_account_details srv tok actor =
     (let req = profile_request tok actor in
      case srv req of
        Transport_Exc \<Rightarrow> (None, [Call req, Log (Profile_Error actor TransportError)])
      | Response st body \<Rightarrow>
          (if st = 200 then
             (case read_profile body of
                Inl e \<Rightarrow> (None, [Call req, Log (Profile_Error actor e)])
              | Inr p \<Rightarrow> (Some p, [Call req]))
           else (None, [Call req, Log (Profile_Failed actor st)])))"

subsection \<open>The fan-out\<close>

text \<open>The dict appended for one account: its identifier and the four profile fields.\<close>

definition mk_result :: "json \<Rightarrow> profile \<Rightarrow> mutual_result" where
  "mk_result account p =
     \<lparr>handle = handle p, followersCount = followersCount p, followsCount = followsCount p,
      createdAt = createdAt p, did = account\<rparr>"

text \<open>\<open>for account in ...: details = fetch_account_details(account); if details:
  detailed_results.append(...)\<close>. A returned dict has four keys, so \<open>if details\<close> holds
  exactly when the lookup succeeded.\<close>

fun enrich_all :: "server \<Rightarrow> json \<Rightarrow> json list \<Rightarrow> mutual_result list \<times> event list" where
  "enrich_all srv tok [] = ([], [])"
| "enrich_all srv tok (account # rest) =
     (let (details, evs) = fetch_account_details srv tok account;
          (results, evs') = enrich_all srv tok rest
      in ((case details of None \<Rightarrow> [] | Some p \<Rightarrow> [mk_result account p]) @ results, evs @ evs'))"

subsection \<open>Lemmas\<close>

definition enrich_one :: "server \<Rightarrow> json \<Rightarrow> json \<Rightarrow> mutual_result list" where
  "enrich_one srv tok x = (case fst (fetch_account_details srv tok x) of None \<Rightarrow> [] | Some p \<Rightarrow> [mk_result x p])"

lemma enrich_all_results:
  "fst (enrich_all srv tok xs) = concat (map (enrich_one srv tok) xs)"
  by (induction xs) (simp_all add: enrich_one_def split_def Let_def)

lemma calls_fetch_account_details [simp]:
  "calls (snd (fetch_account_details srv tok x)) = [profile_request tok x]"
  by (simp add: fetch_account_details_def Let_def split: response.splits sum.splits)

lemma error_logged_fetch_account_details [simp]:
  "error_logged (snd (fetch_account_details srv tok x)) \<longleftrightarrow> fst (fetch_account_details srv tok x) = None"
  by (simp add: fetch_account_details_def Let_def split: response.splits sum.splits)

lemma did_mk_result [simp]: "did (mk_result x p) = x"
  by (simp add: mk_result_def)

lemma mk_result_inject [simp]: "mk_result x p = mk_result y q \<longleftrightarrow> x = y \<and> p = q"
  by (auto simp: mk_result_def)

lemma set_enrich_all:
  "set (fst (enrich_all srv tok xs)) =
     {mk_result x p | x p. x \<in> set xs \<and> fst (fetch_account_details srv tok x) = Some p}"
  by (auto simp: enrich_all_results enrich_one_def split: option.splits)

lemma profile_request_inject [simp]:
  "profile_request tok x = profile_request tok' y \<longleftrightarrow> tok = tok' \<and> x = y"
  by (simp add: profile_request_def)

lemma fetch_account_details_local:
  "srv' (profile_request tok x) = srv (profile_request tok x) \<Longrightarrow>
   fetch_account_details srv' tok x = fetch_account_details srv tok x"
  by (simp add: fetch_account_details_def)

text \<open>The fan-out issues exactly one profile request per identifier, in iteration order.\<close>

lemma calls_enrich_all:
  "calls (snd (enrich_all srv tok xs)) = map (profile_request tok) xs"
  by (induction xs) (simp_all add: split_def Let_def)

lemma enrich_one_drop:
  assumes "fst (fetch_account_details srv' tok x) = None"
    and "\<forall>req. req \<noteq> profile_request tok x \<longrightarrow> srv' req = srv req"
  shows "enrich_one srv' tok y = filter (\<lambda>r. did r \<noteq> x) (enrich_one srv tok y)"
proof (cases "y = x")
  case True
  with assms(1) show ?thesis
    by (simp add: enrich_one_def split: option.splits)
next
  case False
  with assms(2) have "fetch_account_details srv' tok y = fetch_account_details srv tok y"
    by (intro fetch_account_details_local) simp
  with False show ?thesis
    by (simp add: enrich_one_def split: option.splits)
qed


text \<open>C7 (enrichment drop). If the profile lookup of \<open>x\<close> fails under a service that
  answers every other request as \<open>srv\<close> does, the output is the output under \<open>srv\<close>
  with \<open>x\<close>'s record removed: \<open>x\<close> is absent and every other identifier's record is
  unchanged and in the same place.\<close>

theorem enrich_all_drop:
  assumes "fst (fetch_account_details srv' tok x) = None"
    and "\<forall>req. req \<noteq> profile_request tok x \<longrightarrow> srv' req = srv req"
  shows "fst (enrich_all srv' tok xs) = filter (\<lambda>r. did r \<noteq> x) (fst (enrich_all srv tok xs))"
proof -
  have "enrich_one srv' tok = filter (\<lambda>r. did r \<noteq> x) \<circ> enrich_one srv tok"
    using enrich_one_drop [OF assms] by (simp add: fun_eq_iff)
  then show ?thesis
    by (simp add: enrich_all_results filter_concat)
qed

text \<open>C8 (order independence of the fan-out). Visiting the same identifiers in another
  order yields the same results, counted with multiplicity.\<close>

theorem enrich_all_perm:
  "mset xs = mset ys \<Longrightarrow>
   mset (fst (enrich_all srv tok xs)) = mset (fst (enrich_all srv tok ys))"
  by (simp add: enrich_all_results mset_concat) (metis mset_map sum_mset_sum_list)

end
