(* ===== verification/Orchestrator.thy ===== *)
theory Orchestrator
  imports Session Fetcher Enricher
begin

text \<open>
  Orchestrator and SetIntersector: \<open>find_mutual_connections\<close> and \<open>main\<close> of
  \<open>src/mutualsnoop.py\<close> (single target), \<open>find_common_accounts\<close> and \<open>main\<close> of
  \<open>src/dualmutualsnoop.py\<close> (two targets). Each composes the login, two or four fetches,
  the set intersection \<open>&\<close> (\<open>py_inter\<close>) and the enrichment fan-out, sequentially and
  in the order of the source, with \<open>bind_run\<close>: a fetch that raises stops the function,
  a login that fails ends the script. The two \<open>main\<close> functions hard-code the target
  identifiers; \<open>mutualsnoop_run\<close> and \<open>dualmutualsnoop_run\<close> are the same bodies with
  the targets as parameters.
\<close>

subsection \<open>Single target\<close>

definition find_mutual_connections :: "nat \<Rightarrow> server \<Rightarrow> json \<Rightarrow> json \<Rightarrow> mutual_result list script" where
  "find_mutual_connections n srv tok d =
     bind_run (emit [Log (Fetching_Data ''DID'' d)]) (\<lambda>_.
     bind_run (fetch_follows n srv tok d) (\<lambda>follows.
     bind_run (fetch_followers n srv tok d) (\<lambda>followers.
     (let mutual_connections = py_inter follows followers in
      bind_run (emit [Log (Found_Count ''mutual connections'' (length mutual_connections))]) (\<lambda>_.
      lift_run (enrich_all srv tok mutual_connections))))))"

definition mutualsnoop_run :: "nat \<Rightarrow> server \<Rightarrow> string \<Rightarrow> unit script" where
  "mutualsnoop_run n srv target =
     bind_run (get_access_token srv) (\<lambda>tok.
     bind_run (find_mutual_connections n srv tok (JStr target)) (\<lambda>results.
     emit (Log (Results_Header ''Mutual connections:'') # map (\<lambda>r. Log (Result_Line r)) results)))"

definition mutualsnoop_main :: "nat \<Rightarrow> server \<Rightarrow> unit script" where
  "mutualsnoop_main n srv = mutualsnoop_run n srv ''did:plc:example''"

text \<open>The result records a run prints, in order.\<close>

definition printed_results :: "event list \<Rightarrow> mutual_result list" where
  "printed_results evs = [r. Log (Result_Line r) \<leftarrow> evs]"

subsection \<open>Two targets\<close>

definition find_common_accounts ::
  "nat \<Rightarrow> server \<Rightarrow> json \<Rightarrow> json \<Rightarrow> json \<Rightarrow> mutual_result list script" where
  "find_common_accounts n srv tok d1 d2 =
     bind_run (emit [Log (Fetching_Data ''DID1'' d1)]) (\<lambda>_.
     bind_run (fetch_follows n srv tok d1) (\<lambda>follows1.
     bind_run (fetch_followers n srv tok d1) (\<lambda>followers1.
     bind_run (emit [Log (Fetching_Data ''DID2'' d2)]) (\<lambda>_.
     bind_run (fetch_follows n srv tok d2) (\<lambda>follows2.
     bind_run (fetch_followers n srv tok d2) (\<lambda>followers2.
     (let mutual_accounts = py_inter (py_inter follows1 followers1) (py_inter follows2 followers2) in
      bind_run (emit [Log (Found_Count ''common accounts'' (length mutual_accounts))]) (\<lambda>_.
      lift_run (enrich_all srv tok mutual_accounts)))))))))"

definition dualmutualsnoop_run :: "nat \<Rightarrow> server \<Rightarrow> string \<Rightarrow> string \<Rightarrow> unit script" where
  "dualmutualsnoop_run n srv target1 target2 =
     bind_run (get_access_token srv) (\<lambda>tok.
     bind_run (find_common_accounts n srv tok (JStr target1) (JStr target2)) (\<lambda>results.
     emit (Log (Results_Header ''Common accounts:'') # map (\<lambda>r. Log (Result_Line r)) results)))"

definition dualmutualsnoop_main :: "nat \<Rightarrow> server \<Rightarrow> unit script" where
  "dualmutualsnoop_main n srv = dualmutualsnoop_run n srv ''did:plc:example1'' ''did:plc:example2''"

subsection \<open>Shared lemmas\<close>

lemma fetch_relationship_ok:
  assumes "walk srv tok dir d JNull ps ok" and "walk_steps ps ok \<le> n"
    and "list_all hashable (concat ps)"
  shows "\<exists>evs. fetch_relationship n srv tok dir d = Some (Inr (dedup (concat ps)), evs)
           \<and> length (calls evs) = walk_steps ps ok"
  using fetch_relationship_walk [OF assms(1,2)] assms(3) by auto

lemma did_in_enrich_all:
  "r \<in> set (fst (enrich_all srv tok xs)) \<Longrightarrow> did r \<in> set xs"
  by (auto simp: set_enrich_all)

lemma distinct_enrich_all:
  "distinct xs \<Longrightarrow> distinct (fst (enrich_all srv tok xs))"
proof (induction xs)
  case Nil
  then show ?case by simp
next
  case (Cons x xs)
  from Cons.prems have "x \<notin> set xs" by simp
  then have "\<forall>p. mk_result x p \<notin> set (fst (enrich_all srv tok xs))"
    by (metis did_in_enrich_all did_mk_result)
  with Cons show ?case
    by (auto simp: Let_def split_def split: option.splits)
qed

lemma length_calls_enrich_all:
  "distinct xs \<Longrightarrow> length (calls (snd (enrich_all srv tok xs))) = card (set xs)"
  by (simp add: calls_enrich_all distinct_card)

lemmas orchestrator_unfold =
  find_mutual_connections_def find_common_accounts_def fetch_follows_def fetch_followers_def
  emit_def Let_def lift_run_def

subsection \<open>Runs of the two functions\<close>

lemma find_mutual_connections_run:
  assumes "fetch_follows n srv tok d = Some (Inr F, e1)"
    and "fetch_followers n srv tok d = Some (Inr R, e2)"
  shows "find_mutual_connections n srv tok d =
    Some (Inr (fst (enrich_all srv tok (py_inter F R))),
      [Log (Fetching_Data ''DID'' d)] @ e1 @ e2 @
      [Log (Found_Count ''mutual connections'' (length (py_inter F R)))] @
      snd (enrich_all srv tok (py_inter F R)))"
  using assms by (simp add: find_mutual_connections_def emit_def lift_run_def Let_def)

lemma find_common_accounts_run:
  assumes "fetch_follows n srv tok d1 = Some (Inr F1, e1)"
    and "fetch_followers n srv tok d1 = Some (Inr R1, e2)"
    and "fetch_follows n srv tok d2 = Some (Inr F2, e3)"
    and "fetch_followers n srv tok d2 = Some (Inr R2, e4)"
  shows "find_common_accounts n srv tok d1 d2 =
    Some (Inr (fst (enrich_all srv tok (py_inter (py_inter F1 R1) (py_inter F2 R2)))),
      [Log (Fetching_Data ''DID1'' d1)] @ e1 @ e2 @ [Log (Fetching_Data ''DID2'' d2)] @ e3 @ e4 @
      [Log (Found_Count ''common accounts'' (length (py_inter (py_inter F1 R1) (py_inter F2 R2))))] @
      snd (enrich_all srv tok (py_inter (py_inter F1 R1) (py_inter F2 R2))))"
  using assms by (simp add: find_common_accounts_def emit_def lift_run_def Let_def)

lemma find_common_accounts_walks:
  assumes "walk srv tok FOLLOWS d1 JNull psF1 okF1" "walk_steps psF1 okF1 \<le> n"
    and "walk srv tok FOLLOWERS d1 JNull psR1 okR1" "walk_steps psR1 okR1 \<le> n"
    and "walk srv tok FOLLOWS d2 JNull psF2 okF2" "walk_steps psF2 okF2 \<le> n"
    and "walk srv tok FOLLOWERS d2 JNull psR2 okR2" "walk_steps psR2 okR2 \<le> n"
    and "list_all hashable (concat psF1)" "list_all hashable (concat psR1)"
    and "list_all hashable (concat psF2)" "list_all hashable (concat psR2)"
  shows "\<exists>rs evs. find_common_accounts n srv tok d1 d2 = Some (Inr rs, evs)
     \<and> set rs = {mk_result x p | x p.
          x \<in> set (concat psF1) \<inter> set (concat psR1) \<inter> set (concat psF2) \<inter> set (concat psR2)
          \<and> fst (fetch_account_details srv tok x) = Some p}
     \<and> distinct rs
     \<and> length (calls evs) = walk_steps psF1 okF1 + walk_steps psR1 okR1
          + walk_steps psF2 okF2 + walk_steps psR2 okR2
          + card (set (concat psF1) \<inter> set (concat psR1) \<inter> set (concat psF2) \<inter> set (concat psR2))"
proof -
  from fetch_relationship_ok [OF assms(1,2,9)] obtain e1 where
    F1: "fetch_follows n srv tok d1 = Some (Inr (dedup (concat psF1)), e1)"
        "length (calls e1) = walk_steps psF1 okF1" by (auto simp: fetch_follows_def)
  from fetch_relationship_ok [OF assms(3,4,10)] obtain e2 where
    R1: "fetch_followers n srv tok d1 = Some (Inr (dedup (concat psR1)), e2)"
        "length (calls e2) = walk_steps psR1 okR1" by (auto simp: fetch_followers_def)
  from fetch_relationship_ok [OF assms(5,6,11)] obtain e3 where
    F2: "fetch_follows n srv tok d2 = Some (Inr (dedup (concat psF2)), e3)"
        "length (calls e3) = walk_steps psF2 okF2" by (auto simp: fetch_follows_def)
  from fetch_relationship_ok [OF assms(7,8,12)] obtain e4 where
    R2: "fetch_followers n srv tok d2 = Some (Inr (dedup (concat psR2)), e4)"
        "length (calls e4) = walk_steps psR2 okR2" by (auto simp: fetch_followers_def)
  define M where "M = py_inter (py_inter (dedup (concat psF1)) (dedup (concat psR1)))
                               (py_inter (dedup (concat psF2)) (dedup (concat psR2)))"
  have M: "distinct M"
    "set M = set (concat psF1) \<inter> set (concat psR1) \<inter> set (concat psF2) \<inter> set (concat psR2)"
    by (auto simp: M_def)
  from find_common_accounts_run [OF F1(1) R1(1) F2(1) R2(1)] M F1(2) R1(2) F2(2) R2(2) show ?thesis
    by (auto simp: M_def [symmetric] set_enrich_all distinct_enrich_all length_calls_enrich_all)
qed

subsection \<open>Properties\<close>

text \<open>C1 (single-target result). When both walks of the target end within the fuel and
  their identifiers are hashable, \<open>find_mutual_connections\<close> returns, without
  repetition, exactly one record for each identifier that is in both the follows pages
  and the followers pages and whose profile lookup succeeds, holding that profile; it
  issues one request per page of each walk and one profile request per mutual
  identifier.\<close>

theorem find_mutual_connections_correct:
  assumes "walk srv tok FOLLOWS d JNull psF okF" and "walk_steps psF okF \<le> n"
    and "walk srv tok FOLLOWERS d JNull psR okR" and "walk_steps psR okR \<le> n"
    and "list_all hashable (concat psF)" and "list_all hashable (concat psR)"
  shows "\<exists>rs evs. find_mutual_connections n srv tok d = Some (Inr rs, evs)
     \<and> set rs = {mk_result x p | x p. x \<in> set (concat psF) \<and> x \<in> set (concat psR)
                                    \<and> fst (fetch_account_details srv tok x) = Some p}
     \<and> distinct rs
     \<and> length (calls evs) = walk_steps psF okF + walk_steps psR okR
                            + card (set (concat psF) \<inter> set (concat psR))"
proof -
  from fetch_relationship_ok [OF assms(1,2,5)] obtain evF where
    F: "fetch_relationship n srv tok FOLLOWS d = Some (Inr (dedup (concat psF)), evF)"
       "length (calls evF) = walk_steps psF okF" by blast
  from fetch_relationship_ok [OF assms(3,4,6)] obtain evR where
    R: "fetch_relationship n srv tok FOLLOWERS d = Some (Inr (dedup (concat psR)), evR)"
       "length (calls evR) = walk_steps psR okR" by blast
  define M where "M = py_inter (dedup (concat psF)) (dedup (concat psR))"
  have M: "distinct M" "set M = set (concat psF) \<inter> set (concat psR)"
    by (simp_all add: M_def)
  have "find_mutual_connections n srv tok d =
          Some (Inr (fst (enrich_all srv tok M)),
                [Log (Fetching_Data ''DID'' d)] @ evF @ evR @
                [Log (Found_Count ''mutual connections'' (length M))] @ snd (enrich_all srv tok M))"
    unfolding M_def
    by (rule find_mutual_connections_run) (simp_all add: fetch_follows_def fetch_followers_def F R)
  moreover have "set (fst (enrich_all srv tok M)) =
      {mk_result x p | x p. x \<in> set (concat psF) \<and> x \<in> set (concat psR)
                            \<and> fst (fetch_account_details srv tok x) = Some p}"
    using M by (auto simp: set_enrich_all)
  moreover have "distinct (fst (enrich_all srv tok M))"
    using M by (simp add: distinct_enrich_all)
  moreover have "length (calls (snd (enrich_all srv tok M))) = card (set (concat psF) \<inter> set (concat psR))"
    using M by (simp add: length_calls_enrich_all)
  ultimately show ?thesis
    using F R by auto
qed

text \<open>C5 (dual target is the intersection of single targets). Under the same conditions
  for both targets, the records of \<open>find_common_accounts d1 d2\<close> are exactly those that
  \<open>find_mutual_connections\<close> returns for both \<open>d1\<close> and \<open>d2\<close>.\<close>

theorem find_common_accounts_inter:
  assumes "walk srv tok FOLLOWS d1 JNull psF1 okF1" "walk_steps psF1 okF1 \<le> n"
    and "walk srv tok FOLLOWERS d1 JNull psR1 okR1" "walk_steps psR1 okR1 \<le> n"
    and "walk srv tok FOLLOWS d2 JNull psF2 okF2" "walk_steps psF2 okF2 \<le> n"
    and "walk srv tok FOLLOWERS d2 JNull psR2 okR2" "walk_steps psR2 okR2 \<le> n"
    and "list_all hashable (concat psF1)" "list_all hashable (concat psR1)"
    and "list_all hashable (concat psF2)" "list_all hashable (concat psR2)"
  shows "\<exists>rs rs1 rs2 evs evs1 evs2.
     find_common_accounts n srv tok d1 d2 = Some (Inr rs, evs)
     \<and> find_mutual_connections n srv tok d1 = Some (Inr rs1, evs1)
     \<and> find_mutual_connections n srv tok d2 = Some (Inr rs2, evs2)
     \<and> set rs = set rs1 \<inter> set rs2"
proof -
  from fetch_relationship_ok [OF assms(1,2,9)] obtain e1 where
    F1: "fetch_follows n srv tok d1 = Some (Inr (dedup (concat psF1)), e1)"
    by (auto simp: fetch_follows_def)
  from fetch_relationship_ok [OF assms(3,4,10)] obtain e2 where
    R1: "fetch_followers n srv tok d1 = Some (Inr (dedup (concat psR1)), e2)"
    by (auto simp: fetch_followers_def)
  from fetch_relationship_ok [OF assms(5,6,11)] obtain e3 where
    F2: "fetch_follows n srv tok d2 = Some (Inr (dedup (concat psF2)), e3)"
    by (auto simp: fetch_follows_def)
  from fetch_relationship_ok [OF assms(7,8,12)] obtain e4 where
    R2: "fetch_followers n srv tok d2 = Some (Inr (dedup (concat psR2)), e4)"
    by (auto simp: fetch_followers_def)
  have "set (fst (enrich_all srv tok (py_inter (py_inter A B) (py_inter C D)))) =
        set (fst (enrich_all srv tok (py_inter A B))) \<inter> set (fst (enrich_all srv tok (py_inter C D)))"
    for A B C D
    by (auto simp: set_enrich_all)
  with find_common_accounts_run [OF F1 R1 F2 R2] find_mutual_connections_run [OF F1 R1]
       find_mutual_connections_run [OF F2 R2]
  show ?thesis by simp
qed

text \<open>C6 (dual target is symmetric). Swapping the two targets yields the same records,
  with the same multiplicities.\<close>

theorem find_common_accounts_symmetric:
  assumes "walk srv tok FOLLOWS d1 JNull psF1 okF1" "walk_steps psF1 okF1 \<le> n"
    and "walk srv tok FOLLOWERS d1 JNull psR1 okR1" "walk_steps psR1 okR1 \<le> n"
    and "walk srv tok FOLLOWS d2 JNull psF2 okF2" "walk_steps psF2 okF2 \<le> n"
    and "walk srv tok FOLLOWERS d2 JNull psR2 okR2" "walk_steps psR2 okR2 \<le> n"
    and "list_all hashable (concat psF1)" "list_all hashable (concat psR1)"
    and "list_all hashable (concat psF2)" "list_all hashable (concat psR2)"
  shows "\<exists>rs1 rs2 evs1 evs2. find_common_accounts n srv tok d1 d2 = Some (Inr rs1, evs1)
     \<and> find_common_accounts n srv tok d2 d1 = Some (Inr rs2, evs2) \<and> mset rs1 = mset rs2"
proof -
  from find_common_accounts_walks [OF assms] obtain rs1 evs1 where
    1: "find_common_accounts n srv tok d1 d2 = Some (Inr rs1, evs1)" "distinct rs1"
       "set rs1 = {mk_result x p | x p.
          x \<in> set (concat psF1) \<inter> set (concat psR1) \<inter> set (concat psF2) \<inter> set (concat psR2)
          \<and> fst (fetch_account_details srv tok x) = Some p}"
    by blast
  from find_common_accounts_walks [OF assms(5-8,1-4,11,12,9,10)] obtain rs2 evs2 where
    2: "find_common_accounts n srv tok d2 d1 = Some (Inr rs2, evs2)" "distinct rs2"
       "set rs2 = {mk_result x p | x p.
          x \<in> set (concat psF2) \<inter> set (concat psR2) \<inter> set (concat psF1) \<inter> set (concat psR1)
          \<and> fst (fetch_account_details srv tok x) = Some p}"
    by blast
  have "set rs1 = set rs2"
    using 1(3) 2(3) by blast
  with 1(2) 2(2) have "mset rs1 = mset rs2"
    by (simp add: set_eq_iff_mset_eq_distinct)
  with 1(1) 2(1) show ?thesis by blast
qed

text \<open>C9 (authentication failure is fatal). When the session request is not answered
  by a 200 response with a JSON object, the script exits with status 1 after that one
  request, and prints no result.\<close>

theorem login_failure_fatal:
  assumes "\<forall>kv. srv login_request \<noteq> Response 200 (Some (JObj kv))"
  shows "\<exists>evs. mutualsnoop_run n srv t = Some (Inl (Exit_Status 1), evs) \<and> calls evs = [login_request]
             \<and> (\<forall>r. Log (Result_Line r) \<notin> set evs)"
proof -
  from get_access_token_fails [of srv, OF assms] obtain evs where
    "get_access_token srv = Some (Inl (Exit_Status 1), evs)" "calls evs = [login_request]"
    by blast
  moreover have "Log (Result_Line r) \<notin> set evs" for r
    using \<open>get_access_token srv = Some (Inl (Exit_Status 1), evs)\<close>
    by (auto simp: get_access_token_def Let_def split: response.splits if_splits option.splits sum.splits)
  ultimately show ?thesis
    by (simp add: mutualsnoop_run_def)
qed

text \<open>C12 (a session without a token is not fatal). When the session request is
  answered by 200 with an object that has no \<open>accessJwt\<close>, the script logs a successful
  login and goes on exactly as with the token \<open>None\<close>: every later request carries
  \<open>Bearer None\<close>.\<close>

theorem login_without_token_continues:
  assumes "srv login_request = Response 200 (Some (JObj kv))"
    and "dict_lookup kv ''accessJwt'' = None"
  shows "mutualsnoop_run n srv t =
     map_option (\<lambda>(r, evs). (r, [Log Logging_In, Call login_request, Log Login_Successful] @ evs))
       (bind_run (find_mutual_connections n srv JNull (JStr t)) (\<lambda>results.
          emit (Log (Results_Header ''Mutual connections:'') # map (\<lambda>r. Log (Result_Line r)) results)))"
  using assms by (simp add: mutualsnoop_run_def get_access_token_ok dict_get_absent)

end
