(* ===== verification/Scenarios.thy ===== *)
theory Scenarios
  imports Orchestrator
begin

text \<open>
  A simulated service, the "simulated API" of the specification's testable properties: it
  answers the login request as configured, serves for every direction and actor a list of
  pages whose cursors are the JSON numbers \<open>1, 2, ...\<close>, and answers profile requests as
  configured. A page list marked complete ends with a page without cursor; one marked
  incomplete gives its last page a cursor and answers the request for it with status 500,
  which is how a failure in the middle of a pagination is staged. \<open>sim_walk\<close> shows that
  such a service serves exactly the configured walk, so the general theorems of Fetcher
  and Orchestrator apply to it; the scenarios of Spec2Isabelle evaluate on it by \<open>simp\<close>.
\<close>

record sim =
  sim_pages :: "direction \<Rightarrow> json \<Rightarrow> json list list \<times> bool"
  sim_profile :: "json \<Rightarrow> response"
  sim_login :: response

definition cursor_index :: "(string \<times> json) list \<Rightarrow> nat" where
  "cursor_index params = (case dict_lookup params ''cursor'' of Some (JNum i) \<Rightarrow> nat i | _ \<Rightarrow> 0)"

definition page_cursor :: "nat \<Rightarrow> json" where
  "page_cursor k = (if k = 0 then JNull else JNum (int k))"

definition paged_response :: "direction \<Rightarrow> json list list \<Rightarrow> bool \<Rightarrow> nat \<Rightarrow> response" where
  "paged_response d ps complete k =
     (if k < length ps
      then Response 200 (Some (page_body d (ps ! k)
             (if Suc k < length ps \<or> \<not> complete then page_cursor (Suc k) else JNull)))
      else Response 500 None)"

definition sim_server :: "sim \<Rightarrow> server" where
  "sim_server S req =
     (if req = login_request then sim_login S
      else if req_url req = API_URL @ endpoint FOLLOWS then
        (case sim_pages S FOLLOWS (dict_get (req_params req) ''actor'' JNull) of
           (ps, complete) \<Rightarrow> paged_response FOLLOWS ps complete (cursor_index (req_params req)))
      else if req_url req = API_URL @ endpoint FOLLOWERS then
        (case sim_pages S FOLLOWERS (dict_get (req_params req) ''actor'' JNull) of
           (ps, complete) \<Rightarrow> paged_response FOLLOWERS ps complete (cursor_index (req_params req)))
      else if req_url req = API_URL @ ''/app.bsky.actor.getProfile'' then
        sim_profile S (dict_get (req_params req) ''actor'' JNull)
      else Response 404 None)"

subsection \<open>The services of the scenarios\<close>

definition jwt :: json where
  "jwt = JStr ''jwt''"

definition login_ok :: response where
  "login_ok = Response 200 (Some (JObj [(''accessJwt'', jwt)]))"

text \<open>A profile answer whose handle is derived from the identifier.\<close>

definition profile_ok :: "json \<Rightarrow> response" where
  "profile_ok a =
     (case a of
        JStr s \<Rightarrow> Response 200 (Some (JObj [(''handle'', JStr (s @ ''.bsky.social'')),
                   (''followersCount'', JNum 10), (''followsCount'', JNum 20),
                   (''createdAt'', JStr ''2024-01-01'')]))
      | _ \<Rightarrow> Response 404 None)"

definition expected_result :: "string \<Rightarrow> mutual_result" where
  "expected_result s =
     \<lparr>handle = JStr (s @ ''.bsky.social''), followersCount = JNum 10, followsCount = JNum 20,
      createdAt = JStr ''2024-01-01'', did = JStr s\<rparr>"

text \<open>Scenario A: the target follows X, Y, Z and is followed by X, W.\<close>

definition simA :: sim where
  "simA = \<lparr>sim_pages = (\<lambda>d a. if a = JStr ''A'' then
              (case d of FOLLOWS \<Rightarrow> ([[JStr ''X'', JStr ''Y'', JStr ''Z'']], True)
                       | FOLLOWERS \<Rightarrow> ([[JStr ''X'', JStr ''W'']], True))
            else ([], False)),
           sim_profile = profile_ok, sim_login = login_ok\<rparr>"

text \<open>Scenario B: A's mutual connections are X and Q, B's are Q and Z.\<close>

definition simB :: sim where
  "simB = \<lparr>sim_pages = (\<lambda>d a.
              if a = JStr ''A'' then
                (case d of FOLLOWS \<Rightarrow> ([[JStr ''X'', JStr ''Q'', JStr ''Y'']], True)
                         | FOLLOWERS \<Rightarrow> ([[JStr ''Q'', JStr ''X'']], True))
              else if a = JStr ''B'' then
                (case d of FOLLOWS \<Rightarrow> ([[JStr ''Q'', JStr ''Z'']], True)
                         | FOLLOWERS \<Rightarrow> ([[JStr ''Z'', JStr ''Q'', JStr ''W'']], True))
              else ([], False)),
           sim_profile = profile_ok, sim_login = login_ok\<rparr>"

text \<open>Scenario C: three pages of two identifiers, the third without cursor. Scenario D:
  the first of those pages is served, the request for the second fails.\<close>

definition pagesC :: "json list list" where
  "pagesC = [[JStr ''P1'', JStr ''P2''], [JStr ''P3'', JStr ''P4''], [JStr ''P5'', JStr ''P6'']]"

definition simC :: sim where
  "simC = \<lparr>sim_pages = (\<lambda>d a. if a = JStr ''C'' then (pagesC, True) else ([], False)),
           sim_profile = profile_ok, sim_login = login_ok\<rparr>"

definition simD :: sim where
  "simD = \<lparr>sim_pages = (\<lambda>d a. if a = JStr ''C'' then ([hd pagesC], False) else ([], False)),
           sim_profile = profile_ok, sim_login = login_ok\<rparr>"

text \<open>Scenario E: the intersection is X, Y, and the profile request for Y fails.\<close>

definition simE :: sim where
  "simE = \<lparr>sim_pages = (\<lambda>d a. if a = JStr ''E'' then
              (case d of FOLLOWS \<Rightarrow> ([[JStr ''X'', JStr ''Y'']], True)
                       | FOLLOWERS \<Rightarrow> ([[JStr ''Y'', JStr ''X'']], True))
            else ([], False)),
           sim_profile = (\<lambda>a. if a = JStr ''Y'' then Response 500 None else profile_ok a),
           sim_login = login_ok\<rparr>"

text \<open>A service that answers every request with a page that points to a next page.\<close>

definition cycle_server :: server where
  "cycle_server req = Response 200 (Some (page_body FOLLOWS [JStr ''X''] (JStr ''again'')))"

text \<open>A page that lists an identifier which is a JSON list.\<close>

definition simU :: sim where
  "simU = \<lparr>sim_pages = (\<lambda>d a. ([[JStr ''X'', JList [JStr ''Y'']]], True)),
           sim_profile = profile_ok, sim_login = login_ok\<rparr>"

text \<open>The service of scenario A, except that the profile request for Y fails.\<close>

definition failing_profile_Y :: server where
  "failing_profile_Y req =
     (if req = profile_request jwt (JStr ''Y'') then Response 500 None else sim_server simA req)"

subsection \<open>The simulated service serves the configured walks\<close>

lemma page_request_not_login [simp]: "page_request tok d a c \<noteq> login_request"
  by (simp add: page_request_def login_request_def)

lemma endpoint_distinct [simp]:
  "API_URL @ endpoint FOLLOWERS \<noteq> API_URL @ endpoint FOLLOWS"
  "API_URL @ endpoint FOLLOWS \<noteq> API_URL @ endpoint FOLLOWERS"
  by simp_all

lemma sim_server_page:
  "sim_pages S d a = (ps, complete) \<Longrightarrow>
   sim_server S (page_request tok d a (page_cursor k)) = paged_response d ps complete k"
  by (cases d)
     (simp_all add: sim_server_def page_request_def page_cursor_def cursor_index_def
                    dict_get_def dict_lookup_def login_request_def)

lemma sim_get_page:
  "sim_pages S d a = (ps, complete) \<Longrightarrow>
   get_page (sim_server S) tok d a (page_cursor k) =
     (if k < length ps
      then Page_Ok (ps ! k) (if Suc k < length ps \<or> \<not> complete then page_cursor (Suc k) else JNull)
      else Page_Error (Fetch_Failed d a 500))"
  by (simp add: get_page_def sim_server_page paged_response_def read_page_page_body)

lemma truthy_page_cursor [simp]: "truthy (page_cursor k) \<longleftrightarrow> 0 < k"
  by (simp add: page_cursor_def)

lemma sim_walk_from:
  assumes pages: "sim_pages S d a = (ps, complete)"
  shows "k \<le> length ps \<Longrightarrow> (complete \<Longrightarrow> k < length ps) \<Longrightarrow>
         walk (sim_server S) tok d a (page_cursor k) (drop k ps) complete"
proof (induction "length ps - k" arbitrary: k)
  case 0
  then have "k = length ps" "\<not> complete" by auto
  with pages show ?case
    by (auto intro: walk_fail simp: sim_get_page)
next
  case (Suc m)
  then have k: "k < length ps" by simp
  show ?case
  proof (cases "Suc k < length ps \<or> \<not> complete")
    case True
    with Suc.hyps Suc.prems have "walk (sim_server S) tok d a (page_cursor (Suc k)) (drop (Suc k) ps) complete"
      by (intro Suc.hyps(1)) auto
    moreover from pages k True have
      "get_page (sim_server S) tok d a (page_cursor k) = Page_Ok (ps ! k) (page_cursor (Suc k))"
      by (simp add: sim_get_page)
    ultimately have "walk (sim_server S) tok d a (page_cursor k) (ps ! k # drop (Suc k) ps) complete"
      by (intro walk_next) simp_all
    with k show ?thesis
      by (simp add: Cons_nth_drop_Suc)
  next
    case False
    with k have "Suc k = length ps" "complete" by auto
    moreover from pages k False have
      "get_page (sim_server S) tok d a (page_cursor k) = Page_Ok (ps ! k) JNull"
      by (simp add: sim_get_page)
    ultimately show ?thesis
      by (auto intro: walk_last simp: Cons_nth_drop_Suc [symmetric])
  qed
qed

lemma sim_walk:
  "sim_pages S d a = (ps, complete) \<Longrightarrow> (complete \<Longrightarrow> ps \<noteq> []) \<Longrightarrow>
   walk (sim_server S) tok d a JNull ps complete"
  using sim_walk_from [of S d a ps complete 0 tok] by (simp add: page_cursor_def)

lemma sim_walk_simA:
  "walk (sim_server simA) jwt FOLLOWS (JStr ''A'') JNull [[JStr ''X'', JStr ''Y'', JStr ''Z'']] True"
  "walk (sim_server simA) jwt FOLLOWERS (JStr ''A'') JNull [[JStr ''X'', JStr ''W'']] True"
  by (rule sim_walk; simp add: simA_def)+

lemma sim_walk_simB:
  "walk (sim_server simB) jwt FOLLOWS (JStr ''A'') JNull [[JStr ''X'', JStr ''Q'', JStr ''Y'']] True"
  "walk (sim_server simB) jwt FOLLOWERS (JStr ''A'') JNull [[JStr ''Q'', JStr ''X'']] True"
  "walk (sim_server simB) jwt FOLLOWS (JStr ''B'') JNull [[JStr ''Q'', JStr ''Z'']] True"
  "walk (sim_server simB) jwt FOLLOWERS (JStr ''B'') JNull [[JStr ''Z'', JStr ''Q'', JStr ''W'']] True"
  by (rule sim_walk; simp add: simB_def)+

end
