(* ===== verification/Dedupe.thy ===== *)
theory Dedupe
  imports Prelude
begin

text \<open>
  The review de-duplicator \<open>src/dedupe.py\<close>: it reads the open reviews of Ozone's
  \<open>moderation_subject_status\<close> table and closes every one whose account already carries
  the configured label in the \<open>label\<close> table. The database is a record of the two
  tables (the columns the script reads or writes, rows in table order), a flag for
  whether \<open>psycopg2.connect\<close> succeeds, and a clock that \<open>datetime.utcnow()\<close> reads
  and advances, and the list of statements the server rejects. Each operation returns
  the new database and the log records it writes; the statements on the connection the
  loop shares also return whether its transaction is now aborted. The lemmas show which
  reviews a run closes when nothing fails, that a second run changes nothing, what a run
  never writes, that a failed statement stops all later work of the run, and that
  whatever fails, a run closes only reviews it should close.
\<close>

definition LABELER_DID :: string where
  "LABELER_DID = ''foo''"

definition LABEL :: string where
  "LABEL = ''foo''"

definition REVIEW_OPEN :: string where
  "REVIEW_OPEN = ''tools.ozone.moderation.defs#reviewOpen''"

definition REVIEW_CLOSED :: string where
  "REVIEW_CLOSED = ''tools.ozone.moderation.defs#reviewClosed''"

record mss_row =
  mss_id :: int
  mss_did :: string
  mss_reviewState :: string
  mss_comment :: "string option"
  mss_lastReviewedAt :: "nat option"
  mss_updatedAt :: "nat option"

text \<open>A row of the \<open>label\<close> table, with the columns \<open>src/autolabel.py\<close> inserts.\<close>

record label_row =
  lbl_src :: string
  lbl_uri :: string
  lbl_cid :: string
  lbl_val :: string
  lbl_neg :: bool
  lbl_cts :: nat

text \<open>The SQL statements the moderation scripts execute, with the parameters that
  identify them.\<close>

datatype db_stmt = Select_Open | Label_Check string | Update_Review int | Insert_Label string

text \<open>\<open>db_failing\<close> lists the statements the server rejects (a permission, a constraint, a
  lock timeout); every other statement succeeds on a healthy connection.\<close>

record db =
  db_up :: bool
  mss :: "mss_row list"
  labels :: "label_row list"
  clock :: nat
  db_failing :: "db_stmt list"

text \<open>The dict \<open>fetch_open_reviews\<close> builds from one selected row.\<close>

record review =
  rv_id :: int
  rv_did :: string
  rv_reviewState :: string
  rv_comment :: "string option"

datatype db_log =
    Connecting
  | Fetched_Open nat
  | Fetch_Open_Failed
  | Label_Checked string string bool
  | Label_Check_Failed string
  | Close_Failed int
  | Closed_Review int
  | Skipping_Missing int string
  | Already_Labelled string int
  | Not_Labelled string int
  | Processing_Failed
  | Starting
  | Completed

subsection \<open>Operations\<close>

text \<open>A statement on a connection: psycopg2 runs every statement of a connection in one
  transaction until \<open>commit\<close> or \<open>rollback\<close>; after a failed statement the transaction
  is aborted and every later statement fails (\<open>InFailedSqlTransaction\<close>). The flag
  \<open>aborted\<close> is that state of the connection. No script calls \<open>rollback\<close>.\<close>

definition stmt_ok :: "db \<Rightarrow> bool \<Rightarrow> db_stmt \<Rightarrow> bool" where
  "stmt_ok d aborted s \<longleftrightarrow> \<not> aborted \<and> s \<notin> set (db_failing d)"

definition to_review :: "mss_row \<Rightarrow> review" where
  "to_review r = \<lparr>rv_id = mss_id r, rv_did = mss_did r, rv_reviewState = mss_reviewState r,
                  rv_comment = mss_comment r\<rparr>"

text \<open>\<open>SELECT id, did, "reviewState", comment FROM moderation_subject_status
  WHERE "reviewState" = 'tools.ozone.moderation.defs#reviewOpen'\<close>, after its own
  connection; a failed connection or query is logged and yields no records.\<close>

definition fetch_open_reviews :: "db \<Rightarrow> review list \<times> db_log list" where
  "fetch_open_reviews d =
     (if db_up d \<and> stmt_ok d False Select_Open
      then (let records = map to_review (filter (\<lambda>r. mss_reviewState r = REVIEW_OPEN) (mss d))
            in (records, [Connecting, Fetched_Open (length records)]))
      else ([], [Connecting, Fetch_Open_Failed]))"

text \<open>\<open>SELECT 1 FROM label WHERE "src" = %s AND "uri" = %s AND "val" = %s\<close>.\<close>

definition has_label :: "label_row list \<Rightarrow> string \<Rightarrow> string \<Rightarrow> bool" where
  "has_label ls did label = list_ex (\<lambda>l. lbl_src l = LABELER_DID \<and> lbl_uri l = did \<and> lbl_val l = label) ls"

text \<open>\<open>label_exists(conn, did, label)\<close>: the answer, the connection's new state, and
  the log; a failing query is logged and answers \<open>False\<close>.\<close>

definition label_exists :: "db \<Rightarrow> bool \<Rightarrow> string \<Rightarrow> string \<Rightarrow> bool \<times> bool \<times> db_log list" where
  "label_exists d aborted did label =
     (if stmt_ok d aborted (Label_Check did)
      then (let exists = has_label (labels d) did label in (exists, aborted, [Label_Checked did label exists]))
      else (False, True, [Label_Check_Failed did]))"

text \<open>\<open>UPDATE moderation_subject_status SET "reviewState" = '...#reviewClosed',
  "lastReviewedAt" = %s, "updatedAt" = %s WHERE id = %s\<close>, both timestamps the one
  \<open>utcnow()\<close> read.\<close>

definition close_row :: "int \<Rightarrow> nat \<Rightarrow> mss_row \<Rightarrow> mss_row" where
  "close_row record_id t r =
     (if mss_id r = record_id
      then r\<lparr>mss_reviewState := REVIEW_CLOSED, mss_lastReviewedAt := Some t, mss_updatedAt := Some t\<rparr>
      else r)"

text \<open>\<open>close_review(conn, record_id)\<close>: \<open>utcnow()\<close> is read first; a failing
  \<open>UPDATE\<close> is logged and leaves the row as it was.\<close>

definition close_review :: "db \<Rightarrow> bool \<Rightarrow> int \<Rightarrow> db \<times> bool \<times> db_log list" where
  "close_review d aborted record_id =
     (let resolved_at = clock d; d0 = d\<lparr>clock := Suc resolved_at\<rparr>
      in if stmt_ok d aborted (Update_Review record_id)
         then (d0\<lparr>mss := map (close_row record_id resolved_at) (mss d)\<rparr>, aborted, [Closed_Review record_id])
         else (d0, True, [Close_Failed record_id]))"

text \<open>The loop of \<open>process_reviews\<close>: \<open>if not record_id or not did: continue\<close>, then
  close the review when the account has the label.\<close>

fun process_loop :: "db \<Rightarrow> bool \<Rightarrow> review list \<Rightarrow> db \<times> db_log list" where
  "process_loop d aborted [] = (d, [])"
| "process_loop d aborted (review # rest) =
     (if rv_id review = 0 \<or> rv_did review = []
      then (let (d', l) = process_loop d aborted rest
            in (d', Skipping_Missing (rv_id review) (rv_did review) # l))
      else
        (let (exists, a1, l1) = label_exists d aborted (rv_did review) LABEL
         in if exists
            then (let (d1, a2, l2) = close_review d a1 (rv_id review);
                      (d2, l3) = process_loop d1 a2 rest
                  in (d2, l1 @ [Already_Labelled (rv_did review) (rv_id review)] @ l2 @ l3))
            else (let (d2, l3) = process_loop d a1 rest
                  in (d2, l1 @ [Not_Labelled (rv_did review) (rv_id review)] @ l3))))"

definition process_reviews :: "db \<Rightarrow> db \<times> db_log list" where
  "process_reviews d =
     (if \<not> db_up d then (d, [Processing_Failed])
      else (let (open_reviews, l1) = fetch_open_reviews d;
                (d', l2) = process_loop d False open_reviews
            in (d', l1 @ l2)))"

text \<open>The script's top level: log, \<open>process_reviews()\<close>, log.\<close>

definition dedupe_main :: "db \<Rightarrow> db \<times> db_log list" where
  "dedupe_main d = (let (d', l) = process_reviews d in (d', [Starting] @ l @ [Completed]))"

subsection \<open>Which reviews a run closes\<close>

definition closable :: "label_row list \<Rightarrow> review \<Rightarrow> bool" where
  "closable ls rv \<longleftrightarrow> rv_id rv \<noteq> 0 \<and> rv_did rv \<noteq> [] \<and> has_label ls (rv_did rv) LABEL"

definition should_close :: "label_row list \<Rightarrow> mss_row \<Rightarrow> bool" where
  "should_close ls r \<longleftrightarrow> mss_reviewState r = REVIEW_OPEN \<and> closable ls (to_review r)"

definition row_key :: "mss_row \<Rightarrow> int \<times> string \<times> string option" where
  "row_key r = (mss_id r, mss_did r, mss_comment r)"

subsection \<open>Lemmas\<close>

text \<open>A statement fails exactly when the connection is aborted or the server rejects
  it; after it the connection is aborted.\<close>

lemma stmt_ok_healthy [simp]: "db_failing d = [] \<Longrightarrow> stmt_ok d a s \<longleftrightarrow> \<not> a"
  by (simp add: stmt_ok_def)

lemma stmt_ok_aborted [simp]: "\<not> stmt_ok d True s"
  by (simp add: stmt_ok_def)

lemma label_exists_aborts [simp]:
  "fst (snd (label_exists d a did l)) \<longleftrightarrow> \<not> stmt_ok d a (Label_Check did)"
  "fst (label_exists d a did l) \<longleftrightarrow> stmt_ok d a (Label_Check did) \<and> has_label (labels d) did l"
  by (auto simp: label_exists_def stmt_ok_def Let_def)

lemma close_review_aborts [simp]:
  "fst (snd (close_review d a i)) \<longleftrightarrow> \<not> stmt_ok d a (Update_Review i)"
  by (auto simp: close_review_def stmt_ok_def Let_def)

lemma close_review_failed:
  "\<not> stmt_ok d a (Update_Review i) \<Longrightarrow> fst (close_review d a i) = d\<lparr>clock := Suc (clock d)\<rparr>"
  by (simp add: close_review_def Let_def)

lemma close_review_frame [simp]:
  "labels (fst (close_review d a i)) = labels d"
  "db_up (fst (close_review d a i)) = db_up d"
  "db_failing (fst (close_review d a i)) = db_failing d"
  "map row_key (mss (fst (close_review d a i))) = map row_key (mss d)"
  by (simp_all add: close_review_def close_row_def row_key_def Let_def)

lemma close_review_status:
  "map (\<lambda>r. (mss_id r, mss_reviewState r)) (mss (fst (close_review d a i))) =
   map (\<lambda>r. (mss_id r, if stmt_ok d a (Update_Review i) \<and> mss_id r = i then REVIEW_CLOSED
                       else mss_reviewState r)) (mss d)"
  by (simp add: close_review_def close_row_def Let_def)

lemma process_loop_skip [simp]:
  "rv_id rv = 0 \<or> rv_did rv = [] \<Longrightarrow> fst (process_loop d a (rv # rest)) = fst (process_loop d a rest)"
  by (auto simp: Let_def split: prod.splits)

lemma process_loop_close [simp]:
  "rv_id rv \<noteq> 0 \<Longrightarrow> rv_did rv \<noteq> [] \<Longrightarrow> stmt_ok d a (Label_Check (rv_did rv)) \<Longrightarrow>
   has_label (labels d) (rv_did rv) LABEL \<Longrightarrow>
   fst (process_loop d a (rv # rest)) =
   fst (process_loop (fst (close_review d a (rv_id rv))) (\<not> stmt_ok d a (Update_Review (rv_id rv))) rest)"
  by (cases a) (auto simp: split_def Let_def)

lemma process_loop_keep [simp]:
  "rv_id rv \<noteq> 0 \<Longrightarrow> rv_did rv \<noteq> [] \<Longrightarrow>
   \<not> (stmt_ok d a (Label_Check (rv_did rv)) \<and> has_label (labels d) (rv_did rv) LABEL) \<Longrightarrow>
   fst (process_loop d a (rv # rest)) = fst (process_loop d (\<not> stmt_ok d a (Label_Check (rv_did rv))) rest)"
  by (cases a) (auto simp: split_def Let_def)

declare process_loop.simps(2) [simp del]

lemma process_loop_step_cases:
  obtains (close) "closable (labels d) rv" "stmt_ok d a (Label_Check (rv_did rv))"
    "fst (process_loop d a (rv # rest)) =
     fst (process_loop (fst (close_review d a (rv_id rv))) (\<not> stmt_ok d a (Update_Review (rv_id rv))) rest)"
  | (pass) a' where "\<not> (closable (labels d) rv \<and> stmt_ok d a (Label_Check (rv_did rv)))"
    "fst (process_loop d a (rv # rest)) = fst (process_loop d a' rest)"
proof -
  consider "rv_id rv = 0 \<or> rv_did rv = []"
    | "rv_id rv \<noteq> 0" "rv_did rv \<noteq> []" "stmt_ok d a (Label_Check (rv_did rv))" "has_label (labels d) (rv_did rv) LABEL"
    | "rv_id rv \<noteq> 0" "rv_did rv \<noteq> []" "\<not> (stmt_ok d a (Label_Check (rv_did rv)) \<and> has_label (labels d) (rv_did rv) LABEL)"
    by blast
  then show thesis
  proof cases
    case 1
    then show ?thesis using pass [OF _ process_loop_skip [OF 1]] by (auto simp: closable_def)
  next
    case 2
    then show ?thesis using close [OF _ _ process_loop_close [OF 2]] by (simp add: closable_def)
  next
    case 3
    then show ?thesis using pass [OF _ process_loop_keep [OF 3]] by (auto simp: closable_def)
  qed
qed

lemma process_loop_frame:
  "labels (fst (process_loop d a rvs)) = labels d \<and> db_up (fst (process_loop d a rvs)) = db_up d
   \<and> db_failing (fst (process_loop d a rvs)) = db_failing d
   \<and> map row_key (mss (fst (process_loop d a rvs))) = map row_key (mss d)"
proof (induction rvs arbitrary: d a)
  case Nil
  then show ?case by simp
next
  case (Cons rv rest)
  show ?case
    by (cases rule: process_loop_step_cases [of d rv a rest]) (simp_all only: close_review_frame Cons.IH)
qed

text \<open>Whatever fails, the run closes some of the closable reviews it was given and
  touches nothing else.\<close>

lemma process_loop_closes_some:
  "\<exists>K \<subseteq> rv_id ` {rv \<in> set rvs. closable (labels d) rv}.
     map (\<lambda>r. (mss_id r, mss_reviewState r)) (mss (fst (process_loop d a rvs))) =
     map (\<lambda>r. (mss_id r, if mss_id r \<in> K then REVIEW_CLOSED else mss_reviewState r)) (mss d)"
proof (induction rvs arbitrary: d a)
  case Nil
  show ?case by (rule exI [of _ "{}"]) simp
next
  case (Cons rv rest)
  show ?case
  proof (cases rule: process_loop_step_cases [of d rv a rest])
    case close
    define d1 where "d1 = fst (close_review d a (rv_id rv))"
    define C where "C = (if stmt_ok d a (Update_Review (rv_id rv)) then {rv_id rv} else {})"
    obtain K where K: "K \<subseteq> rv_id ` {rv \<in> set rest. closable (labels d) rv}"
      and eq: "map (\<lambda>r. (mss_id r, mss_reviewState r)) (mss (fst (process_loop d1 (\<not> stmt_ok d a (Update_Review (rv_id rv))) rest))) =
               map (\<lambda>r. (mss_id r, if mss_id r \<in> K then REVIEW_CLOSED else mss_reviewState r)) (mss d1)"
      using Cons.IH [of d1] by (auto simp: d1_def)
    have "map (\<lambda>r. (mss_id r, if mss_id r \<in> K then REVIEW_CLOSED else mss_reviewState r)) (mss d1) =
          map (\<lambda>(i, s). (i, if i \<in> K then REVIEW_CLOSED else s)) (map (\<lambda>r. (mss_id r, mss_reviewState r)) (mss d1))"
      by simp
    also have "\<dots> = map (\<lambda>r. (mss_id r, if mss_id r \<in> K \<union> C then REVIEW_CLOSED else mss_reviewState r)) (mss d)"
      unfolding d1_def close_review_status by (auto simp: C_def)
    finally have "map (\<lambda>r. (mss_id r, mss_reviewState r)) (mss (fst (process_loop d a (rv # rest)))) =
                  map (\<lambda>r. (mss_id r, if mss_id r \<in> K \<union> C then REVIEW_CLOSED else mss_reviewState r)) (mss d)"
      using close(3) eq by (simp add: d1_def)
    moreover have "K \<union> C \<subseteq> rv_id ` {rv' \<in> set (rv # rest). closable (labels d) rv'}"
      using K close(1) by (auto simp: C_def)
    ultimately show ?thesis by blast
  next
    case (pass a')
    obtain K where "K \<subseteq> rv_id ` {rv \<in> set rest. closable (labels d) rv}"
      "map (\<lambda>r. (mss_id r, mss_reviewState r)) (mss (fst (process_loop d a' rest))) =
       map (\<lambda>r. (mss_id r, if mss_id r \<in> K then REVIEW_CLOSED else mss_reviewState r)) (mss d)"
      using Cons.IH [of d a'] by blast
    with pass(2) show ?thesis
      by (intro exI [of _ K]) auto
  qed
qed

lemma process_loop_status:
  "db_failing d = [] \<Longrightarrow>
   map mss_reviewState (mss (fst (process_loop d False rvs))) =
   map (\<lambda>r. if mss_id r \<in> rv_id ` {rv \<in> set rvs. closable (labels d) rv} then REVIEW_CLOSED
            else mss_reviewState r) (mss d)"
proof (induction rvs arbitrary: d)
  case Nil
  then show ?case by simp
next
  case (Cons rv rest)
  show ?case
  proof (cases rule: process_loop_step_cases [of d rv False rest])
    case close
    with Cons.prems Cons.IH [of "fst (close_review d False (rv_id rv))"] show ?thesis
      by (auto simp: close_review_def close_row_def Let_def)
  next
    case (pass a')
    with Cons.prems have "fst (process_loop d False (rv # rest)) = fst (process_loop d False rest)"
      by (cases "rv_id rv = 0 \<or> rv_did rv = []") (auto simp: closable_def)
    with pass(1) Cons.prems Cons.IH [of d] show ?thesis
      by auto
  qed
qed

lemma process_loop_aborted:
  "fst (process_loop d True rvs) = d"
proof (induction rvs)
  case Nil
  then show ?case by simp
next
  case (Cons rv rest)
  then show ?case
    by (cases "rv_id rv = 0 \<or> rv_did rv = []") simp_all
qed

lemma no_closable_process_loop:
  "\<forall>rv \<in> set rvs. \<not> closable (labels d) rv \<Longrightarrow> fst (process_loop d a rvs) = d"
proof (induction rvs arbitrary: a)
  case Nil
  then show ?case by simp
next
  case (Cons rv rest)
  then show ?case
    by (cases rule: process_loop_step_cases [of d rv a rest]) auto
qed
lemma process_reviews_up:
  "db_up d \<Longrightarrow> Select_Open \<notin> set (db_failing d) \<Longrightarrow>
   fst (process_reviews d) = fst (process_loop d False (map to_review (filter (\<lambda>r. mss_reviewState r = REVIEW_OPEN) (mss d))))"
  by (simp add: process_reviews_def fetch_open_reviews_def stmt_ok_def split_def Let_def)

lemma process_reviews_down:
  "\<not> (db_up d \<and> Select_Open \<notin> set (db_failing d)) \<Longrightarrow> fst (process_reviews d) = d"
  by (auto simp: process_reviews_def fetch_open_reviews_def stmt_ok_def split_def Let_def)

lemma row_key_columns:
  assumes "map row_key xs = map row_key ys"
  shows "map mss_id xs = map mss_id ys \<and> map mss_did xs = map mss_did ys"
proof -
  have "map (fst \<circ> row_key) xs = map (fst \<circ> row_key) ys"
    "map (fst \<circ> snd \<circ> row_key) xs = map (fst \<circ> snd \<circ> row_key) ys"
    using assms by (metis map_map)+
  then show ?thesis by (simp add: row_key_def comp_def)
qed

lemma rv_id_to_review [simp]: "rv_id (to_review r) = mss_id r"
  and rv_did_to_review: "rv_did (to_review r) = mss_did r"
  by (simp_all add: to_review_def)

lemma closed_ids_eq:
  "rv_id ` {rv \<in> set (map to_review (filter (\<lambda>r. mss_reviewState r = REVIEW_OPEN) rows)). closable ls rv} =
   mss_id ` {r \<in> set rows. should_close ls r}"
proof -
  have "{rv \<in> set (map to_review (filter (\<lambda>r. mss_reviewState r = REVIEW_OPEN) rows)). closable ls rv} =
        to_review ` {r \<in> set rows. should_close ls r}"
    by (auto simp: should_close_def)
  then show ?thesis
    by (simp add: image_image)
qed

lemma process_reviews_status:
  assumes "db_up d" "db_failing d = []"
  shows "map mss_reviewState (mss (fst (process_reviews d))) =
   map (\<lambda>r. if mss_id r \<in> mss_id ` {r \<in> set (mss d). should_close (labels d) r}
            then REVIEW_CLOSED else mss_reviewState r) (mss d)"
proof -
  have sel: "Select_Open \<notin> set (db_failing d)"
    using assms(2) by simp
  show ?thesis
    unfolding process_reviews_up [OF assms(1) sel] process_loop_status [OF assms(2)] closed_ids_eq
    by (rule refl)
qed

lemma process_reviews_status_distinct:
  assumes "distinct (map mss_id (mss d))" "db_up d" "db_failing d = []"
  shows "map mss_reviewState (mss (fst (process_reviews d))) =
         map (\<lambda>r. if should_close (labels d) r then REVIEW_CLOSED else mss_reviewState r) (mss d)"
proof -
  have "mss_id r \<in> mss_id ` {r \<in> set (mss d). should_close (labels d) r} \<longleftrightarrow> should_close (labels d) r"
    if "r \<in> set (mss d)" for r
    using assms(1) that by (auto simp: distinct_map inj_on_def)
  with assms(2,3) show ?thesis
    by (simp add: process_reviews_status cong: map_cong)
qed

lemma process_reviews_frame:
  "labels (fst (process_reviews d)) = labels d \<and> db_up (fst (process_reviews d)) = db_up d
   \<and> db_failing (fst (process_reviews d)) = db_failing d
   \<and> map row_key (mss (fst (process_reviews d))) = map row_key (mss d)"
  by (cases "db_up d \<and> Select_Open \<notin> set (db_failing d)")
     (simp_all add: process_reviews_up process_loop_frame process_reviews_down)

text \<open>C14 (which reviews get closed). When the review identifiers are distinct (they are
  the table's key) and no statement fails, a run closes exactly the open reviews with a non-zero identifier and a
  non-empty account whose account carries the label, if the database is reachable, and
  leaves the state of every other review as it was.\<close>

theorem process_reviews_closes:
  assumes "distinct (map mss_id (mss d))" and "db_failing d = []"
  shows "map mss_reviewState (mss (fst (process_reviews d))) =
         map (\<lambda>r. if db_up d \<and> should_close (labels d) r then REVIEW_CLOSED else mss_reviewState r) (mss d)"
  using assms process_reviews_status_distinct [of d] process_reviews_down [of d] by (cases "db_up d") simp_all

lemma closable_to_review:
  "closable ls (to_review r) \<longleftrightarrow> mss_id r \<noteq> 0 \<and> mss_did r \<noteq> [] \<and> has_label ls (mss_did r) LABEL"
  by (simp add: closable_def to_review_def)

lemma review_states_differ [simp]: "REVIEW_CLOSED \<noteq> REVIEW_OPEN"
  by (simp add: REVIEW_CLOSED_def REVIEW_OPEN_def)

text \<open>C15 (idempotence). When no statement fails, running the script on the database
  it produced changes nothing: no review is closed twice and no timestamp moves.\<close>

theorem process_reviews_idempotent:
  assumes healthy: "db_failing d = []"
  shows "fst (process_reviews (fst (process_reviews d))) = fst (process_reviews d)"
proof (cases "db_up d")
  case False
  then show ?thesis by (simp add: process_reviews_def)
next
  case True
  define d1 where "d1 = fst (process_reviews d)"
  define K where "K = mss_id ` {r \<in> set (mss d). should_close (labels d) r}"
  have fr: "labels d1 = labels d" "db_up d1" "map row_key (mss d1) = map row_key (mss d)"
    "db_failing d1 = []"
    using process_reviews_frame [of d] True healthy by (simp_all add: d1_def)
  have pairs: "map (\<lambda>r. (row_key r, mss_reviewState r)) (mss d1) =
      map (\<lambda>r. (row_key r, if mss_id r \<in> K then REVIEW_CLOSED else mss_reviewState r)) (mss d)"
    by (rule map_pair_eq [OF fr(3)]) (simp add: process_reviews_status [OF True healthy] d1_def K_def)
  have "\<forall>rv \<in> set (map to_review (filter (\<lambda>r. mss_reviewState r = REVIEW_OPEN) (mss d1))).
          \<not> closable (labels d1) rv"
  proof
    fix rv
    assume "rv \<in> set (map to_review (filter (\<lambda>r. mss_reviewState r = REVIEW_OPEN) (mss d1)))"
    then obtain r1 where r1: "r1 \<in> set (mss d1)" "mss_reviewState r1 = REVIEW_OPEN" "rv = to_review r1"
      by auto
    from r1(1) have "(row_key r1, mss_reviewState r1) \<in> set (map (\<lambda>r. (row_key r, mss_reviewState r)) (mss d1))"
      by auto
    then obtain r0 where r0: "r0 \<in> set (mss d)" "row_key r0 = row_key r1"
      "mss_reviewState r1 = (if mss_id r0 \<in> K then REVIEW_CLOSED else mss_reviewState r0)"
      unfolding pairs by auto
    with r1(2) have notK: "mss_id r0 \<notin> K" and open0: "mss_reviewState r0 = REVIEW_OPEN"
      by (auto split: if_splits)
    show "\<not> closable (labels d1) rv"
    proof
      assume "closable (labels d1) rv"
      with r1(3) r0(2) fr(1) have "closable (labels d) (to_review r0)"
        by (simp add: closable_to_review row_key_def)
      with r0(1) open0 have "mss_id r0 \<in> K"
        by (auto simp: K_def should_close_def)
      with notK show False by simp
    qed
  qed
  then have "fst (process_loop d1 False (map to_review (filter (\<lambda>r. mss_reviewState r = REVIEW_OPEN) (mss d1)))) = d1"
    by (rule no_closable_process_loop)
  with fr(2,4) show ?thesis
    by (simp add: d1_def [symmetric] process_reviews_up)
qed

text \<open>C16 (frame). The script never writes the label table, and never changes the
  identifier, account or comment of a review, nor the number or order of the rows.\<close>

theorem dedupe_main_frame:
  "labels (fst (dedupe_main d)) = labels d \<and> map row_key (mss (fst (dedupe_main d))) = map row_key (mss d)"
  using process_reviews_frame [of d] by (simp add: dedupe_main_def split_def Let_def)

text \<open>C17 (a failed statement ends the run's work). When the label check of a review
  that is processed fails, the connection's transaction is aborted; \<open>label_exists\<close>
  swallows the error and answers \<open>False\<close>, no statement after it succeeds and nothing
  rolls the transaction back, so no later review is closed, labelled or not.\<close>

theorem process_loop_check_failure:
  assumes "rv_id rv \<noteq> 0" "rv_did rv \<noteq> []" "Label_Check (rv_did rv) \<in> set (db_failing d)"
  shows "fst (process_loop d a (rv # rest)) = d"
proof -
  have "\<not> stmt_ok d a (Label_Check (rv_did rv))"
    using assms(3) by (simp add: stmt_ok_def)
  with assms(1,2) show ?thesis
    by (simp add: process_loop_aborted)
qed

text \<open>C18 (a failed close ends the run's work). When the \<open>UPDATE\<close> of a closable review
  fails, \<open>close_review\<close> logs the error and returns, the review stays open, and the
  aborted transaction keeps every later review open too: the run only advances the
  clock, by the one \<open>utcnow()\<close> read before the failing statement.\<close>

theorem process_loop_close_failure:
  assumes "closable (labels d) rv" "stmt_ok d a (Label_Check (rv_did rv))"
    and "Update_Review (rv_id rv) \<in> set (db_failing d)"
  shows "fst (process_loop d a (rv # rest)) = d\<lparr>clock := Suc (clock d)\<rparr>"
proof -
  have failed: "\<not> stmt_ok d a (Update_Review (rv_id rv))"
    using assms(3) by (simp add: stmt_ok_def)
  with assms(1,2) have "fst (process_loop d a (rv # rest)) =
                        fst (process_loop (fst (close_review d a (rv_id rv))) True rest)"
    by (simp add: closable_def)
  also have "\<dots> = fst (close_review d a (rv_id rv))"
    by (rule process_loop_aborted)
  finally show ?thesis
    using close_review_failed [OF failed] by simp
qed

lemma closes_some_list_all2:
  assumes "map (\<lambda>r. (mss_id r, mss_reviewState r)) ys =
           map (\<lambda>r. (mss_id r, if mss_id r \<in> K then REVIEW_CLOSED else mss_reviewState r)) xs"
    and "\<And>r. r \<in> set xs \<Longrightarrow> mss_id r \<in> K \<Longrightarrow> P r"
  shows "list_all2 (\<lambda>r r'. mss_reviewState r' = mss_reviewState r \<or> mss_reviewState r' = REVIEW_CLOSED \<and> P r) xs ys"
proof -
  have len: "length ys = length xs"
    using arg_cong [OF assms(1), of length] by simp
  have "mss_reviewState (ys ! i) = (if mss_id (xs ! i) \<in> K then REVIEW_CLOSED else mss_reviewState (xs ! i))"
    if "i < length xs" for i
    using arg_cong [OF assms(1), of "\<lambda>zs. snd (zs ! i)"] that len by simp
  with assms(2) len show ?thesis
    by (auto simp: list_all2_conv_all_nth)
qed

text \<open>C19 (what a run may close). Whatever statements fail, a run only ever closes open
  reviews the script should close, and leaves every other review in its state: failures
  can only make it close fewer.\<close>

theorem process_reviews_closes_only:
  assumes "distinct (map mss_id (mss d))"
  shows "list_all2 (\<lambda>r r'. mss_reviewState r' = mss_reviewState r \<or>
                            mss_reviewState r' = REVIEW_CLOSED \<and> should_close (labels d) r)
           (mss d) (mss (fst (process_reviews d)))"
proof (cases "db_up d \<and> Select_Open \<notin> set (db_failing d)")
  case True
  obtain K where K: "K \<subseteq> mss_id ` {r \<in> set (mss d). should_close (labels d) r}"
    and eq: "map (\<lambda>r. (mss_id r, mss_reviewState r)) (mss (fst (process_reviews d))) =
             map (\<lambda>r. (mss_id r, if mss_id r \<in> K then REVIEW_CLOSED else mss_reviewState r)) (mss d)"
    using process_loop_closes_some [of "map to_review (filter (\<lambda>r. mss_reviewState r = REVIEW_OPEN) (mss d))" d False]
    unfolding closed_ids_eq process_reviews_up [OF conjunct1 [OF True] conjunct2 [OF True]] by blast
  have "should_close (labels d) r" if r_in: "r \<in> set (mss d)" and r_K: "mss_id r \<in> K" for r
  proof -
    obtain r0 where "r0 \<in> set (mss d)" "should_close (labels d) r0" "mss_id r = mss_id r0"
      using K r_K by auto
    with r_in assms show ?thesis
      by (metis distinct_map inj_onD)
  qed
  with eq show ?thesis
    by (rule closes_some_list_all2)
next
  case False
  then show ?thesis
    by (simp add: process_reviews_down list_all2_refl)
qed

end
