(* ===== verification/Autolabel.thy ===== *)
theory Autolabel
  imports Dedupe Http_Api "HOL-Library.Sublist"
begin

text \<open>
  The keyword auto-labeller \<open>src/autolabel.py\<close>: it logs into the moderation service,
  reads the open reviews (the same \<open>fetch_open_reviews\<close> as \<open>src/dedupe.py\<close>), looks up
  the handle of each review's account, and when the handle contains \<open>keyword\<close> in any
  letter case it labels the account (unless the label is already there) and closes the
  review. It acts on both the HTTP service (a \<open>server\<close>, as in the snoop scripts) and the
  database (the \<open>db\<close> record of Dedupe); its events are the requests it sends and the log
  records it writes. The lemmas show that the keyword test is a case-insensitive substring
  test, that a run keeps at most one copy of the label per account, what a run closes and
  labels, that one handle that is not a string ends the whole batch, and that a failed
  label write ends it too, through the aborted transaction.
\<close>

definition ADMIN_USERNAME :: string where
  "ADMIN_USERNAME = ''foo''"

definition ADMIN_PASSWORD :: string where
  "ADMIN_PASSWORD = ''foo''"

subsection \<open>The keyword pattern\<close>

text \<open>\<open>re.compile(r"keyword", re.IGNORECASE)\<close>: the pattern is a literal of lower-case
  letters, so a position matches when the lower-cased text starts with it there.
  Lower-casing is ASCII (\<open>char\<close> is a byte here).\<close>

definition KEYWORD_PATTERN :: string where
  "KEYWORD_PATTERN = ''keyword''"

definition lower_char :: "char \<Rightarrow> char" where
  "lower_char c =
     (case map_of (zip ''ABCDEFGHIJKLMNOPQRSTUVWXYZ'' ''abcdefghijklmnopqrstuvwxyz'') c of
        Some l \<Rightarrow> l
      | None \<Rightarrow> c)"

text \<open>\<open>pattern.search(s) is not None\<close> for a literal pattern: try every start position.\<close>

fun re_search :: "string \<Rightarrow> string \<Rightarrow> bool" where
  "re_search p [] = (p = [])"
| "re_search p (c # cs) = (take (length p) (c # cs) = p \<or> re_search p cs)"

definition keyword_search :: "string \<Rightarrow> bool" where
  "keyword_search u = re_search KEYWORD_PATTERN (map lower_char u)"

subsection \<open>Log records and events\<close>

datatype al_log =
    AL_Login_Successful
  | AL_Login_Failed nat
  | AL_Login_Error py_exc
  | AL_Db db_log
  | Username_Failed json nat
  | Username_Error json py_exc
  | AL_Skipping int string
  | Pattern_Match string
  | No_Match json int
  | Label_Exists string string
  | Label_Applied string string
  | Label_Apply_Failed string
  | Review_Marked_Closed int
  | AL_Processing_Error
  | Processing_Open_Reviews
  | Processing_Completed

datatype al_event = AL_Call request | AL_Log al_log

subsection \<open>Requests\<close>

definition login_request_autolabel :: "string \<Rightarrow> string \<Rightarrow> string \<Rightarrow> request" where
  "login_request_autolabel api_url username password =
     \<lparr>req_method = POST, req_url = api_url @ ''/com.atproto.server.createSession'',
      req_auth = None, req_params = [(''identifier'', JStr username), (''password'', JStr password)]\<rparr>"

text \<open>\<open>get_access_token(api_url, username, password)\<close>. Unlike the snoop scripts, the
  success message is logged before \<open>data.get\<close>, which raises on a body that is not an
  object; every failure ends the script with \<open>exit(1)\<close>.\<close>

definition get_access_token_autolabel ::
  "server \<Rightarrow> string \<Rightarrow> string \<Rightarrow> string \<Rightarrow> (abort + json) \<times> al_event list" where
  "get_access_token_autolabel srv api_url username password =
     (let req = login_request_autolabel api_url username password; pre = [AL_Call req] in
      case srv req of
        Transport_Exc \<Rightarrow> (Inl (Exit_Status 1), pre @ [AL_Log (AL_Login_Error TransportError)])
      | Response st body \<Rightarrow>
          (if st = 200 then
             (case body of
                None \<Rightarrow> (Inl (Exit_Status 1), pre @ [AL_Log (AL_Login_Error JSONDecodeError)])
              | Some data \<Rightarrow>
                  (case py_get data ''accessJwt'' JNull of
                     Inl e \<Rightarrow> (Inl (Exit_Status 1),
                               pre @ [AL_Log AL_Login_Successful, AL_Log (AL_Login_Error e)])
                   | Inr tok \<Rightarrow> (Inr tok, pre @ [AL_Log AL_Login_Successful])))
           else (Inl (Exit_Status 1), pre @ [AL_Log (AL_Login_Failed st)])))"

definition username_request :: "string \<Rightarrow> json \<Rightarrow> json \<Rightarrow> request" where
  "username_request api_url tok a_did =
     \<lparr>req_method = GET, req_url = api_url @ ''/app.bsky.actor.getProfile'', req_auth = Some tok,
      req_params = [(''actor'', a_did)]\<rparr>"

text \<open>\<open>fetch_username_from_did\<close>: the \<open>handle\<close> of the profile, \<open>None\<close> (here
  \<open>JNull\<close>) on any failure. The handle is returned as the service sent it, of any JSON
  type.\<close>

definition fetch_username_from_did :: "server \<Rightarrow> string \<Rightarrow> json \<Rightarrow> json \<Rightarrow> json \<times> al_event list" where
  "fetch_username_from_did srv api_url tok a_did =
     (let req = username_request api_url tok a_did in
      case srv req of
        Transport_Exc \<Rightarrow> (JNull, [AL_Call req, AL_Log (Username_Error a_did TransportError)])
      | Response st body \<Rightarrow>
          (if st = 200 then
             (case body of
                None \<Rightarrow> (JNull, [AL_Call req, AL_Log (Username_Error a_did JSONDecodeError)])
              | Some data \<Rightarrow>
                  (case py_get data ''handle'' JNull of
                     Inl e \<Rightarrow> (JNull, [AL_Call req, AL_Log (Username_Error a_did e)])
                   | Inr h \<Rightarrow> (h, [AL_Call req])))
           else (JNull, [AL_Call req, AL_Log (Username_Failed a_did st)])))"

subsection \<open>Database writes\<close>

text \<open>\<open>apply_label_to_did\<close>: the existence check of \<open>label_exists\<close>, then
  \<open>INSERT INTO label ("src", "uri", "cid", "val", "neg", "cts") ... ON CONFLICT DO
  NOTHING\<close> with an empty \<open>cid\<close> and the time \<open>utcnow()\<close> reads. The insert runs only when
  no row with this source, account and value exists, so no uniqueness constraint on those
  columns can fire and the row is appended.\<close>

text \<open>Both statements run on the caller's connection \<open>conn\<close>, whose state is
  \<open>aborted\<close>; a failing statement is caught by the function's \<open>except\<close>, logged, and
  leaves the transaction aborted (there is no \<open>rollback\<close>).\<close>

definition apply_label_to_did :: "db \<Rightarrow> bool \<Rightarrow> string \<Rightarrow> string \<Rightarrow> db \<times> bool \<times> al_event list" where
  "apply_label_to_did d aborted a_did label =
     (let uri = a_did in
      if \<not> stmt_ok d aborted (Label_Check uri) then (d, True, [AL_Log (Label_Apply_Failed a_did)])
      else if has_label (labels d) uri label then (d, aborted, [AL_Log (Label_Exists label a_did)])
      else (let resolved_at = clock d;
                row = \<lparr>lbl_src = LABELER_DID, lbl_uri = uri, lbl_cid = '''', lbl_val = label,
                       lbl_neg = False, lbl_cts = resolved_at\<rparr>;
                d0 = d\<lparr>clock := Suc resolved_at\<rparr>
            in if stmt_ok d aborted (Insert_Label uri)
               then (d0\<lparr>labels := labels d @ [row]\<rparr>, aborted, [AL_Log (Label_Applied label a_did)])
               else (d0, True, [AL_Log (Label_Apply_Failed a_did)])))"

text \<open>The \<open>UPDATE ... WHERE id = %s\<close> written inline in \<open>process_reviews\<close>, with its
  own \<open>utcnow()\<close>. Nothing catches a failure here: the \<open>psycopg2\<close> error
  (\<open>DatabaseError\<close>) leaves the loop.\<close>

definition mark_review_closed :: "db \<Rightarrow> bool \<Rightarrow> int \<Rightarrow> (py_exc + unit) \<times> db \<times> al_event list" where
  "mark_review_closed d aborted record_id =
     (let resolved_at = clock d; d0 = d\<lparr>clock := Suc resolved_at\<rparr>
      in if stmt_ok d aborted (Update_Review record_id)
         then (Inr (), d0\<lparr>mss := map (close_row record_id resolved_at) (mss d)\<rparr>,
               [AL_Log (Review_Marked_Closed record_id)])
         else (Inl DatabaseError, d0, []))"

subsection \<open>The loop\<close>

text \<open>The \<open>for review in reviews\<close> loop. \<open>if username and KEYWORD_PATTERN.search(username)\<close>
  raises \<open>TypeError\<close> when the handle is truthy but not a string, and the \<open>UPDATE\<close> raises
  when it fails; the exception leaves the loop (\<open>Inl\<close>) with the database as the
  committed statements left it. A successful \<open>UPDATE\<close> is committed, so every
  iteration starts on a healthy connection: \<open>apply_label_to_did\<close> is called with
  \<open>aborted\<close> false.\<close>

fun process_loop_autolabel ::
  "server \<Rightarrow> json \<Rightarrow> db \<Rightarrow> review list \<Rightarrow> (py_exc + unit) \<times> db \<times> al_event list" where
  "process_loop_autolabel srv tok d [] = (Inr (), d, [])"
| "process_loop_autolabel srv tok d (review # rest) =
     (if rv_id review = 0 \<or> rv_did review = []
      then (let (r, d', l) = process_loop_autolabel srv tok d rest
            in (r, d', AL_Log (AL_Skipping (rv_id review) (rv_did review)) # l))
      else
        (let a_did = rv_did review;
             (username, l1) = fetch_username_from_did srv API_URL tok (JStr a_did)
         in if \<not> truthy username
            then (let (r, d', l) = process_loop_autolabel srv tok d rest
                  in (r, d', l1 @ [AL_Log (No_Match username (rv_id review))] @ l))
            else
              (case username of
                 JStr u \<Rightarrow>
                   (if keyword_search u
                    then (let (d1, a1, l2) = apply_label_to_did d False a_did LABEL;
                              (r1, d2, l3) = mark_review_closed d1 a1 (rv_id review)
                          in case r1 of
                               Inl e \<Rightarrow> (Inl e, d2, l1 @ [AL_Log (Pattern_Match u)] @ l2 @ l3)
                             | Inr _ \<Rightarrow>
                                 (let (r, d', l) = process_loop_autolabel srv tok d2 rest
                                  in (r, d', l1 @ [AL_Log (Pattern_Match u)] @ l2 @ l3 @ l)))
                    else (let (r, d', l) = process_loop_autolabel srv tok d rest
                          in (r, d', l1 @ [AL_Log (No_Match username (rv_id review))] @ l)))
               | _ \<Rightarrow> (Inl TypeError, d, l1))))"

text \<open>\<open>process_reviews(reviews, access_token)\<close>: its own connection, then the loop; an
  exception out of the loop is logged by the outer \<open>except\<close>.\<close>

definition process_reviews_autolabel :: "server \<Rightarrow> review list \<Rightarrow> json \<Rightarrow> db \<Rightarrow> db \<times> al_event list" where
  "process_reviews_autolabel srv reviews tok d =
     (if \<not> db_up d then (d, [AL_Log AL_Processing_Error])
      else (let (r, d', l) = process_loop_autolabel srv tok d reviews
            in (d', l @ (case r of Inl _ \<Rightarrow> [AL_Log AL_Processing_Error] | Inr _ \<Rightarrow> []))))"

text \<open>\<open>fetch_open_reviews()\<close> of this script is the function of the same name in
  \<open>dedupe.py\<close> line for line; its log records are the de-duplicator's.\<close>

definition fetch_open_reviews_autolabel :: "db \<Rightarrow> review list \<times> al_event list" where
  "fetch_open_reviews_autolabel d =
     (let (records, l) = fetch_open_reviews d in (records, map (\<lambda>e. AL_Log (AL_Db e)) l))"

text \<open>\<open>main()\<close>: login, \<open>fetch_open_reviews()\<close>, \<open>process_reviews\<close>.\<close>

definition autolabel_main :: "server \<Rightarrow> db \<Rightarrow> (abort + unit) \<times> db \<times> al_event list" where
  "autolabel_main srv d =
     (case get_access_token_autolabel srv API_URL ADMIN_USERNAME ADMIN_PASSWORD of
        (Inl a, l0) \<Rightarrow> (Inl a, d, l0)
      | (Inr tok, l0) \<Rightarrow>
          (let (reviews, l1) = fetch_open_reviews_autolabel d;
               (d', l2) = process_reviews_autolabel srv reviews tok d
           in (Inr (), d', l0 @ l1 @ [AL_Log Processing_Open_Reviews] @ l2
                            @ [AL_Log Processing_Completed])))"

subsection \<open>What a run promises\<close>

text \<open>The handle the service gives for an account; whether the test
  \<open>username and KEYWORD_PATTERN.search(username)\<close> evaluates without raising, and whether
  it holds; which reviews the loop acts on; the identifying columns of a label.\<close>

definition username_of :: "server \<Rightarrow> json \<Rightarrow> string \<Rightarrow> json" where
  "username_of srv tok a = fst (fetch_username_from_did srv API_URL tok (JStr a))"

definition handle_ok :: "json \<Rightarrow> bool" where
  "handle_ok u = (case u of JStr _ \<Rightarrow> True | _ \<Rightarrow> \<not> truthy u)"

definition is_match :: "json \<Rightarrow> bool" where
  "is_match u = (case u of JStr s \<Rightarrow> keyword_search s | _ \<Rightarrow> False)"

definition valid_review :: "review \<Rightarrow> bool" where
  "valid_review rv \<longleftrightarrow> rv_id rv \<noteq> 0 \<and> rv_did rv \<noteq> []"

definition selected :: "server \<Rightarrow> json \<Rightarrow> review \<Rightarrow> bool" where
  "selected srv tok rv \<longleftrightarrow> valid_review rv \<and> is_match (username_of srv tok (rv_did rv))"

definition label_keys :: "label_row list \<Rightarrow> (string \<times> string \<times> string) list" where
  "label_keys ls = map (\<lambda>l. (lbl_src l, lbl_uri l, lbl_val l)) ls"

definition run_outcome :: "(py_exc + unit) \<times> db \<times> al_event list \<Rightarrow> (py_exc + unit) \<times> db" where
  "run_outcome t = (fst t, fst (snd t))"

text \<open>What the branch of a matching review does to the database: the label write on a
  healthy connection, then the \<open>UPDATE\<close>, and whether it raised.\<close>

definition match_step :: "db \<Rightarrow> review \<Rightarrow> (py_exc + unit) \<times> db" where
  "match_step d rv =
     (let t = apply_label_to_did d False (rv_did rv) LABEL
      in run_outcome (mark_review_closed (fst t) (fst (snd t)) (rv_id rv)))"

text \<open>The open reviews as \<open>fetch_open_reviews\<close> returns them, and the rows a run
  closes.\<close>

definition open_reviews :: "db \<Rightarrow> review list" where
  "open_reviews d = map to_review (filter (\<lambda>r. mss_reviewState r = REVIEW_OPEN) (mss d))"

definition al_should_close :: "server \<Rightarrow> json \<Rightarrow> mss_row \<Rightarrow> bool" where
  "al_should_close srv tok r \<longleftrightarrow> mss_reviewState r = REVIEW_OPEN \<and> selected srv tok (to_review r)"

subsection \<open>Lemmas\<close>

lemma prefix_take_iff: "prefix p xs \<longleftrightarrow> take (length p) xs = p"
proof
  assume "prefix p xs" then show "take (length p) xs = p" by (auto simp: prefix_def)
next
  assume "take (length p) xs = p" then show "prefix p xs"
    by (metis append_take_drop_id prefixI)
qed

lemma re_search_sublist: "re_search p s \<longleftrightarrow> sublist p s"
  by (induction s) (simp_all add: sublist_Cons_right prefix_take_iff)

lemma sublist_map_iff: "sublist p (map f u) \<longleftrightarrow> (\<exists>w. sublist w u \<and> map f w = p)"
proof
  assume "sublist p (map f u)"
  then obtain ps ss where "map f u = ps @ p @ ss" by (auto simp: sublist_def)
  then obtain u1 w u3 where "u = u1 @ w @ u3" "map f w = p"
    by (auto simp: map_eq_append_conv append_eq_map_conv)
  then show "\<exists>w. sublist w u \<and> map f w = p" by (auto simp: sublist_def)
next
  assume "\<exists>w. sublist w u \<and> map f w = p"
  then show "sublist p (map f u)" by (auto simp: sublist_def) blast
qed

lemma keyword_search_Nil [simp]: "\<not> keyword_search []"
  by (simp add: keyword_search_def KEYWORD_PATTERN_def)

lemma has_label_keys: "has_label ls a lab \<longleftrightarrow> (LABELER_DID, a, lab) \<in> set (label_keys ls)"
  unfolding has_label_def label_keys_def list_ex_iff by force

lemma apply_label_to_did_db [simp]:
  "db_up (fst (apply_label_to_did d a x lab)) = db_up d"
  "db_failing (fst (apply_label_to_did d a x lab)) = db_failing d"
  "mss (fst (apply_label_to_did d a x lab)) = mss d"
  "prefix (labels d) (labels (fst (apply_label_to_did d a x lab)))"
  by (simp_all add: apply_label_to_did_def Let_def)

lemma apply_label_to_did_keys:
  "label_keys (labels (fst (apply_label_to_did d a x lab))) =
     label_keys (labels d) @
     (if stmt_ok d a (Label_Check x) \<and> \<not> has_label (labels d) x lab \<and> stmt_ok d a (Insert_Label x)
      then [(LABELER_DID, x, lab)] else [])"
  by (simp add: apply_label_to_did_def Let_def label_keys_def)

lemma apply_label_to_did_healthy:
  "db_failing d = [] \<Longrightarrow> \<not> fst (snd (apply_label_to_did d False x lab))"
  by (simp add: apply_label_to_did_def Let_def)

lemma mark_review_closed_raises:
  "fst (mark_review_closed d a i) = (if stmt_ok d a (Update_Review i) then Inr () else Inl DatabaseError)"
  by (simp add: mark_review_closed_def Let_def)

lemma mark_review_closed_db [simp]:
  "db_up (fst (snd (mark_review_closed d a i))) = db_up d"
  "db_failing (fst (snd (mark_review_closed d a i))) = db_failing d"
  "labels (fst (snd (mark_review_closed d a i))) = labels d"
  "mss (fst (snd (mark_review_closed d a i))) =
     (if stmt_ok d a (Update_Review i) then map (close_row i (clock d)) (mss d) else mss d)"
  by (simp_all add: mark_review_closed_def Let_def)

lemma row_key_close_row [simp]: "row_key (close_row i t r) = row_key r"
  by (simp add: close_row_def row_key_def)

lemma match_step_frame [simp]:
  "db_up (snd (match_step d rv)) = db_up d"
  "db_failing (snd (match_step d rv)) = db_failing d"
  "map row_key (mss (snd (match_step d rv))) = map row_key (mss d)"
  "prefix (labels d) (labels (snd (match_step d rv)))"
  by (simp_all add: match_step_def run_outcome_def Let_def comp_def)

lemma match_step_distinct:
  "distinct (label_keys (labels d)) \<Longrightarrow> distinct (label_keys (labels (snd (match_step d rv))))"
  by (auto simp: match_step_def run_outcome_def Let_def apply_label_to_did_keys has_label_keys)

lemma match_step_healthy:
  assumes "db_failing d = []"
  shows "fst (match_step d rv) = Inr ()
   \<and> (\<exists>t. mss (snd (match_step d rv)) = map (close_row (rv_id rv) t) (mss d))
   \<and> set (label_keys (labels (snd (match_step d rv)))) =
       insert (LABELER_DID, rv_did rv, LABEL) (set (label_keys (labels d)))"
  using assms apply_label_to_did_healthy [OF assms, of "rv_did rv" LABEL]
  by (auto simp: match_step_def run_outcome_def Let_def apply_label_to_did_keys has_label_keys
                 mark_review_closed_raises)

lemma match_step_write_fails:
  "Label_Check (rv_did rv) \<in> set (db_failing d) \<or>
   \<not> has_label (labels d) (rv_did rv) LABEL \<and> Insert_Label (rv_did rv) \<in> set (db_failing d) \<Longrightarrow>
   fst (match_step d rv) = Inl DatabaseError \<and> mss (snd (match_step d rv)) = mss d
   \<and> labels (snd (match_step d rv)) = labels d"
  by (auto simp: match_step_def run_outcome_def apply_label_to_did_def mark_review_closed_def stmt_ok_def Let_def)

lemma process_loop_autolabel_skip [simp]:
  "\<not> valid_review rv \<Longrightarrow>
   run_outcome (process_loop_autolabel srv tok d (rv # rest)) = run_outcome (process_loop_autolabel srv tok d rest)"
  by (auto simp: valid_review_def run_outcome_def Let_def split: prod.splits)

lemma process_loop_autolabel_keep [simp]:
  "valid_review rv \<Longrightarrow> handle_ok (username_of srv tok (rv_did rv)) \<Longrightarrow>
   \<not> is_match (username_of srv tok (rv_did rv)) \<Longrightarrow>
   run_outcome (process_loop_autolabel srv tok d (rv # rest)) = run_outcome (process_loop_autolabel srv tok d rest)"
  by (auto simp: valid_review_def run_outcome_def username_of_def handle_ok_def is_match_def Let_def
           split: prod.splits json.splits)

lemma process_loop_autolabel_match:
  "valid_review rv \<Longrightarrow> is_match (username_of srv tok (rv_did rv)) \<Longrightarrow>
   run_outcome (process_loop_autolabel srv tok d (rv # rest)) =
   (case match_step d rv of
      (Inl e, d2) \<Rightarrow> (Inl e, d2)
    | (Inr _, d2) \<Rightarrow> run_outcome (process_loop_autolabel srv tok d2 rest))"
  by (auto simp: valid_review_def run_outcome_def username_of_def is_match_def match_step_def Let_def
           split: prod.splits json.splits sum.splits)

declare process_loop_autolabel.simps(2) [simp del]

lemma process_loop_autolabel_raise:
  "valid_review rv \<Longrightarrow> \<not> handle_ok (username_of srv tok (rv_did rv)) \<Longrightarrow>
   process_loop_autolabel srv tok d (rv # rest) =
     (Inl TypeError, d, snd (fetch_username_from_did srv API_URL tok (JStr (rv_did rv))))"
  by (auto simp: valid_review_def username_of_def handle_ok_def Let_def process_loop_autolabel.simps(2)
           split: prod.splits json.splits)

text \<open>The four ways an iteration can go.\<close>

lemma process_loop_autolabel_step_cases:
  obtains (pass) "\<not> selected srv tok rv"
    "run_outcome (process_loop_autolabel srv tok d (rv # rest)) = run_outcome (process_loop_autolabel srv tok d rest)"
  | (raise) "valid_review rv" "\<not> handle_ok (username_of srv tok (rv_did rv))" "\<not> selected srv tok rv"
    "run_outcome (process_loop_autolabel srv tok d (rv # rest)) = (Inl TypeError, d)"
  | (close) "selected srv tok rv" "fst (match_step d rv) = Inr ()"
    "run_outcome (process_loop_autolabel srv tok d (rv # rest)) =
     run_outcome (process_loop_autolabel srv tok (snd (match_step d rv)) rest)"
  | (fail) e where "selected srv tok rv" "fst (match_step d rv) = Inl e"
    "run_outcome (process_loop_autolabel srv tok d (rv # rest)) = match_step d rv"
proof -
  consider "\<not> valid_review rv"
    | "valid_review rv" "\<not> handle_ok (username_of srv tok (rv_did rv))"
    | "valid_review rv" "handle_ok (username_of srv tok (rv_did rv))" "\<not> is_match (username_of srv tok (rv_did rv))"
    | "valid_review rv" "is_match (username_of srv tok (rv_did rv))"
    by blast
  then show thesis
  proof cases
    case 1
    then show ?thesis using pass by (simp add: selected_def)
  next
    case 2
    then have "\<not> is_match (username_of srv tok (rv_did rv))"
      by (auto simp: handle_ok_def is_match_def split: json.splits)
    with 2 show ?thesis using raise by (simp add: selected_def process_loop_autolabel_raise run_outcome_def)
  next
    case 3
    then show ?thesis using pass by (simp add: selected_def)
  next
    case 4
    show ?thesis
    proof (cases "fst (match_step d rv)")
      case (Inl e)
      then obtain d2 where "match_step d rv = (Inl e, d2)"
        by (cases "match_step d rv") auto
      with 4 show ?thesis using fail [of e] by (simp add: selected_def process_loop_autolabel_match)
    next
      case (Inr u)
      then obtain d2 where "match_step d rv = (Inr u, d2)"
        by (cases "match_step d rv") auto
      with 4 show ?thesis using close by (simp add: selected_def process_loop_autolabel_match)
    qed
  qed
qed

lemma process_loop_autolabel_frame:
  "db_up (snd (run_outcome (process_loop_autolabel srv tok d rs))) = db_up d
   \<and> db_failing (snd (run_outcome (process_loop_autolabel srv tok d rs))) = db_failing d
   \<and> prefix (labels d) (labels (snd (run_outcome (process_loop_autolabel srv tok d rs))))
   \<and> map row_key (mss (snd (run_outcome (process_loop_autolabel srv tok d rs)))) = map row_key (mss d)"
proof (induction rs arbitrary: d)
  case Nil
  then show ?case by (simp add: run_outcome_def)
next
  case (Cons rv rest)
  show ?case
  proof (cases rule: process_loop_autolabel_step_cases [of srv tok rv d rest])
    case close
    with Cons.IH [of "snd (match_step d rv)"] show ?thesis
      by (metis match_step_frame prefix_order.trans)
  qed (use Cons.IH [of d] in simp_all)
qed

lemma process_loop_autolabel_distinct:
  "distinct (label_keys (labels d)) \<Longrightarrow>
   distinct (label_keys (labels (snd (run_outcome (process_loop_autolabel srv tok d rs)))))"
proof (induction rs arbitrary: d)
  case Nil
  then show ?case by (simp add: run_outcome_def)
next
  case (Cons rv rest)
  show ?case
    by (cases rule: process_loop_autolabel_step_cases [of srv tok rv d rest])
       (simp_all add: Cons.IH Cons.prems match_step_distinct)
qed

lemma process_loop_autolabel_cong:
  "(\<And>d. process_loop_autolabel srv tok d r1 = process_loop_autolabel srv tok d r2) \<Longrightarrow>
   process_loop_autolabel srv tok d (x # r1) = process_loop_autolabel srv tok d (x # r2)"
  by (simp only: process_loop_autolabel.simps(2))

lemma process_loop_autolabel_result:
  assumes "\<forall>rv \<in> set rs. valid_review rv \<longrightarrow> handle_ok (username_of srv tok (rv_did rv))"
    and "db_failing d = []"
  shows "fst (run_outcome (process_loop_autolabel srv tok d rs)) = Inr ()
   \<and> map mss_reviewState (mss (snd (run_outcome (process_loop_autolabel srv tok d rs)))) =
       map (\<lambda>r. if mss_id r \<in> rv_id ` {rv \<in> set rs. selected srv tok rv} then REVIEW_CLOSED
                else mss_reviewState r) (mss d)
   \<and> set (label_keys (labels (snd (run_outcome (process_loop_autolabel srv tok d rs))))) =
       set (label_keys (labels d)) \<union> (\<lambda>rv. (LABELER_DID, rv_did rv, LABEL)) ` {rv \<in> set rs. selected srv tok rv}"
  using assms
proof (induction rs arbitrary: d)
  case Nil
  then show ?case by (simp add: run_outcome_def)
next
  case (Cons rv rest)
  show ?case
  proof (cases rule: process_loop_autolabel_step_cases [of srv tok rv d rest])
    case pass
    with Cons.IH [of d] Cons.prems show ?thesis by auto
  next
    case raise
    with Cons.prems(1) have False by simp
    then show ?thesis ..
  next
    case close
    let ?d1 = "snd (match_step d rv)"
    note m = match_step_healthy [OF Cons.prems(2), of rv]
    have ih: "fst (run_outcome (process_loop_autolabel srv tok ?d1 rest)) = Inr ()
      \<and> map mss_reviewState (mss (snd (run_outcome (process_loop_autolabel srv tok ?d1 rest)))) =
          map (\<lambda>r. if mss_id r \<in> rv_id ` {rv \<in> set rest. selected srv tok rv} then REVIEW_CLOSED
                   else mss_reviewState r) (mss ?d1)
      \<and> set (label_keys (labels (snd (run_outcome (process_loop_autolabel srv tok ?d1 rest))))) =
          set (label_keys (labels ?d1)) \<union> (\<lambda>rv. (LABELER_DID, rv_did rv, LABEL)) ` {rv \<in> set rest. selected srv tok rv}"
      using Cons.IH [of ?d1] Cons.prems by simp
    obtain t where t: "mss ?d1 = map (close_row (rv_id rv) t) (mss d)"
      using m by blast
    have "map mss_reviewState (mss (snd (run_outcome (process_loop_autolabel srv tok ?d1 rest)))) =
          map (\<lambda>r. if mss_id r \<in> rv_id ` {rv' \<in> set (rv # rest). selected srv tok rv'} then REVIEW_CLOSED
                   else mss_reviewState r) (mss d)"
      using ih close(1) unfolding t by (auto simp: close_row_def)
    with ih m close show ?thesis by auto
  next
    case (fail e)
    with match_step_healthy [OF Cons.prems(2), of rv] show ?thesis by simp
  qed
qed

lemma autolabel_main_login_fails:
  "get_access_token_autolabel srv API_URL ADMIN_USERNAME ADMIN_PASSWORD = (Inl a, l0) \<Longrightarrow>
   fst (snd (autolabel_main srv d)) = d"
  by (simp add: autolabel_main_def)

lemma autolabel_main_up:
  "get_access_token_autolabel srv API_URL ADMIN_USERNAME ADMIN_PASSWORD = (Inr tok, login_log) \<Longrightarrow> db_up d \<Longrightarrow>
   Select_Open \<notin> set (db_failing d) \<Longrightarrow>
   fst (snd (autolabel_main srv d)) = snd (run_outcome (process_loop_autolabel srv tok d (open_reviews d)))"
  by (simp add: autolabel_main_def process_reviews_autolabel_def fetch_open_reviews_autolabel_def
                fetch_open_reviews_def open_reviews_def stmt_ok_def run_outcome_def split_def Let_def)

lemma autolabel_main_down:
  "\<not> (db_up d \<and> Select_Open \<notin> set (db_failing d)) \<Longrightarrow> fst (snd (autolabel_main srv d)) = d"
  by (auto simp: autolabel_main_def process_reviews_autolabel_def fetch_open_reviews_autolabel_def
                 fetch_open_reviews_def stmt_ok_def split_def Let_def split: prod.splits sum.splits)

lemma autolabel_main_cases:
  obtains (unchanged) "fst (snd (autolabel_main srv d)) = d"
  | (run) tok login_log where "get_access_token_autolabel srv API_URL ADMIN_USERNAME ADMIN_PASSWORD = (Inr tok, login_log)"
      "db_up d" "Select_Open \<notin> set (db_failing d)"
      "fst (snd (autolabel_main srv d)) = snd (run_outcome (process_loop_autolabel srv tok d (open_reviews d)))"
  by (metis autolabel_main_down autolabel_main_login_fails autolabel_main_up sumE surj_pair)

lemma selected_open_reviews:
  "{rv \<in> set (open_reviews d). selected srv tok rv} = to_review ` {r \<in> set (mss d). al_should_close srv tok r}"
  by (auto simp: open_reviews_def al_should_close_def)

lemma selected_ids_eq:
  "rv_id ` {rv \<in> set (open_reviews d). selected srv tok rv} = mss_id ` {r \<in> set (mss d). al_should_close srv tok r}"
  by (simp add: selected_open_reviews image_image)

text \<open>The loop on the open reviews of a healthy database, with the rows it acts on
  named by their columns.\<close>

lemma autolabel_open_reviews_result:
  assumes healthy: "db_failing d = []" and ids: "distinct (map mss_id (mss d))"
    and handles: "\<forall>r \<in> set (mss d). mss_reviewState r = REVIEW_OPEN \<and> mss_id r \<noteq> 0 \<and> mss_did r \<noteq> [] \<longrightarrow>
                    handle_ok (username_of srv tok (mss_did r))"
  shows "fst (run_outcome (process_loop_autolabel srv tok d (open_reviews d))) = Inr ()
   \<and> map mss_reviewState (mss (snd (run_outcome (process_loop_autolabel srv tok d (open_reviews d))))) =
       map (\<lambda>r. if al_should_close srv tok r then REVIEW_CLOSED else mss_reviewState r) (mss d)
   \<and> set (label_keys (labels (snd (run_outcome (process_loop_autolabel srv tok d (open_reviews d)))))) =
       set (label_keys (labels d)) \<union> {(LABELER_DID, mss_did r, LABEL) | r. r \<in> set (mss d) \<and> al_should_close srv tok r}"
proof -
  have ok: "\<forall>rv \<in> set (open_reviews d). valid_review rv \<longrightarrow> handle_ok (username_of srv tok (rv_did rv))"
    using handles by (auto simp: open_reviews_def valid_review_def to_review_def)
  note res = process_loop_autolabel_result [OF ok healthy]
  have "mss_id r \<in> mss_id ` {r \<in> set (mss d). al_should_close srv tok r} \<longleftrightarrow> al_should_close srv tok r"
    if "r \<in> set (mss d)" for r
    using ids that by (auto simp: distinct_map inj_on_def)
  then have st: "map mss_reviewState (mss (snd (run_outcome (process_loop_autolabel srv tok d (open_reviews d))))) =
           map (\<lambda>r. if al_should_close srv tok r then REVIEW_CLOSED else mss_reviewState r) (mss d)"
    using res by (simp add: selected_ids_eq cong: map_cong)
  have "(\<lambda>rv. (LABELER_DID, rv_did rv, LABEL)) ` {rv \<in> set (open_reviews d). selected srv tok rv} =
        {(LABELER_DID, mss_did r, LABEL) | r. r \<in> set (mss d) \<and> al_should_close srv tok r}"
    by (auto simp: selected_open_reviews image_image to_review_def)
  with res st show ?thesis
    by simp
qed

subsection \<open>Properties\<close>

text \<open>C20 (what a run closes and labels). After a successful login, on a reachable
  database with distinct review identifiers where no statement fails, and when no handle
  looked up makes the pattern test raise, a run closes exactly the open reviews with a truthy identifier and
  account whose handle contains \<open>keyword\<close> in any case, leaves every other review's state
  as it was, and the label rows afterwards are those before plus one key for each account
  of a closed review.\<close>

theorem autolabel_main_closes:
  assumes login: "get_access_token_autolabel srv API_URL ADMIN_USERNAME ADMIN_PASSWORD = (Inr tok, login_log)"
    and up: "db_up d" and healthy: "db_failing d = []" and ids: "distinct (map mss_id (mss d))"
    and handles: "\<forall>r \<in> set (mss d). mss_reviewState r = REVIEW_OPEN \<and> mss_id r \<noteq> 0 \<and> mss_did r \<noteq> [] \<longrightarrow>
                    handle_ok (username_of srv tok (mss_did r))"
  shows "map mss_reviewState (mss (fst (snd (autolabel_main srv d)))) =
           map (\<lambda>r. if al_should_close srv tok r then REVIEW_CLOSED else mss_reviewState r) (mss d)
         \<and> set (label_keys (labels (fst (snd (autolabel_main srv d))))) =
           set (label_keys (labels d)) \<union> {(LABELER_DID, mss_did r, LABEL) | r. r \<in> set (mss d) \<and> al_should_close srv tok r}"
  using autolabel_open_reviews_result [OF healthy ids handles] healthy
  by (simp add: autolabel_main_up [OF login up])

text \<open>C21 (at most one label per account). If no two label rows share source, account
  and value before a run, none do after it: the existence check of \<open>apply_label_to_did\<close>
  keeps an account that matches several reviews from being labelled twice.\<close>

theorem autolabel_main_labels_unique:
  "distinct (label_keys (labels d)) \<Longrightarrow> distinct (label_keys (labels (fst (snd (autolabel_main srv d)))))"
  by (cases rule: autolabel_main_cases [of srv d]) (simp_all add: process_loop_autolabel_distinct)

text \<open>C22 (one bad handle ends the batch). When the handle of a review's account is truthy
  but not a string, the pattern test raises \<open>TypeError\<close>, the outer \<open>except\<close> of
  \<open>process_reviews\<close> catches it, and no review after it is looked at: the run on
  \<open>xs @ rv # ys\<close> is the run on \<open>xs @ [rv]\<close>, whatever \<open>ys\<close> is.\<close>

theorem process_loop_autolabel_stops:
  "valid_review rv \<Longrightarrow> \<not> handle_ok (username_of srv tok (rv_did rv)) \<Longrightarrow>
   process_loop_autolabel srv tok d (xs @ rv # ys) = process_loop_autolabel srv tok d (xs @ [rv])"
proof (induction xs arbitrary: d)
  case Nil
  then show ?case by (simp add: process_loop_autolabel_raise)
next
  case (Cons x xs)
  show ?case
    unfolding append_Cons by (rule process_loop_autolabel_cong) (rule Cons.IH [OF Cons.prems])
qed

text \<open>C23 (a failed label write abandons the batch). When the label check of a matching
  review's account fails, or its insert fails, \<open>apply_label_to_did\<close> logs the error and
  returns normally, but the transaction is aborted: the \<open>UPDATE\<close> that follows raises, the
  loop ends with \<open>DatabaseError\<close>, the review stays open and no label is added. The
  comment of the branch promises both the label and the closing.\<close>

theorem process_loop_autolabel_write_failure:
  assumes "selected srv tok rv"
    and "Label_Check (rv_did rv) \<in> set (db_failing d) \<or>
         \<not> has_label (labels d) (rv_did rv) LABEL \<and> Insert_Label (rv_did rv) \<in> set (db_failing d)"
  shows "fst (run_outcome (process_loop_autolabel srv tok d (rv # rest))) = Inl DatabaseError
         \<and> mss (snd (run_outcome (process_loop_autolabel srv tok d (rv # rest)))) = mss d
         \<and> labels (snd (run_outcome (process_loop_autolabel srv tok d (rv # rest)))) = labels d"
proof -
  note m = match_step_write_fails [OF assms(2)]
  show ?thesis
  proof (cases rule: process_loop_autolabel_step_cases [of srv tok rv d rest])
    case (fail e)
    with m show ?thesis by simp
  qed (use assms(1) m in simp_all)
qed

text \<open>The keyword test. \<open>keyword_search u\<close> holds exactly when some substring of
  \<open>u\<close> lower-cases to the pattern \<open>keyword\<close>.\<close>

theorem keyword_search_iff:
  "keyword_search u \<longleftrightarrow> (\<exists>xs w ys. u = xs @ w @ ys \<and> map lower_char w = KEYWORD_PATTERN)"
proof -
  have "keyword_search u \<longleftrightarrow> (\<exists>w. sublist w u \<and> map lower_char w = KEYWORD_PATTERN)"
    by (simp add: keyword_search_def re_search_sublist sublist_map_iff)
  also have "\<dots> \<longleftrightarrow> (\<exists>xs w ys. u = xs @ w @ ys \<and> map lower_char w = KEYWORD_PATTERN)"
    by (auto simp: sublist_def)
  finally show ?thesis .
qed

text \<open>C24 (frame). A run never changes whether the database is reachable, only appends to
  the label table, and never changes the identifier, account or comment of a review, nor
  the number or order of the rows.\<close>

theorem autolabel_main_frame:
  "db_up (fst (snd (autolabel_main srv d))) = db_up d
   \<and> prefix (labels d) (labels (fst (snd (autolabel_main srv d))))
   \<and> map row_key (mss (fst (snd (autolabel_main srv d)))) = map row_key (mss d)"
  by (cases rule: autolabel_main_cases [of srv d]) (simp_all add: process_loop_autolabel_frame)

end
