(* ===== verification/Reporter.thy ===== *)
theory Reporter
  imports Http_Api
begin

text \<open>
  The list reporter \<open>src/reporter.py\<close>, a script without functions: it logs in through
  the \<open>atproto\<close> client, walks the pages of one moderation list by cursor, and then files
  one report per member with a labeler. The client library is only called, so it is an
  interface here: \<open>atproto_client\<close> gives the outcome of \<open>client.login\<close>, the decoded
  answer of \<open>get_list\<close> for given parameters (a JSON object whose keys are the response
  model's attributes), and the outcome of \<open>create_report\<close>. Unlike the snoop scripts'
  fetcher, every exception of the pagination is fatal (\<open>exit(1)\<close>), while a failed report
  is logged and the next member is reported. The lemmas relate the loop to the list's page
  stream (\<open>list_walk\<close>) both ways and show what the script reports.
\<close>

subsection \<open>The client interface\<close>

text \<open>\<open>models.ComAtprotoModerationCreateReport.Data\<close> with its \<open>RepoRef\<close> subject.\<close>

record report_data =
  rd_reason_type :: string
  rd_subject_did :: json
  rd_subject_type :: string
  rd_reason :: string

record atproto_client =
  ac_login :: "py_exc + unit"
  ac_get_list :: "(string \<times> json) list \<Rightarrow> py_exc + json"
  ac_create_report :: "report_data \<Rightarrow> py_exc + json"

datatype rep_call = Login_Call | Get_List "(string \<times> json) list" | Create_Report string report_data

datatype rep_log =
    Rep_Logging_In
  | Rep_Login_Successful
  | Rep_Login_Failed py_exc
  | Fetching_Members string
  | Fetched_Members nat nat
  | Fetched_All nat
  | List_Fetch_Failed py_exc
  | Starting_Reports
  | Reported json json
  | Report_Failed json py_exc
  | Reporting_Completed

datatype rep_event = Rep_Call rep_call | Rep_Log rep_log

type_synonym 'a rep_script = "(abort, rep_event, 'a) run"

subsection \<open>Constants of the script\<close>

definition list_uri :: string where
  "list_uri = ''at://did:plc:foo''"

definition reason_type :: string where
  "reason_type = ''com.atproto.moderation.defs#reasonOther''"

definition reason :: string where
  "reason = ''Right-wing account flagged for moderation.''"

definition labeler_did :: string where
  "labeler_did = ''did:plc:foo''"

subsection \<open>Attribute access\<close>

text \<open>\<open>hasattr(o, k)\<close> and \<open>o.k\<close> on a response model, read as the keys of its JSON
  object; \<open>o.k\<close> raises \<open>AttributeError\<close> when there is no such attribute.\<close>

definition py_hasattr :: "json \<Rightarrow> string \<Rightarrow> bool" where
  "py_hasattr obj k = (case obj of JObj kv \<Rightarrow> dict_lookup kv k \<noteq> None | _ \<Rightarrow> False)"

definition py_getattr :: "json \<Rightarrow> string \<Rightarrow> py_exc + json" where
  "py_getattr obj k =
     (case obj of
        JObj kv \<Rightarrow> (case dict_lookup kv k of Some v \<Rightarrow> Inr v | None \<Rightarrow> Inl AttributeError)
      | _ \<Rightarrow> Inl AttributeError)"

definition subject_did :: "json \<Rightarrow> py_exc + json" where
  "subject_did item = (case py_getattr item ''subject'' of Inl e \<Rightarrow> Inl e | Inr s \<Rightarrow> py_getattr s ''did'')"

subsection \<open>The pagination loop\<close>

text \<open>\<open>params = {'list': list_uri}; if cursor: params['cursor'] = cursor\<close>.\<close>

definition list_params :: "json \<Rightarrow> (string \<times> json) list" where
  "list_params cursor = [(''list'', JStr list_uri)] @ (if truthy cursor then [(''cursor'', cursor)] else [])"

text \<open>One iteration after the call: \<open>members\<close> and \<open>cursor\<close> by \<open>hasattr\<close>, then
  \<open>did_list.extend([item.subject.did for item in members])\<close>, which may raise.\<close>

definition read_list_page :: "json \<Rightarrow> py_exc + (json list \<times> json \<times> nat)" where
  "read_list_page response =
     (let members = (if py_hasattr response ''items'' then sum.projr (py_getattr response ''items'') else JList []);
          cursor = (if py_hasattr response ''cursor'' then sum.projr (py_getattr response ''cursor'') else JNull)
      in case py_iter members of
           Inl e \<Rightarrow> Inl e
         | Inr items \<Rightarrow>
             (case map_sum subject_did items of
                Inl e \<Rightarrow> Inl e
              | Inr dids \<Rightarrow> Inr (dids, cursor, length items)))"

text \<open>\<open>get_list_page cl cursor\<close>: one call of the loop, with the identifiers and cursor
  it yields or the exception it raises.\<close>

definition get_list_page :: "atproto_client \<Rightarrow> json \<Rightarrow> py_exc + (json list \<times> json \<times> nat)" where
  "get_list_page cl cursor =
     (case ac_get_list cl (list_params cursor) of
        Inl e \<Rightarrow> Inl e
      | Inr response \<Rightarrow> read_list_page response)"

text \<open>The \<open>while True\<close> loop entered with \<open>did_list = acc\<close>; \<open>n\<close> is the number of calls
  it may make.\<close>

fun list_loop ::
  "nat \<Rightarrow> atproto_client \<Rightarrow> json list \<Rightarrow> json \<Rightarrow> ((py_exc + json list) \<times> rep_event list) option" where
  "list_loop 0 cl acc cursor = None"
| "list_loop (Suc n) cl acc cursor =
     (let call = Rep_Call (Get_List (list_params cursor)) in
      case get_list_page cl cursor of
        Inl e \<Rightarrow> Some (Inl e, [call])
      | Inr (dids, c, k) \<Rightarrow>
          (let acc' = acc @ dids; ev = [call, Rep_Log (Fetched_Members k (length acc'))] in
           if \<not> truthy c then Some (Inr acc', ev)
           else map_option (\<lambda>(r, evs). (r, ev @ evs)) (list_loop n cl acc' c)))"

subsection \<open>Reporting\<close>

definition mk_report :: "json \<Rightarrow> report_data" where
  "mk_report a_did =
     \<lparr>rd_reason_type = reason_type, rd_subject_did = a_did,
      rd_subject_type = ''com.atproto.admin.defs#repoRef'', rd_reason = reason\<rparr>"

text \<open>\<open>for did in did_list: try ... create_report(report_data) except: log\<close>.\<close>

fun report_all :: "atproto_client \<Rightarrow> json list \<Rightarrow> rep_event list" where
  "report_all cl [] = []"
| "report_all cl (a_did # rest) =
     Rep_Call (Create_Report labeler_did (mk_report a_did)) #
     (case ac_create_report cl (mk_report a_did) of
        Inl e \<Rightarrow> Rep_Log (Report_Failed a_did e)
      | Inr resp \<Rightarrow> Rep_Log (Reported a_did resp)) # report_all cl rest"

text \<open>The script, top to bottom. \<open>n\<close> bounds the calls of the pagination loop.\<close>

definition reporter_run :: "nat \<Rightarrow> atproto_client \<Rightarrow> unit rep_script" where
  "reporter_run n cl =
     (let pre = [Rep_Log Rep_Logging_In, Rep_Call Login_Call] in
      case ac_login cl of
        Inl e \<Rightarrow> Some (Inl (Exit_Status 1), pre @ [Rep_Log (Rep_Login_Failed e)])
      | Inr _ \<Rightarrow>
          (let pre' = pre @ [Rep_Log Rep_Login_Successful, Rep_Log (Fetching_Members list_uri)] in
           case list_loop n cl [] JNull of
             None \<Rightarrow> None
           | Some (Inl e, evs) \<Rightarrow> Some (Inl (Exit_Status 1), pre' @ evs @ [Rep_Log (List_Fetch_Failed e)])
           | Some (Inr did_list, evs) \<Rightarrow>
               Some (Inr (), pre' @ evs @ [Rep_Log (Fetched_All (length did_list)), Rep_Log Starting_Reports]
                             @ report_all cl did_list @ [Rep_Log Reporting_Completed])))"

subsection \<open>The page stream\<close>

text \<open>\<open>list_walk cl c ps ok\<close>: from cursor \<open>c\<close> the client serves the pages \<open>ps\<close> and
  then a page without truthy cursor (\<open>ok\<close>) or an exception (\<open>\<not> ok\<close>).\<close>

inductive list_walk :: "atproto_client \<Rightarrow> json \<Rightarrow> json list list \<Rightarrow> bool \<Rightarrow> bool" for cl where
  list_walk_last: "get_list_page cl c = Inr (dids, c', k) \<Longrightarrow> \<not> truthy c' \<Longrightarrow> list_walk cl c [dids] True"
| list_walk_next: "get_list_page cl c = Inr (dids, c', k) \<Longrightarrow> truthy c' \<Longrightarrow>
    list_walk cl c' ps ok \<Longrightarrow> list_walk cl c (dids # ps) ok"
| list_walk_fail: "get_list_page cl c = Inl e \<Longrightarrow> list_walk cl c [] False"

definition rep_calls :: "rep_event list \<Rightarrow> rep_call list" where
  "rep_calls evs = [c. Rep_Call c \<leftarrow> evs]"

definition reported :: "rep_event list \<Rightarrow> json list" where
  "reported evs = [rd_subject_did r. Rep_Call (Create_Report _ r) \<leftarrow> evs]"

subsection \<open>Lemmas\<close>

lemma list_loop_Suc_error [simp]:
  "get_list_page cl c = Inl e \<Longrightarrow> list_loop (Suc n) cl acc c = Some (Inl e, [Rep_Call (Get_List (list_params c))])"
  by simp

lemma list_loop_Suc_last [simp]:
  "get_list_page cl c = Inr (dids, c', k) \<Longrightarrow> \<not> truthy c' \<Longrightarrow>
   list_loop (Suc n) cl acc c =
     Some (Inr (acc @ dids), [Rep_Call (Get_List (list_params c)), Rep_Log (Fetched_Members k (length (acc @ dids)))])"
  by simp

lemma list_loop_Suc_next [simp]:
  "get_list_page cl c = Inr (dids, c', k) \<Longrightarrow> truthy c' \<Longrightarrow>
   list_loop (Suc n) cl acc c =
     map_option (\<lambda>(r, evs). (r, [Rep_Call (Get_List (list_params c)), Rep_Log (Fetched_Members k (length (acc @ dids)))] @ evs))
       (list_loop n cl (acc @ dids) c')"
  by simp

declare list_loop.simps(2) [simp del]

lemma rep_calls_simps [simp]:
  "rep_calls [] = []"
  "rep_calls (Rep_Call c # evs) = c # rep_calls evs"
  "rep_calls (Rep_Log l # evs) = rep_calls evs"
  "rep_calls (evs @ evs') = rep_calls evs @ rep_calls evs'"
  by (simp_all add: rep_calls_def)

lemma reported_simps [simp]:
  "reported [] = []"
  "reported (Rep_Call (Create_Report x r) # evs) = rd_subject_did r # reported evs"
  "reported (Rep_Call Login_Call # evs) = reported evs"
  "reported (Rep_Call (Get_List p) # evs) = reported evs"
  "reported (Rep_Log l # evs) = reported evs"
  "reported (evs @ evs') = reported evs @ reported evs'"
  by (simp_all add: reported_def)

lemma list_loop_walk:
  assumes "list_walk cl c ps ok" and "walk_steps ps ok \<le> n"
  shows "\<exists>r evs. list_loop n cl acc c = Some (r, evs) \<and> (ok \<longrightarrow> r = Inr (acc @ concat ps)) \<and> (\<not> ok \<longrightarrow> isl r)
           \<and> length (rep_calls evs) = walk_steps ps ok \<and> reported evs = []"
  using assms
proof (induction arbitrary: n acc rule: list_walk.induct)
  case (list_walk_last c dids c' k)
  then obtain m where "n = Suc m" by (cases n) (auto simp: walk_steps_def)
  with list_walk_last show ?case by (simp add: walk_steps_def)
next
  case (list_walk_next c dids c' k ps ok)
  then obtain m where n: "n = Suc m" and m: "walk_steps ps ok \<le> m"
    by (cases n) (auto simp: walk_steps_def)
  from list_walk_next.IH [OF m, of "acc @ dids"] obtain r evs where
    "list_loop m cl (acc @ dids) c' = Some (r, evs)" "ok \<longrightarrow> r = Inr (acc @ dids @ concat ps)"
    "\<not> ok \<longrightarrow> isl r" "length (rep_calls evs) = walk_steps ps ok" "reported evs = []"
    by auto
  with n list_walk_next.hyps(1,2) show ?case by (simp add: walk_steps_def)
next
  case (list_walk_fail c e)
  then obtain m where "n = Suc m" by (cases n) (auto simp: walk_steps_def)
  with list_walk_fail show ?case by (simp add: walk_steps_def)
qed

lemma list_loop_complete:
  "list_loop n cl acc c = Some (r, evs) \<Longrightarrow>
   \<exists>ps ok. list_walk cl c ps ok \<and> walk_steps ps ok \<le> n \<and> (ok \<longrightarrow> r = Inr (acc @ concat ps)) \<and> (\<not> ok \<longrightarrow> isl r)"
proof (induction n arbitrary: acc c r evs)
  case 0
  then show ?case by simp
next
  case (Suc n)
  show ?case
  proof (cases "get_list_page cl c")
    case (Inl e)
    with Suc.prems have "r = Inl e" by simp
    with Inl show ?thesis
      by (intro exI [of _ "[]"] exI [of _ False]) (auto intro: list_walk_fail simp: walk_steps_def)
  next
    case (Inr p)
    then obtain dids c' k where p: "get_list_page cl c = Inr (dids, c', k)" by (cases p) auto
    show ?thesis
    proof (cases "truthy c'")
      case True
      with Suc.prems p obtain evs' where "list_loop n cl (acc @ dids) c' = Some (r, evs')" by auto
      from Suc.IH [OF this] obtain ps ok where
        w: "list_walk cl c' ps ok" "walk_steps ps ok \<le> n" "ok \<longrightarrow> r = Inr ((acc @ dids) @ concat ps)" "\<not> ok \<longrightarrow> isl r"
        by blast
      from p True w(1) have "list_walk cl c (dids # ps) ok" by (rule list_walk_next)
      with w show ?thesis
        by (intro exI [of _ "dids # ps"] exI [of _ ok]) (simp add: walk_steps_def)
    next
      case False
      with Suc.prems p have "r = Inr (acc @ dids)" by simp
      moreover from p False have "list_walk cl c [dids] True" by (rule list_walk_last)
      ultimately show ?thesis
        by (intro exI [of _ "[dids]"] exI [of _ True]) (simp add: walk_steps_def)
    qed
  qed
qed

lemma reported_report_all [simp]: "reported (report_all cl dids) = dids"
  by (induction dids) (simp_all add: mk_report_def split: sum.splits)

lemma reporter_run_login_ok:
  "ac_login cl = Inr u \<Longrightarrow> list_loop n cl [] JNull = Some (r, evs) \<Longrightarrow>
   reporter_run n cl =
     (let pre' = [Rep_Log Rep_Logging_In, Rep_Call Login_Call, Rep_Log Rep_Login_Successful,
                  Rep_Log (Fetching_Members list_uri)] in
      case r of
        Inl e \<Rightarrow> Some (Inl (Exit_Status 1), pre' @ evs @ [Rep_Log (List_Fetch_Failed e)])
      | Inr did_list \<Rightarrow>
          Some (Inr (), pre' @ evs @ [Rep_Log (Fetched_All (length did_list)), Rep_Log Starting_Reports]
                        @ report_all cl did_list @ [Rep_Log Reporting_Completed]))"
  by (simp add: reporter_run_def split: sum.splits)

subsection \<open>Properties\<close>

text \<open>C25 (every member is reported). When the login succeeds and the list's pages end
  with one without cursor within the fuel, the script completes and files exactly one
  report per entry of the pages, in list order; a failed report does not stop the
  others.\<close>

theorem reporter_reports_all:
  assumes "ac_login cl = Inr ()" and "list_walk cl JNull ps True" and "length ps \<le> n"
  shows "\<exists>evs. reporter_run n cl = Some (Inr (), evs) \<and> reported evs = concat ps"
proof -
  from list_loop_walk [OF assms(2), of n "[]"] assms(3) obtain evs where
    "list_loop n cl [] JNull = Some (Inr (concat ps), evs)" "reported evs = []"
    by (auto simp: walk_steps_def)
  with assms(1) show ?thesis
    by (simp add: reporter_run_login_ok)
qed

text \<open>C26 (a pagination failure is fatal). When a page request or the reading of a page
  raises, the script exits with status 1 and files no report at all, not even for the
  members of the pages already read.\<close>

theorem reporter_list_failure_fatal:
  assumes "ac_login cl = Inr ()" and "list_walk cl JNull ps False" and "walk_steps ps False \<le> n"
  shows "\<exists>evs. reporter_run n cl = Some (Inl (Exit_Status 1), evs) \<and> reported evs = []"
proof -
  from list_loop_walk [OF assms(2,3), of "[]"] obtain r evs where
    "list_loop n cl [] JNull = Some (r, evs)" "isl r" "reported evs = []"
    by auto
  with assms(1) show ?thesis
    by (cases r) (simp_all add: reporter_run_login_ok)
qed

text \<open>C27 (the script ends exactly on finite lists). With fuel \<open>n\<close> the script returns if
  and only if the login fails or the list serves, from the first request, a page walk
  that ends (without cursor or by an exception) within \<open>n\<close> requests.\<close>

theorem reporter_returns_iff:
  "(\<exists>r. reporter_run n cl = Some r) \<longleftrightarrow>
   isl (ac_login cl) \<or> (\<exists>ps ok. list_walk cl JNull ps ok \<and> walk_steps ps ok \<le> n)"
proof (cases "ac_login cl")
  case (Inl e)
  then show ?thesis by (simp add: reporter_run_def)
next
  case (Inr u)
  have "(\<exists>r. list_loop n cl [] JNull = Some r) \<longleftrightarrow> (\<exists>ps ok. list_walk cl JNull ps ok \<and> walk_steps ps ok \<le> n)"
    using list_loop_complete list_loop_walk by fastforce
  with Inr show ?thesis
    by (auto simp: reporter_run_def Let_def split: option.splits sum.splits prod.splits)
qed

end
