(* ===== verification/Reportbot.thy ===== *)
theory Reportbot
  imports Dedupe
begin

text \<open>
  The Discord relay \<open>src/reportbot.py\<close>: a \<open>discord.py\<close> client whose periodic task
  \<open>check_new_reviews\<close> runs every 60 seconds, reads the open reviews from the moderation
  database (its own copy of \<open>fetch_open_reviews\<close>, which differs from the one of
  \<open>src/dedupe.py\<close> in its early return and its default comment) and posts one embed per
  review to a channel. The database is the \<open>db\<close> record of Dedupe; Discord is an interface
  (\<open>discord_env\<close>: whether \<open>get_channel\<close> finds the channel, and whether \<open>channel.send\<close>
  succeeds for a given embed). The bot's state is the database, the embeds posted so far
  and the log. The bot runs alongside the moderation tool, so its life is a step relation
  \<open>bot_step\<close>: a tick of the task, or a change of the database by the tool (a new open
  review, a review closed, the database going down or up). The lemmas show what a tick
  posts, that nothing the bot posts describes a review absent from the database, that the
  footer of a post gives back the review's identifier, and that on an unchanged database
  every tick posts every open review again.
\<close>

definition DISCORD_CHANNEL_ID :: nat where
  "DISCORD_CHANNEL_ID = 123456789012345678"

subsection \<open>Reading the open reviews\<close>

definition NO_COMMENT :: string where
  "NO_COMMENT = ''No comment provided''"

text \<open>\<open>comment or "No comment provided"\<close>: \<open>None\<close> and the empty string are falsy.\<close>

definition comment_or_default :: "string option \<Rightarrow> string" where
  "comment_or_default c = (case c of None \<Rightarrow> NO_COMMENT | Some s \<Rightarrow> if s = [] then NO_COMMENT else s)"

record bot_review =
  br_id :: int
  br_did :: string
  br_reviewState :: string
  br_comment :: string

definition to_bot_review :: "mss_row \<Rightarrow> bot_review" where
  "to_bot_review r =
     \<lparr>br_id = mss_id r, br_did = mss_did r, br_reviewState = mss_reviewState r,
      br_comment = comment_or_default (mss_comment r)\<rparr>"

datatype bot_log =
    Bot_Connecting
  | No_Open_Reviews
  | Bot_Fetched nat
  | Bot_Fetch_Failed
  | Channel_Not_Found
  | Sent_Review int
  | Send_Failed int
  | Bot_Logged_In

text \<open>\<open>fetch_open_reviews\<close> of \<open>src/reportbot.py\<close>: an empty result returns at once (the
  connection stays open, which is not observable here); a failed connection or query is
  logged and yields no records.\<close>

definition fetch_open_reviews_bot :: "db \<Rightarrow> bot_review list \<times> bot_log list" where
  "fetch_open_reviews_bot d =
     (if \<not> (db_up d \<and> stmt_ok d False Select_Open) then ([], [Bot_Connecting, Bot_Fetch_Failed])
      else (let results = filter (\<lambda>r. mss_reviewState r = REVIEW_OPEN) (mss d)
            in if results = [] then ([], [Bot_Connecting, No_Open_Reviews])
               else (map to_bot_review results, [Bot_Connecting, Bot_Fetched (length results)])))"

subsection \<open>Printing the review identifier\<close>

text \<open>\<open>f"Review ID: {report['id']}"\<close> prints the integer in decimal, with a minus sign
  when negative, as Python's \<open>str(int)\<close> does.\<close>

definition DIGITS :: string where
  "DIGITS = ''0123456789''"

definition digit_char :: "nat \<Rightarrow> char" where
  "digit_char k = DIGITS ! k"

fun decimal :: "nat \<Rightarrow> string" where
  "decimal n = (if n < 10 then [digit_char n] else decimal (n div 10) @ [digit_char (n mod 10)])"

definition show_int :: "int \<Rightarrow> string" where
  "show_int i = (if i < 0 then CHR ''-'' # decimal (nat (- i)) else decimal (nat i))"

subsection \<open>Posting\<close>

text \<open>The \<open>discord.Embed\<close> built for a review: title, description, colour
  (\<open>discord.Color.blue()\<close> is \<open>0x3498db\<close>) and footer text.\<close>

record embed =
  em_title :: string
  em_description :: string
  em_color :: nat
  em_footer :: string

definition mk_embed :: "bot_review \<Rightarrow> embed" where
  "mk_embed report =
     \<lparr>em_title = ''New Ozone Review'',
      em_description = ''**DID**: '' @ br_did report @ [CHR 0x0A] @ ''**Comment**: '' @ br_comment report,
      em_color = 0x3498db,
      em_footer = ''Review ID: '' @ show_int (br_id report)\<rparr>"

record discord_env =
  dc_channel :: bool
  dc_send_ok :: "embed \<Rightarrow> bool"

text \<open>\<open>send_report_to_discord\<close>: the posted embeds (none or one) and the log.\<close>

definition send_report_to_discord :: "discord_env \<Rightarrow> bot_review \<Rightarrow> embed list \<times> bot_log list" where
  "send_report_to_discord dc report =
     (if \<not> dc_channel dc then ([], [Channel_Not_Found])
      else (let e = mk_embed report
            in if dc_send_ok dc e then ([e], [Sent_Review (br_id report)])
               else ([], [Send_Failed (br_id report)])))"

fun send_all :: "discord_env \<Rightarrow> bot_review list \<Rightarrow> embed list \<times> bot_log list" where
  "send_all dc [] = ([], [])"
| "send_all dc (review # rest) =
     (let (es, l) = send_report_to_discord dc review; (es', l') = send_all dc rest
      in (es @ es', l @ l'))"

record bot_state =
  bot_db :: db
  sent :: "embed list"
  bot_logs :: "bot_log list"

text \<open>One run of the periodic task \<open>check_new_reviews\<close>.\<close>

definition check_new_reviews :: "discord_env \<Rightarrow> bot_state \<Rightarrow> bot_state" where
  "check_new_reviews dc s =
     (let (new_reviews, l1) = fetch_open_reviews_bot (bot_db s);
          (es, l2) = send_all dc new_reviews
      in s\<lparr>sent := sent s @ es, bot_logs := bot_logs s @ l1 @ l2\<rparr>)"

text \<open>\<open>on_ready\<close> logs in and starts the task; \<open>client.run\<close> then runs it every 60
  seconds. \<open>reportbot_main dc d k\<close> is the bot after \<open>k\<close> runs of the task on a database
  nobody else changes.\<close>

definition bot_init :: "db \<Rightarrow> bot_state" where
  "bot_init d = \<lparr>bot_db = d, sent = [], bot_logs = [Bot_Logged_In]\<rparr>"

definition reportbot_main :: "discord_env \<Rightarrow> db \<Rightarrow> nat \<Rightarrow> bot_state" where
  "reportbot_main dc d k = (check_new_reviews dc ^^ k) (bot_init d)"

subsection \<open>The bot beside the moderation tool\<close>

text \<open>What the moderation tool may do between two ticks: open a review with a fresh
  identifier, close a review (the \<open>UPDATE\<close> of the other scripts), or make the database
  unreachable or reachable again.\<close>

inductive bot_step :: "discord_env \<Rightarrow> bot_state \<Rightarrow> bot_state \<Rightarrow> bool" for dc where
  tick: "bot_step dc s (check_new_reviews dc s)"
| review_opened: "mss_reviewState r = REVIEW_OPEN \<Longrightarrow> mss_id r \<notin> set (map mss_id (mss (bot_db s))) \<Longrightarrow>
    bot_step dc s (s\<lparr>bot_db := (bot_db s)\<lparr>mss := mss (bot_db s) @ [r]\<rparr>\<rparr>)"
| review_closed: "bot_step dc s (s\<lparr>bot_db := (bot_db s)\<lparr>mss := map (close_row i t) (mss (bot_db s))\<rparr>\<rparr>)"
| availability: "bot_step dc s (s\<lparr>bot_db := (bot_db s)\<lparr>db_up := b\<rparr>\<rparr>)"

inductive bot_reachable :: "discord_env \<Rightarrow> bot_state \<Rightarrow> bool" for dc where
  start: "distinct (map mss_id (mss d)) \<Longrightarrow> bot_reachable dc (bot_init d)"
| step: "bot_reachable dc s \<Longrightarrow> bot_step dc s t \<Longrightarrow> bot_reachable dc t"

subsection \<open>What the bot promises\<close>

text \<open>Reading a footer back: the digits after \<open>Review ID: \<close>, with an optional minus
  sign.\<close>

definition digit_value :: "char \<Rightarrow> nat option" where
  "digit_value c = map_of (zip DIGITS [0..<10]) c"

fun parse_digits :: "nat \<Rightarrow> string \<Rightarrow> nat option" where
  "parse_digits acc [] = Some acc"
| "parse_digits acc (c # cs) = (case digit_value c of None \<Rightarrow> None | Some v \<Rightarrow> parse_digits (10 * acc + v) cs)"

definition read_int :: "string \<Rightarrow> int option" where
  "read_int s =
     (case s of
        [] \<Rightarrow> None
      | c # t \<Rightarrow> if c = CHR ''-'' then (if t = [] then None else map_option (\<lambda>n. - int n) (parse_digits 0 t))
                 else map_option int (parse_digits 0 s))"

definition read_footer :: "string \<Rightarrow> int option" where
  "read_footer s = (if take 11 s = ''Review ID: '' then read_int (drop 11 s) else None)"

text \<open>The embed of a database row, the open rows in table order, and what a tick posts.\<close>

definition review_embed :: "mss_row \<Rightarrow> embed" where
  "review_embed r = mk_embed (to_bot_review r)"

definition open_rows :: "db \<Rightarrow> mss_row list" where
  "open_rows d = filter (\<lambda>r. mss_reviewState r = REVIEW_OPEN) (mss d)"

definition new_posts :: "discord_env \<Rightarrow> db \<Rightarrow> embed list" where
  "new_posts dc d = (if dc_channel dc \<and> db_up d \<and> Select_Open \<notin> set (db_failing d) then filter (dc_send_ok dc) (map review_embed (open_rows d)) else [])"

subsection \<open>Lemmas\<close>

lemma digit_value_digit_char [simp]: "k < 10 \<Longrightarrow> digit_value (digit_char k) = Some k"
proof -
  assume "k < 10"
  then have "k \<in> {0,1,2,3,4,5,6,7,8,9}" by auto
  then show ?thesis
    by (auto simp: digit_value_def digit_char_def DIGITS_def upt_rec)
qed

lemma digit_char_not_minus [simp]: "k < 10 \<Longrightarrow> digit_char k \<noteq> CHR ''-''"
proof -
  assume "k < 10"
  then have "k \<in> {0,1,2,3,4,5,6,7,8,9}" by auto
  then show ?thesis by (auto simp: digit_char_def DIGITS_def)
qed

declare decimal.simps [simp del]

lemma decimal_Cons: "\<exists>k cs. k < 10 \<and> decimal n = digit_char k # cs"
proof (induction n rule: decimal.induct)
  case (1 n)
  then show ?case by (cases "n < 10") (auto simp: decimal.simps [of n])
qed

lemma parse_digits_append:
  "parse_digits acc (xs @ ys) = Option.bind (parse_digits acc xs) (\<lambda>a. parse_digits a ys)"
  by (induction acc xs rule: parse_digits.induct) (simp_all split: option.splits)

lemma parse_digits_decimal:
  "parse_digits acc (decimal n) = Some (acc * 10 ^ length (decimal n) + n)"
proof (induction n arbitrary: acc rule: decimal.induct)
  case (1 n)
  show ?case
  proof (cases "n < 10")
    case True
    then show ?thesis by (simp add: decimal.simps [of n])
  next
    case False
    then have "decimal n = decimal (n div 10) @ [digit_char (n mod 10)]"
      by (simp add: decimal.simps [of n])
    moreover have "10 * (acc * 10 ^ length (decimal (n div 10)) + n div 10) + n mod 10 =
                   acc * 10 ^ Suc (length (decimal (n div 10))) + n"
      by (simp add: algebra_simps)
    ultimately show ?thesis
      using "1.IH" [OF False] by (simp add: parse_digits_append)
  qed
qed

lemma read_int_show_int: "read_int (show_int i) = Some i"
proof -
  obtain k cs where k: "k < 10" "decimal (nat \<bar>i\<bar>) = digit_char k # cs"
    using decimal_Cons by blast
  have p: "parse_digits 0 (decimal m) = Some m" for m
    using parse_digits_decimal [of 0 m] by simp
  show ?thesis
  proof (cases "i < 0")
    case True
    with k p [of "nat (- i)"] show ?thesis
      by (simp add: show_int_def read_int_def)
  next
    case False
    with k p [of "nat i"] show ?thesis
      by (simp add: show_int_def read_int_def)
  qed
qed

lemma send_all_posts:
  "fst (send_all dc rs) = (if dc_channel dc then filter (dc_send_ok dc) (map mk_embed rs) else [])"
  by (induction rs) (auto simp: send_report_to_discord_def Let_def split_def)

lemma fetch_open_reviews_bot_reviews:
  "fst (fetch_open_reviews_bot d) =
     (if db_up d \<and> Select_Open \<notin> set (db_failing d) then map to_bot_review (open_rows d) else [])"
  by (simp add: fetch_open_reviews_bot_def open_rows_def stmt_ok_def Let_def)

lemma check_new_reviews_db [simp]: "bot_db (check_new_reviews dc s) = bot_db s"
  by (simp add: check_new_reviews_def split_def Let_def)

lemma check_new_reviews_sent:
  "sent (check_new_reviews dc s) = sent s @ new_posts dc (bot_db s)"
  using send_all_posts [of dc "fst (fetch_open_reviews_bot (bot_db s))"]
  by (auto simp: check_new_reviews_def split_def new_posts_def fetch_open_reviews_bot_reviews review_embed_def [abs_def]
                 comp_def)

lemma funpow_check_new_reviews:
  "bot_db (((check_new_reviews dc) ^^ k) s) = bot_db s
   \<and> sent (((check_new_reviews dc) ^^ k) s) = sent s @ concat (replicate k (new_posts dc (bot_db s)))"
proof (induction k arbitrary: s)
  case 0
  then show ?case by simp
next
  case (Suc k)
  from Suc.IH [of "check_new_reviews dc s"] show ?case
    by (simp add: funpow_Suc_right check_new_reviews_sent del: funpow.simps)
qed

lemma review_embed_close_row [simp]: "review_embed (close_row i t r) = review_embed r"
  by (simp add: review_embed_def close_row_def to_bot_review_def mk_embed_def)

lemma mss_id_close_row [simp]: "mss_id (close_row i t r) = mss_id r"
  by (simp add: close_row_def)

inductive_cases bot_stepE: "bot_step dc s t"

lemma bot_step_invariants:
  assumes "bot_step dc s t"
    and "distinct (map mss_id (mss (bot_db s)))"
    and "set (sent s) \<subseteq> review_embed ` set (mss (bot_db s))"
  shows "distinct (map mss_id (mss (bot_db t))) \<and> set (sent t) \<subseteq> review_embed ` set (mss (bot_db t))"
  using assms(1)
proof cases
  case tick
  with assms(2,3) show ?thesis
    by (auto simp: check_new_reviews_sent new_posts_def open_rows_def)
next
  case (review_opened r)
  with assms(2,3) show ?thesis by auto
next
  case (review_closed i t)
  have "review_embed ` set (mss (bot_db s)) = review_embed ` close_row i t ` set (mss (bot_db s))"
    by (simp add: image_image)
  with review_closed assms(2,3) show ?thesis
    by (simp add: comp_def)
next
  case (availability b)
  with assms(2,3) show ?thesis by simp
qed

lemma bot_reachable_invariants:
  "bot_reachable dc s \<Longrightarrow>
   distinct (map mss_id (mss (bot_db s))) \<and> set (sent s) \<subseteq> review_embed ` set (mss (bot_db s))"
proof (induction rule: bot_reachable.induct)
  case (start d)
  then show ?case by (simp add: bot_init_def)
next
  case (step s t)
  then show ?case using bot_step_invariants by blast
qed

subsection \<open>Properties\<close>

text \<open>The bot only announces existing reviews. In every state the bot can reach
  beside the moderation tool, each embed it has posted is the embed of a review row still
  in the database (rows are closed, never removed, and closing keeps identifier, account
  and comment).\<close>

theorem bot_reachable_posts_exist:
  "bot_reachable dc s \<Longrightarrow> e \<in> set (sent s) \<Longrightarrow> \<exists>r. r \<in> set (mss (bot_db s)) \<and> e = review_embed r"
  using bot_reachable_invariants by blast

text \<open>Review identifiers stay a key. Starting from a database whose review
  identifiers are distinct, they stay distinct in every reachable state.\<close>

theorem bot_reachable_distinct_ids:
  "bot_reachable dc s \<Longrightarrow> distinct (map mss_id (mss (bot_db s)))"
  using bot_reachable_invariants by blast

text \<open>C28 (what a tick posts). A run of \<open>check_new_reviews\<close> posts, after what was already
  posted, the embed of every open review in table order whose send succeeds, provided the
  database is reachable and the channel exists, and nothing otherwise; it never writes the
  database.\<close>

theorem check_new_reviews_posts:
  "sent (check_new_reviews dc s) = sent s @ new_posts dc (bot_db s)
   \<and> bot_db (check_new_reviews dc s) = bot_db s"
  by (simp add: check_new_reviews_sent)

text \<open>C29 (every tick resends every open review). After \<open>k\<close> runs of the task on a
  database nobody changes, the posts are the posts of one run repeated \<open>k\<close> times: a
  review that stays open is announced again every 60 seconds.\<close>

theorem reportbot_main_resends:
  "sent (reportbot_main dc d k) = concat (replicate k (new_posts dc d))"
  using funpow_check_new_reviews [where dc = dc and k = k and s = "bot_init d"]
  by (simp add: reportbot_main_def bot_init_def)

text \<open>The footer identifies the review. Reading back the footer of a posted embed
  gives the review's identifier.\<close>

theorem read_footer_mk_embed: "read_footer (em_footer (mk_embed r)) = Some (br_id r)"
  by (simp add: read_footer_def mk_embed_def read_int_show_int)

end
