(* ===== verification/Spec2Isabelle.thy ===== *)
theory Spec2Isabelle
  imports Scenarios Dedupe Autolabel Reporter Reportbot
begin

text \<open>
  \<^bold>\<open>A verification development of ozone-scripts.\<close>

  \<^bold>\<open>The program.\<close> The repository is six Python scripts. The core, and what this
  development models, is the pair \<open>src/mutualsnoop.py\<close> and \<open>src/dualmutualsnoop.py\<close>:
  they log into a Bluesky server, walk the paginated follows and followers lists of one
  (or two) target accounts, intersect the identifier sets, and fetch a profile for every
  identifier left. Their parts, leaf first, and how they call each other:
  \<^item> session acquisition, \<open>get_access_token\<close>: one POST; its token is read by every
    later request (a module global in the source);
  \<^item> RelationshipFetcher, \<open>fetch_follows\<close> / \<open>fetch_followers\<close>: a \<open>while True\<close> loop
    over pages linked by an opaque cursor, which stops on a page without cursor or on any
    failure and returns \<open>set(...)\<close> of what it gathered;
  \<^item> SetIntersector, the \<open>&\<close> of Python sets in \<open>find_mutual_connections\<close> and
    \<open>find_common_accounts\<close>;
  \<^item> ProfileEnricher, \<open>fetch_account_details\<close> and the loop that keeps its successes;
  \<^item> Orchestrator, \<open>find_mutual_connections\<close> / \<open>find_common_accounts\<close> and the two
    \<open>main\<close> functions, which run the above in sequence and print the results.
  The other four scripts automate a moderation queue in a PostgreSQL database and relay
  it to Discord; the specification puts them out of its scope. Of these, the review
  de-duplicator \<open>src/dedupe.py\<close> is modelled: \<open>process_reviews\<close> reads the open
  reviews (\<open>fetch_open_reviews\<close>), asks for each whether its account carries the
  label (\<open>label_exists\<close>) and closes it if so (\<open>close_review\<close>). So is the
  auto-labeller \<open>src/autolabel.py\<close>, which uses both sides: it logs into the service,
  reads the open reviews with the same \<open>fetch_open_reviews\<close>, looks up each account's
  handle over HTTP, and labels the account and closes the review when the handle contains
  \<open>keyword\<close>. The list reporter \<open>src/reporter.py\<close> walks a moderation list through the
  \<open>atproto\<close> client and reports each member to a labeler; the Discord relay
  \<open>src/reportbot.py\<close> posts the open reviews of the database to a channel every 60
  seconds, beside the moderation tool that opens and closes them. Every script of the
  repository is modelled.

  \<^bold>\<open>The theories.\<close>
  \<^item> \<open>Prelude\<close>: the type \<open>('x, 'e, 'a) run\<close> of a run of code (\<open>None\<close>: out of
    fuel; \<open>Some (Inl x, evs)\<close>: stopped with \<open>x\<close>; \<open>Some (Inr a, evs)\<close>: returned
    \<open>a\<close>; \<open>evs\<close> the events emitted, in order), its sequencing \<open>bind_run\<close>, and the
    list helpers \<open>dedup\<close> and \<open>map_sum\<close>.
  \<^item> \<open>Py_Json\<close>: JSON values and the Python operations the scripts apply to them
    (\<open>truthy\<close>, \<open>py_get\<close> for \<open>.get\<close>, \<open>py_iter\<close>, \<open>py_subscript\<close>, \<open>py_set\<close>,
    \<open>py_inter\<close>), each raising what Python raises.
  \<^item> \<open>Http_Api\<close>: requests, responses, the \<open>server\<close> (a function from requests to
    responses), the log records and the events.
  \<^item> \<open>Session\<close>: \<open>get_access_token\<close>.
  \<^item> \<open>Fetcher\<close>: \<open>page_request\<close>, \<open>read_page\<close>, \<open>get_page\<close> (one iteration),
    \<open>fetch_loop\<close> (the loop), \<open>fetch_relationship\<close> with \<open>fetch_follows\<close> and
    \<open>fetch_followers\<close>; and the inductive \<open>walk\<close>, the abstract page stream.
  \<^item> \<open>Enricher\<close>: \<open>profile_request\<close>, \<open>read_profile\<close>, \<open>fetch_account_details\<close>,
    \<open>mk_result\<close> and the fan-out \<open>enrich_all\<close>.
  \<^item> \<open>Orchestrator\<close>: \<open>find_mutual_connections\<close>, \<open>mutualsnoop_run\<close> and
    \<open>mutualsnoop_main\<close>; \<open>find_common_accounts\<close>, \<open>dualmutualsnoop_run\<close> and
    \<open>dualmutualsnoop_main\<close>.
  \<^item> \<open>Scenarios\<close>: a simulated service that serves configured page lists, the services
    of the specification's scenarios, and the lemma \<open>sim_walk\<close> that such a service
    serves exactly the configured walk.
  \<^item> \<open>Dedupe\<close>: the database record \<open>db\<close> (the columns of
    \<open>moderation_subject_status\<close> and \<open>label\<close> the script touches, whether the
    connection opens, a clock for \<open>datetime.utcnow()\<close>, and the statements
    \<open>db_stmt\<close> the server rejects), \<open>stmt_ok\<close> (whether a statement succeeds on a
    connection, given whether its transaction is aborted), \<open>fetch_open_reviews\<close>,
    \<open>label_exists\<close>, \<open>close_review\<close>, the loop \<open>process_loop\<close>,
    \<open>process_reviews\<close> and \<open>dedupe_main\<close> (the \<open>__main__\<close> block). Each returns the
    new database and its log records; the statements on the shared connection also
    return its new state.
  \<^item> \<open>Autolabel\<close>: the keyword test (\<open>lower_char\<close>, \<open>re_search\<close>,
    \<open>keyword_search\<close>), \<open>get_access_token_autolabel\<close>, \<open>fetch_username_from_did\<close>,
    \<open>apply_label_to_did\<close>, \<open>mark_review_closed\<close> (the inline \<open>UPDATE\<close>), the loop
    \<open>process_loop_autolabel\<close>, \<open>process_reviews_autolabel\<close> and \<open>autolabel_main\<close>
    (\<open>main\<close>), over the \<open>server\<close> of Http_Api and the \<open>db\<close> of Dedupe. Names that
    clash with a function of another script carry the suffix \<open>_autolabel\<close>.
  \<^item> \<open>Reporter\<close>: the client interface \<open>atproto_client\<close>, attribute access
    (\<open>py_hasattr\<close>, \<open>py_getattr\<close>), one page (\<open>get_list_page\<close>), the loop
    \<open>list_loop\<close> with its page stream \<open>list_walk\<close>, \<open>report_all\<close> and the script
    \<open>reporter_run\<close>; the loop takes fuel like Fetcher's, for the same reason.
  \<^item> \<open>Reportbot\<close>: its \<open>fetch_open_reviews_bot\<close>, the embed \<open>mk_embed\<close> with the
    decimal printing of the identifier (\<open>show_int\<close>), \<open>send_report_to_discord\<close>, the task
    \<open>check_new_reviews\<close>, \<open>reportbot_main\<close> (\<open>k\<close> runs of the task), the Discord
    interface \<open>discord_env\<close>, and the step relation \<open>bot_step\<close> of the bot beside the
    moderation tool with its reachable states \<open>bot_reachable\<close>.
  \<^item> this theory: the scenarios of the specification as theorems, concrete databases,
    services, clients and channels, and the witnesses.

  \<^bold>\<open>How the model corresponds to the code.\<close> Every definition keeps the name of the
  Python function it models. State is explicit: the mutable state of the scraping
  scripts is the token global, which the model passes as an argument, and their output,
  which is the list of events each definition returns (requests issued and log records
  written, in program order); the moderation scripts also thread the database and, for
  the connection a loop shares, the flag \<open>aborted\<close>: \<open>psycopg2\<close> runs the statements
  of a connection in one transaction, a failed statement aborts it, every later statement
  then fails, and no script calls \<open>rollback\<close>. Exceptions are values: \<open>py_exc\<close> for what Python raises, \<open>abort\<close>
  for what ends a script (\<open>exit(1)\<close>, or an exception no \<open>except\<close> catches). Every
  \<open>try\<close>/\<open>except\<close> of the source is a case split of the model. A Python set is a list
  without repetitions and every property about one is stated on its \<open>set\<close> or
  \<open>mset\<close>, because Python does not fix the iteration order of sets.

  \<^bold>\<open>Fuel.\<close> The pagination loop is bounded by nothing in the code. \<open>fetch_loop\<close>
  takes a fuel argument, the number of requests it may issue, and returns \<open>None\<close> when
  it runs out. The fuel is justified by two theorems and a lemma: a fetch with fuel \<open>n\<close>
  returns if and only if the service serves a walk of at most \<open>n\<close> requests (C4); a
  service that always supplies a next cursor makes the loop run forever (C10); and more
  fuel never changes a result (\<open>fetch_relationship_fuel_mono\<close>, a property of the fuel
  encoding rather than of the code). The hypotheses \<open>walk_steps ps ok \<le> n\<close> of the
  theorems are therefore exactly "the loop is given enough requests to finish".

  \<^bold>\<open>What the lemmas show.\<close> Fetcher: the loop returns the union of the pages of the
  walk after one request per page (C2), degrades to the union of the pages before a failing
  request and logs an error (C3), returns exactly on finite walks (C4), and raises
  \<open>TypeError\<close> when an identifier is unhashable (C11); one iteration decodes a
  well-formed page exactly (C13). Enricher: a failed lookup drops exactly its identifier
  (C7) and the fan-out is independent of the visiting order (C8). Orchestrator: the
  single-target result is the intersection of the two walks restricted to successful
  lookups (C1), the dual result is the intersection of the two single results (C5) and is
  symmetric (C6), a failed login ends the script before any fetch (C9), and a login
  without token goes on with \<open>Bearer None\<close> (C12). Dedupe: with distinct review
  identifiers and no failing statement a run closes exactly the open, labelled reviews
  with a truthy identifier and account, and only when the database is reachable (C14); a
  second run changes nothing (C15); the label table and every column but the state and
  the two timestamps are never written (C16); once a label query fails nothing more is
  closed (C17), and once an \<open>UPDATE\<close> fails neither its review nor any later one is
  closed (C18); whatever fails, a run closes only reviews it should close (C19).
  Autolabel: under a successful login, no failing statement and handles that do not make
  the test raise, a run closes exactly the open reviews whose account's handle matches and
  labels exactly those accounts (C20); no account is labelled twice (C21); a handle that
  is truthy but not a string ends the batch, so the reviews after it are never examined
  (C22); a failed label write aborts the transaction, so the \<open>UPDATE\<close> after it raises
  and ends the batch with the review open (C23); a run only appends labels and only
  changes the state and timestamps of reviews (C24). Reporter: when the list walk ends,
  every entry is reported once, in order, whatever the reports return (C25); an exception
  while paginating exits before any report (C26); the script returns exactly on finite
  walks (C27). Reportbot: a tick posts exactly the open reviews whose send succeeds, or
  nothing when the database, the query or the channel fails (C28), and \<open>k\<close> ticks on an
  unchanged database post everything \<open>k\<close> times (C29). Composition: the auto-labeller
  followed by the de-duplicator on one database closes exactly what either would close
  alone (C30), and the relay run after the auto-labeller posts exactly the open reviews
  the auto-labeller left open (C31).

  Beside these, the theories keep lemmas that check the model rather than the scripts:
  the keyword test is a case-insensitive substring test (\<open>keyword_search_iff\<close>); the
  footer of an embed reads back as the identifier (\<open>read_footer_mk_embed\<close>); every state
  reachable by \<open>bot_step\<close> keeps the review identifiers a key and posts only embeds of
  rows in the database (\<open>bot_reachable_distinct_ids\<close>, \<open>bot_reachable_posts_exist\<close>);
  and this theory evaluates the specification's scenarios A to E (\<open>scenario_A\<close> to
  \<open>scenario_E\<close>) and one run of each moderation script (\<open>dedupe_scenario\<close>,
  \<open>autolabel_scenario\<close>, \<open>reporter_scenario\<close>, \<open>reportbot_scenario\<close>) as
  regression checks of the model.

  \<^bold>\<open>Not modelled.\<close> The server is a function, so a run sees one fixed graph: the
  specification's remark that edges may change between the follows walk and the followers
  walk of an account is outside the model. The text of logged exceptions and of
  \<open>response.text\<close>; JSON floats; Python's identification of \<open>True\<close> with \<open>1\<close> in
  sets. The \<open>requests\<close> and \<open>logging\<close> libraries themselves (only their observable
  effects are events). In \<open>src/dedupe.py\<close>: which statement fails is fixed per
  database (a statement either always or never fails, \<open>db_failing\<close>), not per attempt;
  the timestamp format (a clock reading stands for it); the two connections the script
  opens share one availability flag. In
  \<open>src/autolabel.py\<close>: the same, and Unicode case folding (\<open>char\<close> is a byte, so
  \<open>re.IGNORECASE\<close> is modelled on ASCII letters; Python also matches the Kelvin sign
  for \<open>k\<close>). In \<open>src/reporter.py\<close>: the \<open>atproto\<close> client itself (its session, its
  decoding of responses into models: a response is read as a JSON object of attributes),
  and the text of the logged responses. In \<open>src/reportbot.py\<close>: the Discord gateway,
  the event loop and the 60 second timer (a run of the task is one step; time between
  steps is not modelled), the embed's colour object beyond its value, and the connection
  left open on an empty result.

  \<^bold>\<open>Plan.\<close> Every script is modelled, with its database statements failing. What
  is left: statements that fail transiently, and the moderation tool's own writes
  interleaved with the scripts' runs.
\<close>

section \<open>A moderation database\<close>

text \<open>Four reviews: review 1 is open and its account carries the label; review 2 is open,
  without label; review 3 is already closed; review 0 is open and labelled, but its
  identifier is falsy.\<close>

definition review_db :: db where
  "review_db =
     \<lparr>db_up = True,
      mss = [\<lparr>mss_id = 1, mss_did = ''did:a'', mss_reviewState = REVIEW_OPEN, mss_comment = None,
               mss_lastReviewedAt = None, mss_updatedAt = None\<rparr>,
             \<lparr>mss_id = 2, mss_did = ''did:b'', mss_reviewState = REVIEW_OPEN, mss_comment = Some ''spam'',
               mss_lastReviewedAt = None, mss_updatedAt = None\<rparr>,
             \<lparr>mss_id = 3, mss_did = ''did:a'', mss_reviewState = REVIEW_CLOSED, mss_comment = None,
               mss_lastReviewedAt = Some 0, mss_updatedAt = Some 0\<rparr>,
             \<lparr>mss_id = 0, mss_did = ''did:c'', mss_reviewState = REVIEW_OPEN, mss_comment = None,
               mss_lastReviewedAt = None, mss_updatedAt = None\<rparr>],
      labels = [\<lparr>lbl_src = LABELER_DID, lbl_uri = ''did:a'', lbl_cid = '''', lbl_val = LABEL,
                 lbl_neg = False, lbl_cts = 0\<rparr>,
                \<lparr>lbl_src = LABELER_DID, lbl_uri = ''did:c'', lbl_cid = '''', lbl_val = LABEL,
                 lbl_neg = False, lbl_cts = 0\<rparr>],
      clock = 5, db_failing = []\<rparr>"

text \<open>The same database on a server that rejects the label query for \<open>did:b\<close>.\<close>

definition stalled_db :: db where
  "stalled_db = review_db\<lparr>db_failing := [Label_Check ''did:b'']\<rparr>"

text \<open>The same database on a server that rejects the \<open>UPDATE\<close> of review 1.\<close>

definition close_fails_db :: db where
  "close_fails_db = review_db\<lparr>db_failing := [Update_Review 1]\<rparr>"

section \<open>An auto-labelling run\<close>

text \<open>A service that accepts the admin login and knows three handles: \<open>did:a\<close>'s contains
  \<open>KeyWord\<close>, \<open>did:b\<close>'s does not, and \<open>did:e\<close>'s is a number. The database has
  two open reviews of \<open>did:a\<close>, one of \<open>did:b\<close>, a closed review, and no label.\<close>

definition al_token :: json where
  "al_token = JStr ''t''"

definition al_server :: server where
  "al_server req =
     (if req = login_request_autolabel API_URL ADMIN_USERNAME ADMIN_PASSWORD
      then Response 200 (Some (JObj [(''accessJwt'', al_token)]))
      else if req = username_request API_URL al_token (JStr ''did:a'')
      then Response 200 (Some (JObj [(''handle'', JStr ''KeyWordFan.bsky.social'')]))
      else if req = username_request API_URL al_token (JStr ''did:b'')
      then Response 200 (Some (JObj [(''handle'', JStr ''alice.bsky.social'')]))
      else if req = username_request API_URL al_token (JStr ''did:e'')
      then Response 200 (Some (JObj [(''handle'', JNum 7)]))
      else Response 404 None)"

definition open_row :: "int \<Rightarrow> string \<Rightarrow> mss_row" where
  "open_row i a = \<lparr>mss_id = i, mss_did = a, mss_reviewState = REVIEW_OPEN, mss_comment = None,
                   mss_lastReviewedAt = None, mss_updatedAt = None\<rparr>"

definition label_db :: db where
  "label_db =
     \<lparr>db_up = True,
      mss = [open_row 1 ''did:a'', open_row 2 ''did:b'', open_row 5 ''did:a'',
             \<lparr>mss_id = 3, mss_did = ''did:c'', mss_reviewState = REVIEW_CLOSED, mss_comment = None,
              mss_lastReviewedAt = Some 0, mss_updatedAt = Some 0\<rparr>],
      labels = [], clock = 10, db_failing = []\<rparr>"

text \<open>The same database on a server that rejects the insert of a label for \<open>did:a\<close>.\<close>

definition label_db_insert_fails :: db where
  "label_db_insert_fails = label_db\<lparr>db_failing := [Insert_Label ''did:a'']\<rparr>"

section \<open>A reporting run\<close>

text \<open>A client whose list has two pages, X and Y then Z (the second without a cursor
  attribute), and whose labeler rejects the report on Y; and the same client whose
  request for the second page raises.\<close>

definition list_item :: "string \<Rightarrow> json" where
  "list_item a = JObj [(''subject'', JObj [(''did'', JStr a)])]"

definition rep_client :: atproto_client where
  "rep_client =
     \<lparr>ac_login = Inr (),
      ac_get_list = (\<lambda>params. if dict_lookup params ''cursor'' = None
                               then Inr (JObj [(''items'', JList [list_item ''X'', list_item ''Y'']),
                                               (''cursor'', JStr ''c1'')])
                               else Inr (JObj [(''items'', JList [list_item ''Z''])])),
      ac_create_report = (\<lambda>r. if rd_subject_did r = JStr ''Y'' then Inl TransportError else Inr (JObj []))\<rparr>"

definition rep_client_broken :: atproto_client where
  "rep_client_broken = rep_client\<lparr>ac_get_list := (\<lambda>params.
     if dict_lookup params ''cursor'' = None then ac_get_list rep_client params else Inl TransportError)\<rparr>"

section \<open>A relay run\<close>

text \<open>A Discord channel that exists and accepts every post.\<close>

definition relay :: discord_env where
  "relay = \<lparr>dc_channel = True, dc_send_ok = (\<lambda>e. True)\<rparr>"

text \<open>The definitions the concrete runs below are evaluated with.\<close>

lemmas relay_eval =
  bot_init_def new_posts_def open_rows_def review_embed_def mk_embed_def to_bot_review_def
  comment_or_default_def NO_COMMENT_def review_db_def relay_def show_int_def decimal.simps
  digit_char_def DIGITS_def REVIEW_OPEN_def REVIEW_CLOSED_def

lemmas rep_scenario_eval =
  rep_client_def rep_client_broken_def list_item_def get_list_page_def list_params_def read_list_page_def
  py_hasattr_def py_getattr_def subject_did_def dict_lookup_def

lemmas al_scenario_eval =
  label_db_def open_row_def to_review_def username_of_def fetch_username_from_did_def al_server_def
  username_request_def login_request_autolabel_def get_access_token_autolabel_def
  dict_get_def dict_lookup_def Let_def

section \<open>Auto-labelling, then de-duplication\<close>

text \<open>The two scripts on one database: one row before and after an auto-labelling run,
  and the label table after it.\<close>

lemma should_close_after_autolabel:
  assumes "mss_id r1 = mss_id r" "mss_did r1 = mss_did r"
    and "mss_reviewState r1 = (if al_should_close srv tok r then REVIEW_CLOSED else mss_reviewState r)"
    and "\<And>a. has_label ls1 a LABEL \<longleftrightarrow> has_label ls a LABEL \<or> (\<exists>r' \<in> R. al_should_close srv tok r' \<and> mss_did r' = a)"
  shows "(if should_close ls1 r1 then REVIEW_CLOSED else mss_reviewState r1) =
         (if al_should_close srv tok r \<or> should_close ls r then REVIEW_CLOSED else mss_reviewState r)"
  using assms
  by (auto simp: should_close_def closable_to_review al_should_close_def selected_def valid_review_def
                 rv_did_to_review)

lemma has_label_after_autolabel:
  assumes "set (label_keys ls1) = set (label_keys ls) \<union> {(LABELER_DID, mss_did r, LABEL) | r. r \<in> R \<and> P r}"
  shows "has_label ls1 a LABEL \<longleftrightarrow> has_label ls a LABEL \<or> (\<exists>r' \<in> R. P r' \<and> mss_did r' = a)"
  using assms by (auto simp: has_label_keys)

text \<open>What a healthy auto-labelling run leaves in the database, in the terms the other two
  scripts read it in.\<close>

lemma autolabel_main_healthy:
  assumes login: "get_access_token_autolabel srv API_URL ADMIN_USERNAME ADMIN_PASSWORD = (Inr tok, login_log)"
    and up: "db_up d" and healthy: "db_failing d = []" and ids: "distinct (map mss_id (mss d))"
    and handles: "\<forall>r \<in> set (mss d). mss_reviewState r = REVIEW_OPEN \<and> mss_id r \<noteq> 0 \<and> mss_did r \<noteq> [] \<longrightarrow>
                    handle_ok (username_of srv tok (mss_did r))"
  shows "db_up (fst (snd (autolabel_main srv d))) \<and> db_failing (fst (snd (autolabel_main srv d))) = []
   \<and> map (\<lambda>r. (row_key r, mss_reviewState r)) (mss (fst (snd (autolabel_main srv d)))) =
       map (\<lambda>r. (row_key r, if al_should_close srv tok r then REVIEW_CLOSED else mss_reviewState r)) (mss d)
   \<and> set (label_keys (labels (fst (snd (autolabel_main srv d))))) =
       set (label_keys (labels d)) \<union> {(LABELER_DID, mss_did r, LABEL) | r. r \<in> set (mss d) \<and> al_should_close srv tok r}"
proof -
  have run: "fst (snd (autolabel_main srv d)) = snd (run_outcome (process_loop_autolabel srv tok d (open_reviews d)))"
    using autolabel_main_up [OF login up] healthy by simp
  note res = autolabel_open_reviews_result [OF healthy ids handles]
  note fr = process_loop_autolabel_frame [of srv tok d "open_reviews d"]
  have "map (\<lambda>r. (row_key r, mss_reviewState r)) (mss (fst (snd (autolabel_main srv d)))) =
        map (\<lambda>r. (row_key r, if al_should_close srv tok r then REVIEW_CLOSED else mss_reviewState r)) (mss d)"
    by (rule map_pair_eq) (use fr res in \<open>simp_all add: run\<close>)
  with fr res up healthy show ?thesis
    by (simp add: run)
qed

text \<open>The embeds of the open rows depend only on each row's identifying columns and
  state.\<close>

lemma open_embeds_eq:
  "map (\<lambda>r. (row_key r, mss_reviewState r)) ys = map (\<lambda>r. (row_key r, h r)) xs \<Longrightarrow>
   map review_embed (filter (\<lambda>r. mss_reviewState r = REVIEW_OPEN) ys) =
   map review_embed (filter (\<lambda>r. h r = REVIEW_OPEN) xs)"
proof (induction xs arbitrary: ys)
  case Nil
  then show ?case by simp
next
  case (Cons x xs)
  then obtain y ys' where ys: "ys = y # ys'" "row_key y = row_key x" "mss_reviewState y = h x"
    "map (\<lambda>r. (row_key r, mss_reviewState r)) ys' = map (\<lambda>r. (row_key r, h r)) xs"
    by (cases ys) auto
  have "review_embed y = review_embed x"
    using ys(2) by (simp add: review_embed_def to_bot_review_def mk_embed_def row_key_def)
  with ys Cons.IH [OF ys(4)] show ?case
    by simp
qed

section \<open>The scenarios of the specification\<close>

text \<open>Scenario A, single target. The target follows X, Y and Z and is followed by X
  and W: the script prints exactly X's record.\<close>

theorem scenario_A:
  "map_option (\<lambda>(r, evs). (r, printed_results evs)) (mutualsnoop_run 3 (sim_server simA) ''A'') =
   Some (Inr (), [expected_result ''X''])"
  by code_simp

text \<open>Scenario B, dual target. A's mutual connections are X and Q, B's are Q and Z:
  the common accounts are Q alone.\<close>

theorem scenario_B:
  "map_option fst (find_common_accounts 3 (sim_server simB) jwt (JStr ''A'') (JStr ''B'')) =
   Some (Inr [expected_result ''Q''])"
  by code_simp

text \<open>Scenario C, pagination. Three pages of two identifiers, the third without
  cursor: the fetch returns the six identifiers after exactly three requests, and does not
  return with fuel for two.\<close>

theorem scenario_C:
  "map_option (\<lambda>(r, evs). (r, length (calls evs))) (fetch_follows 3 (sim_server simC) jwt (JStr ''C'')) =
     Some (Inr (concat pagesC), 3)
   \<and> fetch_follows 2 (sim_server simC) jwt (JStr ''C'') = None"
  by code_simp

text \<open>Scenario D, degraded fetch. The request for the second page fails: the fetch
  returns the first page's two identifiers, logs an error and raises nothing.\<close>

theorem scenario_D:
  "map_option (\<lambda>(r, evs). (r, error_logged evs)) (fetch_follows 5 (sim_server simD) jwt (JStr ''C'')) =
     Some (Inr [JStr ''P1'', JStr ''P2''], True)"
  by code_simp

text \<open>Scenario E, enrichment skip. The intersection is X and Y and Y's profile
  request fails: the output holds X's record only.\<close>

theorem scenario_E:
  "map_option fst (find_mutual_connections 3 (sim_server simE) jwt (JStr ''E'')) =
   Some (Inr [expected_result ''X''])"
  by code_simp

text \<open>Review de-duplication on a concrete database. Only review 1 is closed, with
  both timestamps set to the clock's reading, and the clock advances once.\<close>

theorem dedupe_scenario:
  "fst (dedupe_main review_db) =
     review_db\<lparr>mss := (mss review_db)[0 := (mss review_db ! 0)\<lparr>mss_reviewState := REVIEW_CLOSED,
                   mss_lastReviewedAt := Some 5, mss_updatedAt := Some 5\<rparr>],
               clock := 6\<rparr>"
  by code_simp

text \<open>Auto-labelling on a concrete database. Both open reviews of \<open>did:a\<close> are
  closed, each with the time it was closed at; \<open>did:a\<close> is labelled once, at the first of
  them; the review of \<open>did:b\<close> stays open; the clock advances three times.\<close>

theorem autolabel_scenario:
  "fst (autolabel_main al_server label_db) = Inr () \<and>
   fst (snd (autolabel_main al_server label_db)) =
     label_db\<lparr>mss := [(open_row 1 ''did:a'')\<lparr>mss_reviewState := REVIEW_CLOSED,
                         mss_lastReviewedAt := Some 11, mss_updatedAt := Some 11\<rparr>,
                       open_row 2 ''did:b'',
                       (open_row 5 ''did:a'')\<lparr>mss_reviewState := REVIEW_CLOSED,
                         mss_lastReviewedAt := Some 12, mss_updatedAt := Some 12\<rparr>,
                       mss label_db ! 3],
               labels := [\<lparr>lbl_src = LABELER_DID, lbl_uri = ''did:a'', lbl_cid = '''', lbl_val = LABEL,
                           lbl_neg = False, lbl_cts = 10\<rparr>],
               clock := 13\<rparr>"
  by code_simp

text \<open>Reporting on a concrete list. The script reports X, Y and Z, in list order,
  although the report on Y fails.\<close>

theorem reporter_scenario:
  "map_option (\<lambda>(r, evs). (r, reported evs)) (reporter_run 5 rep_client) =
     Some (Inr (), [JStr ''X'', JStr ''Y'', JStr ''Z''])"
  by code_simp

text \<open>Relaying the moderation database. Two runs of the task on the database
  \<open>review_db\<close> post the three open reviews, review 0 included, once per run; the footers print the
  identifiers and the review without comment gets the default text.\<close>

theorem reportbot_scenario:
  "map em_footer (sent (reportbot_main relay review_db 2)) =
     [''Review ID: 1'', ''Review ID: 2'', ''Review ID: 0'', ''Review ID: 1'', ''Review ID: 2'', ''Review ID: 0'']
   \<and> map em_description (take 2 (sent (reportbot_main relay review_db 2))) =
     [''**DID**: did:a'' @ [CHR 0x0A] @ ''**Comment**: No comment provided'',
      ''**DID**: did:b'' @ [CHR 0x0A] @ ''**Comment**: spam'']"
  by (simp add: reportbot_main_def numeral_2_eq_2 check_new_reviews_sent relay_eval)

section \<open>Witnesses\<close>

lemma relay_reachable: "bot_reachable relay (check_new_reviews relay (bot_init review_db))"
  by (rule bot_reachable.step [OF bot_reachable.start bot_step.tick]) (simp add: review_db_def)

text \<open>Each theorem with hypotheses, applied where its hypotheses hold.\<close>

theorem find_mutual_connections_correct_witness:
  "\<exists>rs evs. find_mutual_connections 3 (sim_server simA) jwt (JStr ''A'') = Some (Inr rs, evs)
     \<and> set rs = {mk_result x p | x p. x \<in> set (concat [[JStr ''X'', JStr ''Y'', JStr ''Z'']])
                                    \<and> x \<in> set (concat [[JStr ''X'', JStr ''W'']])
                                    \<and> fst (fetch_account_details (sim_server simA) jwt x) = Some p}
     \<and> distinct rs
     \<and> length (calls evs) = walk_steps [[JStr ''X'', JStr ''Y'', JStr ''Z'']] True
                            + walk_steps [[JStr ''X'', JStr ''W'']] True
                            + card (set (concat [[JStr ''X'', JStr ''Y'', JStr ''Z'']])
                                    \<inter> set (concat [[JStr ''X'', JStr ''W'']]))"
  by (rule find_mutual_connections_correct [OF sim_walk_simA(1) _ sim_walk_simA(2)])
     (simp_all add: walk_steps_def)

theorem fetch_relationship_exhausted_witness:
  "\<exists>ys evs. fetch_relationship 3 (sim_server simC) jwt FOLLOWS (JStr ''C'') = Some (Inr ys, evs)
     \<and> set ys = (\<Union>p \<in> set pagesC. set p) \<and> distinct ys
     \<and> length (calls evs) = length pagesC \<and> \<not> error_logged evs"
  by (rule fetch_relationship_exhausted) (auto intro: sim_walk simp: simC_def pagesC_def)

theorem fetch_relationship_degraded_witness:
  "\<exists>ys evs. fetch_relationship 2 (sim_server simD) jwt FOLLOWS (JStr ''C'') = Some (Inr ys, evs)
     \<and> set ys = (\<Union>p \<in> set [hd pagesC]. set p) \<and> error_logged evs"
  by (rule fetch_relationship_degraded) (auto intro: sim_walk simp: simD_def pagesC_def)

theorem find_common_accounts_inter_witness:
  "\<exists>rs rs1 rs2 evs evs1 evs2.
     find_common_accounts 3 (sim_server simB) jwt (JStr ''A'') (JStr ''B'') = Some (Inr rs, evs)
     \<and> find_mutual_connections 3 (sim_server simB) jwt (JStr ''A'') = Some (Inr rs1, evs1)
     \<and> find_mutual_connections 3 (sim_server simB) jwt (JStr ''B'') = Some (Inr rs2, evs2)
     \<and> set rs = set rs1 \<inter> set rs2"
  by (rule find_common_accounts_inter [OF sim_walk_simB(1) _ sim_walk_simB(2) _ sim_walk_simB(3) _
        sim_walk_simB(4)]) (simp_all add: walk_steps_def)

theorem find_common_accounts_symmetric_witness:
  "\<exists>rs1 rs2 evs1 evs2.
     find_common_accounts 3 (sim_server simB) jwt (JStr ''A'') (JStr ''B'') = Some (Inr rs1, evs1)
     \<and> find_common_accounts 3 (sim_server simB) jwt (JStr ''B'') (JStr ''A'') = Some (Inr rs2, evs2)
     \<and> mset rs1 = mset rs2"
  by (rule find_common_accounts_symmetric [OF sim_walk_simB(1) _ sim_walk_simB(2) _ sim_walk_simB(3) _
        sim_walk_simB(4)]) (simp_all add: walk_steps_def)

theorem enrich_all_drop_witness:
  "fst (enrich_all failing_profile_Y jwt [JStr ''X'', JStr ''Y'']) =
   filter (\<lambda>r. did r \<noteq> JStr ''Y'') (fst (enrich_all (sim_server simA) jwt [JStr ''X'', JStr ''Y'']))"
  by (rule enrich_all_drop)
     (simp_all add: failing_profile_Y_def fetch_account_details_def)

theorem enrich_all_perm_witness:
  "mset (fst (enrich_all (sim_server simA) jwt [JStr ''X'', JStr ''Y''])) =
   mset (fst (enrich_all (sim_server simA) jwt [JStr ''Y'', JStr ''X'']))"
  by (rule enrich_all_perm) simp

theorem login_failure_fatal_witness:
  "\<exists>evs. mutualsnoop_run 3 (sim_server (simA\<lparr>sim_login := Response 401 None\<rparr>)) ''A'' =
           Some (Inl (Exit_Status 1), evs)
     \<and> calls evs = [login_request] \<and> (\<forall>r. Log (Result_Line r) \<notin> set evs)"
  by (rule login_failure_fatal) (simp add: sim_server_def)

theorem fetch_relationship_fuel_mono_witness:
  "\<exists>r. fetch_relationship 3 (sim_server simC) jwt FOLLOWS (JStr ''C'') = Some r
       \<and> fetch_relationship 5 (sim_server simC) jwt FOLLOWS (JStr ''C'') = Some r"
proof -
  have "fetch_relationship 3 (sim_server simC) jwt FOLLOWS (JStr ''C'') \<noteq> None"
    by code_simp
  then obtain r where r: "fetch_relationship 3 (sim_server simC) jwt FOLLOWS (JStr ''C'') = Some r"
    by blast
  have "fetch_relationship 5 (sim_server simC) jwt FOLLOWS (JStr ''C'') = Some r"
    by (rule fetch_relationship_fuel_mono [OF r]) simp
  with r show ?thesis by blast
qed

theorem fetch_relationship_diverges_witness:
  "\<forall>n. fetch_relationship n cycle_server jwt FOLLOWS (JStr ''A'') = None"
proof
  fix n
  show "fetch_relationship n cycle_server jwt FOLLOWS (JStr ''A'') = None"
  proof (rule fetch_relationship_diverges)
    show "\<forall>c. \<exists>ids c'. get_page cycle_server jwt FOLLOWS (JStr ''A'') c = Page_Ok ids c' \<and> truthy c'"
      by (simp add: get_page_def cycle_server_def read_page_page_body)
  qed
qed

theorem fetch_relationship_unhashable_witness:
  "\<exists>evs. fetch_relationship 1 (sim_server simU) jwt FOLLOWS (JStr ''A'') = Some (Inl (Uncaught TypeError), evs)"
  by (rule fetch_relationship_unhashable [of _ _ _ _ "[[JStr ''X'', JList [JStr ''Y'']]]" True])
     (auto intro: sim_walk simp: simU_def walk_steps_def)

theorem login_without_token_continues_witness:
  "mutualsnoop_run 3 (sim_server (simA\<lparr>sim_login := Response 200 (Some (JObj []))\<rparr>)) ''A'' =
     map_option (\<lambda>(r, evs). (r, [Log Logging_In, Call login_request, Log Login_Successful] @ evs))
       (bind_run (find_mutual_connections 3 (sim_server (simA\<lparr>sim_login := Response 200 (Some (JObj []))\<rparr>))
                    JNull (JStr ''A'')) (\<lambda>results.
          emit (Log (Results_Header ''Mutual connections:'') # map (\<lambda>r. Log (Result_Line r)) results)))"
  by (rule login_without_token_continues [where kv = "[]"]) (simp_all add: sim_server_def dict_lookup_def)

theorem get_page_page_body_witness:
  "get_page (sim_server simC) jwt FOLLOWS (JStr ''C'') JNull = Page_Ok [JStr ''P1'', JStr ''P2''] (JNum 1)"
proof (rule get_page_page_body)
  have "sim_server simC (page_request jwt FOLLOWS (JStr ''C'') (page_cursor 0)) =
        paged_response FOLLOWS pagesC True 0"
    by (rule sim_server_page) (simp add: simC_def)
  then show "sim_server simC (page_request jwt FOLLOWS (JStr ''C'') JNull) =
             Response 200 (Some (page_body FOLLOWS [JStr ''P1'', JStr ''P2''] (JNum 1)))"
    by (simp add: page_cursor_def paged_response_def pagesC_def)
qed

theorem process_reviews_closes_witness:
  "map mss_reviewState (mss (fst (process_reviews review_db))) =
   map (\<lambda>r. if db_up review_db \<and> should_close (labels review_db) r then REVIEW_CLOSED
            else mss_reviewState r) (mss review_db)"
  by (rule process_reviews_closes) (simp_all add: review_db_def)

theorem autolabel_main_closes_witness:
  "map mss_reviewState (mss (fst (snd (autolabel_main al_server label_db)))) =
     map (\<lambda>r. if al_should_close al_server al_token r then REVIEW_CLOSED else mss_reviewState r) (mss label_db)
   \<and> set (label_keys (labels (fst (snd (autolabel_main al_server label_db))))) =
     set (label_keys (labels label_db)) \<union>
     {(LABELER_DID, mss_did r, LABEL) | r. r \<in> set (mss label_db) \<and> al_should_close al_server al_token r}"
  by (rule autolabel_main_closes [where login_log = "[AL_Call (login_request_autolabel API_URL ADMIN_USERNAME ADMIN_PASSWORD),
                                            AL_Log AL_Login_Successful]"])
     (simp_all add: al_scenario_eval handle_ok_def)

theorem autolabel_main_labels_unique_witness:
  "distinct (label_keys (labels (fst (snd (autolabel_main al_server label_db)))))"
  by (rule autolabel_main_labels_unique) (simp add: label_db_def label_keys_def)

theorem process_loop_autolabel_stops_witness:
  "process_loop_autolabel al_server al_token label_db
     ([to_review (open_row 1 ''did:a'')] @ to_review (open_row 4 ''did:e'') # [to_review (open_row 6 ''did:a'')]) =
   process_loop_autolabel al_server al_token label_db
     ([to_review (open_row 1 ''did:a'')] @ [to_review (open_row 4 ''did:e'')])"
  by (rule process_loop_autolabel_stops) (simp_all add: al_scenario_eval valid_review_def handle_ok_def)

theorem reporter_reports_all_witness:
  "\<exists>evs. reporter_run 2 rep_client = Some (Inr (), evs)
     \<and> reported evs = concat [[JStr ''X'', JStr ''Y''], [JStr ''Z'']]"
proof (rule reporter_reports_all)
  show "ac_login rep_client = Inr ()" by (simp add: rep_client_def)
  have "list_walk rep_client (JStr ''c1'') [[JStr ''Z'']] True"
    by (rule list_walk_last [where c' = JNull and k = 1]) (simp_all add: rep_scenario_eval)
  then show "list_walk rep_client JNull [[JStr ''X'', JStr ''Y''], [JStr ''Z'']] True"
    by (rule list_walk_next [where c' = "JStr ''c1''" and k = 2, rotated 2]) (simp_all add: rep_scenario_eval)
qed simp

theorem reporter_list_failure_fatal_witness:
  "\<exists>evs. reporter_run 2 rep_client_broken = Some (Inl (Exit_Status 1), evs) \<and> reported evs = []"
proof (rule reporter_list_failure_fatal)
  show "ac_login rep_client_broken = Inr ()" by (simp add: rep_scenario_eval)
  have "list_walk rep_client_broken (JStr ''c1'') [] False"
    by (rule list_walk_fail [where e = TransportError]) (simp add: rep_scenario_eval)
  then show "list_walk rep_client_broken JNull [[JStr ''X'', JStr ''Y'']] False"
    by (rule list_walk_next [where c' = "JStr ''c1''" and k = 2, rotated 2]) (simp_all add: rep_scenario_eval)
qed (simp add: walk_steps_def)

theorem bot_reachable_posts_exist_witness:
  "\<exists>r. r \<in> set (mss (bot_db (check_new_reviews relay (bot_init review_db))))
      \<and> review_embed (mss review_db ! 1) = review_embed r"
  by (rule bot_reachable_posts_exist [OF relay_reachable]) (simp add: check_new_reviews_sent relay_eval)

theorem bot_reachable_distinct_ids_witness:
  "distinct (map mss_id (mss (bot_db (check_new_reviews relay (bot_init review_db)))))"
  by (rule bot_reachable_distinct_ids [OF relay_reachable])

theorem process_reviews_idempotent_witness:
  "fst (process_reviews (fst (process_reviews review_db))) = fst (process_reviews review_db)"
  by (rule process_reviews_idempotent) (simp add: review_db_def)

theorem process_loop_check_failure_witness:
  "fst (process_loop stalled_db False [to_review (mss review_db ! 1), to_review (mss review_db ! 0)]) = stalled_db"
  by (rule process_loop_check_failure) (simp_all add: stalled_db_def review_db_def to_review_def)

theorem process_loop_close_failure_witness:
  "fst (process_loop close_fails_db False [to_review (mss review_db ! 0), to_review (mss review_db ! 1)]) =
   close_fails_db\<lparr>clock := Suc (clock close_fails_db)\<rparr>"
  by (rule process_loop_close_failure)
     (simp_all add: close_fails_db_def review_db_def to_review_def closable_def has_label_def stmt_ok_def)

theorem process_reviews_closes_only_witness:
  "list_all2 (\<lambda>r r'. mss_reviewState r' = mss_reviewState r \<or>
                      mss_reviewState r' = REVIEW_CLOSED \<and> should_close (labels stalled_db) r)
     (mss stalled_db) (mss (fst (process_reviews stalled_db)))"
  by (rule process_reviews_closes_only) (simp add: stalled_db_def review_db_def)

theorem process_loop_autolabel_write_failure_witness:
  "fst (run_outcome (process_loop_autolabel al_server al_token label_db_insert_fails
          [to_review (open_row 1 ''did:a''), to_review (open_row 5 ''did:a'')])) = Inl DatabaseError
   \<and> mss (snd (run_outcome (process_loop_autolabel al_server al_token label_db_insert_fails
          [to_review (open_row 1 ''did:a''), to_review (open_row 5 ''did:a'')]))) = mss label_db_insert_fails
   \<and> labels (snd (run_outcome (process_loop_autolabel al_server al_token label_db_insert_fails
          [to_review (open_row 1 ''did:a''), to_review (open_row 5 ''did:a'')]))) = labels label_db_insert_fails"
proof (rule process_loop_autolabel_write_failure)
  show "selected al_server al_token (to_review (open_row 1 ''did:a''))"
    by code_simp
  show "Label_Check (rv_did (to_review (open_row 1 ''did:a''))) \<in> set (db_failing label_db_insert_fails) \<or>
        \<not> has_label (labels label_db_insert_fails) (rv_did (to_review (open_row 1 ''did:a''))) LABEL \<and>
        Insert_Label (rv_did (to_review (open_row 1 ''did:a''))) \<in> set (db_failing label_db_insert_fails)"
    by (simp add: label_db_insert_fails_def label_db_def open_row_def to_review_def has_label_def)
qed

text \<open>C30 (auto-labelling, then de-duplication). The two moderation scripts run one after
  the other on one healthy database, with distinct review identifiers, a successful login
  and handles that do not make the pattern test raise: afterwards a review is closed
  exactly when it was, or the auto-labeller selects it, or the de-duplicator alone would
  have closed it. The labels the first run adds create no work for the second, since every
  open review of a newly labelled account was closed by the first run already.\<close>

theorem autolabel_then_dedupe:
  assumes login: "get_access_token_autolabel srv API_URL ADMIN_USERNAME ADMIN_PASSWORD = (Inr tok, login_log)"
    and up: "db_up d" and healthy: "db_failing d = []" and ids: "distinct (map mss_id (mss d))"
    and handles: "\<forall>r \<in> set (mss d). mss_reviewState r = REVIEW_OPEN \<and> mss_id r \<noteq> 0 \<and> mss_did r \<noteq> [] \<longrightarrow>
                    handle_ok (username_of srv tok (mss_did r))"
  shows "map mss_reviewState (mss (fst (dedupe_main (fst (snd (autolabel_main srv d)))))) =
         map (\<lambda>r. if al_should_close srv tok r \<or> should_close (labels d) r then REVIEW_CLOSED
                  else mss_reviewState r) (mss d)"
proof -
  define d1 where "d1 = fst (snd (autolabel_main srv d))"
  note h = autolabel_main_healthy [OF login up healthy ids handles, folded d1_def]
  have pairs: "map (\<lambda>r. (row_key r, mss_reviewState r)) (mss d1) =
    map (\<lambda>r. (row_key r, if al_should_close srv tok r then REVIEW_CLOSED else mss_reviewState r)) (mss d)"
    using h by simp
  have keys: "map row_key (mss d1) = map row_key (mss d)"
    and st1: "map mss_reviewState (mss d1) =
              map (\<lambda>r. if al_should_close srv tok r then REVIEW_CLOSED else mss_reviewState r) (mss d)"
    using arg_cong [OF pairs, of "map fst"] arg_cong [OF pairs, of "map snd"]
    by (simp_all add: comp_def)
  note cols = row_key_columns [OF keys]
  have len: "length (mss d1) = length (mss d)"
    using arg_cong [OF keys, of length] by simp
  have ids1: "distinct (map mss_id (mss d1))"
    using ids cols by simp
  have lab: "has_label (labels d1) a LABEL \<longleftrightarrow>
             has_label (labels d) a LABEL \<or> (\<exists>r' \<in> set (mss d). al_should_close srv tok r' \<and> mss_did r' = a)" for a
    by (rule has_label_after_autolabel) (use h in simp)
  have st2: "map mss_reviewState (mss (fst (dedupe_main d1))) =
             map (\<lambda>r. if should_close (labels d1) r then REVIEW_CLOSED else mss_reviewState r) (mss d1)"
    using process_reviews_status_distinct [OF ids1] h by (simp add: dedupe_main_def split_def Let_def)
  show ?thesis
    unfolding d1_def [symmetric] st2
  proof (rule nth_equalityI)
    fix i
    assume "i < length (map (\<lambda>r. if should_close (labels d1) r then REVIEW_CLOSED else mss_reviewState r) (mss d1))"
    then have i: "i < length (mss d)" using len by simp
    have "mss_id (mss d1 ! i) = mss_id (mss d ! i)" "mss_did (mss d1 ! i) = mss_did (mss d ! i)"
      using cols i len by (metis nth_map)+
    moreover have "mss_reviewState (mss d1 ! i) =
                   (if al_should_close srv tok (mss d ! i) then REVIEW_CLOSED else mss_reviewState (mss d ! i))"
      using arg_cong [OF st1, of "\<lambda>xs. xs ! i"] i len by simp
    ultimately show "map (\<lambda>r. if should_close (labels d1) r then REVIEW_CLOSED else mss_reviewState r) (mss d1) ! i =
          map (\<lambda>r. if al_should_close srv tok r \<or> should_close (labels d) r then REVIEW_CLOSED
                   else mss_reviewState r) (mss d) ! i"
      using i len by (simp add: should_close_after_autolabel [OF _ _ _ lab])
  qed (simp add: len)
qed

theorem autolabel_then_dedupe_witness:
  "map mss_reviewState (mss (fst (dedupe_main (fst (snd (autolabel_main al_server label_db)))))) =
   map (\<lambda>r. if al_should_close al_server al_token r \<or> should_close (labels label_db) r then REVIEW_CLOSED
            else mss_reviewState r) (mss label_db)"
  by (rule autolabel_then_dedupe [where login_log = "[AL_Call (login_request_autolabel API_URL ADMIN_USERNAME ADMIN_PASSWORD),
                                            AL_Log AL_Login_Successful]"])
     (simp_all add: al_scenario_eval handle_ok_def)

text \<open>C31 (auto-labelling, then the relay). When the relay's task runs on the database a
  healthy auto-labelling run left (under the hypotheses of C30), it posts the open
  reviews the auto-labeller did not close, in table order, each whose send succeeds, and
  nothing when the channel is missing.\<close>

theorem autolabel_then_relay:
  assumes login: "get_access_token_autolabel srv API_URL ADMIN_USERNAME ADMIN_PASSWORD = (Inr tok, login_log)"
    and up: "db_up d" and healthy: "db_failing d = []" and ids: "distinct (map mss_id (mss d))"
    and handles: "\<forall>r \<in> set (mss d). mss_reviewState r = REVIEW_OPEN \<and> mss_id r \<noteq> 0 \<and> mss_did r \<noteq> [] \<longrightarrow>
                    handle_ok (username_of srv tok (mss_did r))"
    and relay_db: "bot_db s = fst (snd (autolabel_main srv d))"
  shows "sent (check_new_reviews dc s) =
         sent s @ (if dc_channel dc
                   then filter (dc_send_ok dc)
                          (map review_embed (filter (\<lambda>r. mss_reviewState r = REVIEW_OPEN \<and> \<not> al_should_close srv tok r) (mss d)))
                   else [])"
proof -
  note h = autolabel_main_healthy [OF login up healthy ids handles, folded relay_db]
  have "map review_embed (open_rows (bot_db s)) =
        map review_embed (filter (\<lambda>r. (if al_should_close srv tok r then REVIEW_CLOSED else mss_reviewState r) = REVIEW_OPEN) (mss d))"
    unfolding open_rows_def by (rule open_embeds_eq) (use h in simp)
  also have "filter (\<lambda>r. (if al_should_close srv tok r then REVIEW_CLOSED else mss_reviewState r) = REVIEW_OPEN) (mss d) =
             filter (\<lambda>r. mss_reviewState r = REVIEW_OPEN \<and> \<not> al_should_close srv tok r) (mss d)"
    by (rule filter_cong) auto
  finally show ?thesis
    using h by (simp add: check_new_reviews_sent new_posts_def)
qed

theorem autolabel_then_relay_witness:
  "sent (check_new_reviews relay (bot_init (fst (snd (autolabel_main al_server label_db))))) =
   sent (bot_init (fst (snd (autolabel_main al_server label_db)))) @
     (if dc_channel relay
      then filter (dc_send_ok relay)
             (map review_embed (filter (\<lambda>r. mss_reviewState r = REVIEW_OPEN \<and> \<not> al_should_close al_server al_token r)
                (mss label_db)))
      else [])"
  by (rule autolabel_then_relay [where login_log = "[AL_Call (login_request_autolabel API_URL ADMIN_USERNAME ADMIN_PASSWORD),
                                            AL_Log AL_Login_Successful]"])
     (simp_all add: al_scenario_eval handle_ok_def bot_init_def)

end
